(* ===== verification/Prelude.thy ===== *)
theory Prelude
  imports Main "HOL-Library.Word"
begin

text \<open>
  What every component of the development shares.

  \<^item> The machine types of the C sources: \<open>uint8_t\<close>, \<open>uint32_t\<close> and \<open>uint64_t\<close> are words
    of their width, so that \<open>+\<close>, \<open>-\<close> and \<open>*\<close> wrap as in C; an \<open>int32_t\<close> or \<open>int\<close> counter is
    an \<open>int\<close>, read from a word by \<open>i32_of_u32\<close> where the code casts; an \<open>int\<close> used as a flag
    is a \<open>bool\<close>.
  \<^item> The status codes as an error type, so that every early return is a value.
  \<^item> \<open>memcpy\<close>, \<open>memmove\<close> and \<open>memset\<close> on byte lists (\<open>blit\<close>), with the lemmas about them.
  \<^item> Facts on bit tests, word comparison and the 64-bit sums the range checks use.
  \<^item> Two interfaces as locales: \<open>countdown\<close> (a device that counts one per tick and does
    something at zero: the UART shifter, the timer, the DMA engine) and \<open>mmio_device\<close> (a
    register file: what an access may and may not change).
\<close>

unbundle bit_operations_syntax

named_theorems soc_defs \<open>definitions of the register-level operations\<close>
named_theorems blit_simps \<open>facts about byte copies\<close>
named_theorems wf_intros \<open>preservation of the well-formedness invariants\<close>

section \<open>Machine types and status codes\<close>

type_synonym u8 = "8 word"
type_synonym u32 = "32 word"
type_synonym u64 = "64 word"

text \<open>The cast \<open>(int32_t)w\<close> of a \<open>uint32_t\<close>: two's complement.\<close>

definition i32_of_u32 :: "u32 \<Rightarrow> int" where
  "i32_of_u32 w = sint w"

text \<open>
  The statuses \<open>SOC_ERR_BUS\<close> and \<open>SOC_UART_ERR_DISABLED\<close>; \<open>SOC_OK\<close> is the right summand
  \<open>Inr\<close>, which carries the value a read stores through its \<open>out\<close> pointer.
\<close>

datatype soc_err = SOC_ERR_BUS | SOC_UART_ERR_DISABLED

text \<open>
  The back pointers \<open>perf\<close> and \<open>intc\<close> that the peripherals keep: either \<open>NULL\<close> or the one
  instance inside the enclosing \<open>soc_t\<close>. The instance itself is passed to and returned from
  the operations that use it; the pointer decides whether they do.
\<close>

datatype soc_ref = NullRef | SocRef

section \<open>Byte copies\<close>

text \<open>
  \<open>blit dst off src\<close> is \<open>memcpy(&dst[off], src, n)\<close> for a source of \<open>n\<close> bytes. Within bounds
  it keeps the length of the destination; the safety lemmas of the components show that every
  copy of the code is within bounds.
\<close>

definition blit :: "'a list \<Rightarrow> nat \<Rightarrow> 'a list \<Rightarrow> 'a list" where
  "blit dst off src = take off dst @ src @ drop (off + length src) dst"

text \<open>\<open>memset(&dst[off], v, n)\<close>.\<close>

definition memset_at :: "'a list \<Rightarrow> nat \<Rightarrow> 'a \<Rightarrow> nat \<Rightarrow> 'a list" where
  "memset_at dst off v n = blit dst off (replicate n v)"

text \<open>The bytes \<open>&src[off] .. &src[off + n - 1]\<close>.\<close>

definition bytes_at :: "'a list \<Rightarrow> nat \<Rightarrow> nat \<Rightarrow> 'a list" where
  "bytes_at src off n = take n (drop off src)"

lemma length_blit [simp, blit_simps]:
  "off + length src \<le> length dst \<Longrightarrow> length (blit dst off src) = length dst"
  by (simp add: blit_def)

lemma length_memset_at [simp, blit_simps]:
  "off + n \<le> length dst \<Longrightarrow> length (memset_at dst off v n) = length dst"
  by (simp add: memset_at_def)

lemma length_bytes_at [simp, blit_simps]:
  "off + n \<le> length src \<Longrightarrow> length (bytes_at src off n) = n"
  by (simp add: bytes_at_def)

lemma nth_bytes_at [blit_simps]:
  "i < n \<Longrightarrow> off + n \<le> length src \<Longrightarrow> bytes_at src off n ! i = src ! (off + i)"
  by (simp add: bytes_at_def)

lemma nth_blit [blit_simps]:
  assumes "off + length src \<le> length dst" and "i < length dst"
  shows "blit dst off src ! i =
    (if off \<le> i \<and> i < off + length src then src ! (i - off) else dst ! i)"
  using assms by (auto simp: blit_def nth_append min_def)

lemma nth_memset_at [blit_simps]:
  assumes "off + n \<le> length dst" and "i < length dst"
  shows "memset_at dst off v n ! i = (if off \<le> i \<and> i < off + n then v else dst ! i)"
  using assms by (auto simp: memset_at_def nth_blit)

lemma bytes_at_blit_same [simp, blit_simps]:
  "off + length src \<le> length dst \<Longrightarrow> n = length src \<Longrightarrow> bytes_at (blit dst off src) off n = src"
  by (simp add: blit_def bytes_at_def)

lemma bytes_at_blit_disjoint [blit_simps]:
  assumes "off + length src \<le> length dst" and "a + n \<le> length dst"
    and "a + n \<le> off \<or> off + length src \<le> a"
  shows "bytes_at (blit dst off src) a n = bytes_at dst a n"
  using assms by (intro nth_equalityI) (auto simp: nth_bytes_at nth_blit)

lemma blit_Nil [simp, blit_simps]: "blit dst off [] = dst"
  by (simp add: blit_def)

lemma blit_whole [simp, blit_simps]: "length src = length dst \<Longrightarrow> blit dst 0 src = src"
  by (simp add: blit_def)

lemma take_blit_front [simp, blit_simps]: "n = length src \<Longrightarrow> take n (blit dst 0 src) = src"
  by (simp add: blit_def)

lemma take_blit_end [blit_simps]:
  "off + length src \<le> length dst \<Longrightarrow> n = off + length src \<Longrightarrow>
     take n (blit dst off src) = take off dst @ src"
  by (simp add: blit_def)

lemma blit_blit_append [blit_simps]:
  assumes "off + length xs \<le> length dst" and "off' = off + length xs"
  shows "blit (blit dst off xs) off' ys = blit dst off (xs @ ys)"
  using assms by (simp add: blit_def ac_simps)

lemma bytes_at_0 [simp]: "bytes_at xs 0 n = take n xs"
  by (simp add: bytes_at_def)

lemma bytes_at_full: "length xs = n \<Longrightarrow> bytes_at xs 0 n = xs"
  by simp

section \<open>Words\<close>

text \<open>The range checks add two 32-bit values in 64 bits, where the sum cannot wrap.\<close>

lemma unat_ucast_u64 [simp]: "unat (ucast (w :: u32) :: u64) = unat w"
  by transfer (simp add: take_bit_eq_mod)

lemma unat_u32_bound: "unat (w :: u32) < 4294967296"
  using unsigned_less [of w] by simp

lemma unat_u8_bound: "unat (w :: u8) < 256"
  using unsigned_less [of w] by simp

lemma unat_sum64 [simp]:
  "unat ((ucast (a :: u32) :: u64) + ucast (b :: u32)) = unat a + unat b"
proof -
  have "unat a + unat b < 2 ^ LENGTH(64)"
    using unat_u32_bound [of a] unat_u32_bound [of b] by simp
  then show ?thesis
    by (simp add: unat_word_ariths)
qed

lemma u64_limit: "((x :: u64) > 0x100000000) = (unat x > 4294967296)"
  by (simp add: word_less_nat_alt)

text \<open>The C tests \<open>w & (1U << k)\<close> against single bits.\<close>

lemma and_1_iff [simp]: "((w :: 'a::len word) AND 1 = 0) = (\<not> bit w 0)"
  by (simp add: bit_iff_and_push_bit_not_eq_0)

lemma and_2_iff [simp]: "((w :: 32 word) AND 2 = 0) = (\<not> bit w 1)"
  by (simp add: bit_iff_and_push_bit_not_eq_0 push_bit_eq_mult)

lemma and_4_iff [simp]: "((w :: 32 word) AND 4 = 0) = (\<not> bit w 2)"
  by (simp add: bit_iff_and_push_bit_not_eq_0 push_bit_eq_mult)

lemma unat_pred: "0 < unat (w :: 'a::len word) \<Longrightarrow> unat (w - 1) = unat w - 1"
  by (simp add: unat_minus_one unat_gt_0)

lemma unat_more_than_1: "1 < unat (w :: u32) \<Longrightarrow> w \<noteq> 0 \<and> w \<noteq> 1 \<and> 0 < w \<and> w - 1 \<noteq> 0"
  by (auto simp: word_gt_0)

lemma unat_1_iff: "(unat (w :: u32) = 1) = (w = 1)"
  by (simp add: word_unat_eq_iff)

lemma sint_u32_high: "2 ^ 31 \<le> unat (w :: u32) \<Longrightarrow> sint w = int (unat w) - 2 ^ 32"
proof -
  assume "2 ^ 31 \<le> unat w"
  then have "int (2 ^ 31) \<le> int (unat w)"
    by (simp only: of_nat_le_iff)
  then have "2 ^ 31 \<le> uint w"
    by simp
  moreover have u: "uint w < 2 ^ 32"
    using uint_lt2p [of w] by simp
  ultimately have "uint w div 2 ^ 31 = 1"
    by (intro int_div_pos_eq [where r = "uint w - 2 ^ 31"]) simp_all
  then have "bit (uint w) 31"
    by (simp add: bit_iff_odd)
  then show ?thesis
    using u by (simp add: sint_uint signed_take_bit_eq_take_bit_minus take_bit_int_eq_self)
qed

lemma sint_u32_large: "2 ^ 31 \<le> unat (w :: u32) \<Longrightarrow> sint w < 0"
  using sint_u32_high [of w] uint_lt2p [of w] by simp

lemma sint_u32_small: "unat (w :: u32) < 2 ^ 31 \<Longrightarrow> sint w = int (unat w)"
proof -
  assume "unat w < 2 ^ 31"
  then have "int (unat w) < int (2 ^ 31)"
    by (simp only: of_nat_less_iff)
  then have "uint w < 2 ^ 31"
    by simp
  then have "signed_take_bit 31 (uint w) = uint w"
    by (intro signed_take_bit_int_eq_self) (auto intro: order_trans [OF _ uint_ge_0])
  then show ?thesis
    by (simp add: sint_uint)
qed

lemma u32_255_mask: "(0xFF :: u32) = mask 8"
  by (simp add: mask_eq_exp_minus_1)

lemma unat_mod_u32: "unat (a mod b :: u32) = unat a mod unat b"
  by (rule unat_mod_distrib)

lemma word_mod_4_iff: "((a :: u32) mod 4 = 0) = (unat a mod 4 = 0)"
proof -
  have "(a mod 4 = 0) = (unat (a mod 4) = 0)"
    by (simp add: unat_eq_0)
  then show ?thesis
    by (simp add: unat_mod_distrib)
qed

text \<open>A quotient rounded up.\<close>

lemma ceil_div_bounds:
  fixes a b :: nat
  assumes "0 < a" and "0 < b"
  shows "0 < (a + b - 1) div b" and "(a + b - 1) div b \<le> a"
proof -
  show "0 < (a + b - 1) div b"
    using assms by (simp add: div_greater_zero_iff)
  have "a + b - 1 < (a + 1) * b"
    using assms mult_le_mono2 [of 1 b a] unfolding distrib_right mult_1 by linarith
  then show "(a + b - 1) div b \<le> a"
    using less_mult_imp_div_less [of "a + b - 1" "a + 1" b] by linarith
qed

section \<open>Devices that count down\<close>

text \<open>
  A device that is armed with a number of ticks to go. Away from its last tick a step takes one
  off the count, keeps it armed and changes nothing else that \<open>frame\<close> observes; what the last
  tick does is the device's own business.
\<close>

locale countdown =
  fixes step :: "'s \<Rightarrow> 's"
    and armed :: "'s \<Rightarrow> bool"
    and left :: "'s \<Rightarrow> nat"
    and frame :: "'s \<Rightarrow> 'f"
  assumes tick_armed: "armed s \<Longrightarrow> 1 < left s \<Longrightarrow> armed (step s)"
    and tick_left: "armed s \<Longrightarrow> 1 < left s \<Longrightarrow> left (step s) = left s - 1"
    and tick_frame: "armed s \<Longrightarrow> 1 < left s \<Longrightarrow> frame (step s) = frame s"
begin

lemma running:
  assumes "armed s" and "k < left s"
  shows "armed ((step ^^ k) s) \<and> left ((step ^^ k) s) = left s - k \<and> frame ((step ^^ k) s) = frame s"
  using assms(2)
proof (induction k)
  case 0
  with assms(1) show ?case by simp
next
  case (Suc k)
  let ?t = "(step ^^ k) s"
  have t: "armed ?t" "left ?t = left s - k" "frame ?t = frame s"
    using Suc by simp_all
  with Suc.prems have "1 < left ?t" by simp
  with t show ?case
    by (simp add: tick_armed tick_left tick_frame)
qed

lemma last_tick:
  assumes "armed s" and "0 < left s"
  obtains t where "armed t" and "left t = 1" and "frame t = frame s"
    and "(step ^^ left s) s = step t"
proof
  let ?t = "(step ^^ (left s - 1)) s"
  have "armed ?t \<and> left ?t = left s - (left s - 1) \<and> frame ?t = frame s"
    by (rule running) (use assms in simp_all)
  with assms(2) show "armed ?t" and "left ?t = 1" and "frame ?t = frame s"
    by simp_all
  show "(step ^^ left s) s = step ?t"
    using assms(2) by (cases "left s") simp_all
qed

end

section \<open>Register files\<close>

text \<open>
  What the bus relies on in a memory-mapped device: an access keeps the device's invariant, and
  an access that the device refuses leaves it as it was.
\<close>

datatype mmio_op = MmioRead u32 | MmioWrite u32 u32

primrec mmio_step ::
    "('s \<Rightarrow> u32 \<Rightarrow> (soc_err + u32) \<times> 's) \<Rightarrow> ('s \<Rightarrow> u32 \<Rightarrow> u32 \<Rightarrow> (soc_err + unit) \<times> 's) \<Rightarrow>
      mmio_op \<Rightarrow> 's \<Rightarrow> 's" where
  "mmio_step rd wr (MmioRead off) s = snd (rd s off)"
| "mmio_step rd wr (MmioWrite off v) s = snd (wr s off v)"

definition mmio_run ::
    "('s \<Rightarrow> u32 \<Rightarrow> (soc_err + u32) \<times> 's) \<Rightarrow> ('s \<Rightarrow> u32 \<Rightarrow> u32 \<Rightarrow> (soc_err + unit) \<times> 's) \<Rightarrow>
      mmio_op list \<Rightarrow> 's \<Rightarrow> 's" where
  "mmio_run rd wr ops s = fold (mmio_step rd wr) ops s"

locale mmio_device =
  fixes rd :: "'s \<Rightarrow> u32 \<Rightarrow> (soc_err + u32) \<times> 's"
    and wr :: "'s \<Rightarrow> u32 \<Rightarrow> u32 \<Rightarrow> (soc_err + unit) \<times> 's"
    and inv :: "'s \<Rightarrow> bool"
  assumes rd_inv: "inv s \<Longrightarrow> inv (snd (rd s off))"
    and wr_inv: "inv s \<Longrightarrow> inv (snd (wr s off v))"
    and rd_refused: "fst (rd s off) = Inl e \<Longrightarrow> snd (rd s off) = s \<and> e = SOC_ERR_BUS"
    and wr_refused: "fst (wr s off v) = Inl SOC_ERR_BUS \<Longrightarrow> snd (wr s off v) = s"
begin

lemma step_inv: "inv s \<Longrightarrow> inv (mmio_step rd wr op s)"
  by (cases op) (simp_all add: rd_inv wr_inv)

lemma run_inv: "inv s \<Longrightarrow> inv (mmio_run rd wr ops s)"
  unfolding mmio_run_def by (induction ops arbitrary: s) (simp_all add: step_inv)

end

end
