(* ===== verification/Memory.thy ===== *)
theory Memory
  imports Prelude
begin

text \<open>
  The byte-addressable backing store of \<open>soc_c/src/soc_memory.c\<close>. A \<open>soc_mem_t\<close> holds its
  bytes in \<open>m_data\<close> (\<open>None\<close> is a null \<open>data\<close> pointer); the static stores \<open>_rom_store\<close> and
  \<open>_sram_store\<close> and the pointers \<open>rom_backing\<close> and \<open>sram_backing\<close> of \<open>soc_t\<close> alias that list
  and are not kept a second time. The store may be larger than the memory (64 KiB behind the
  16 KiB ROM). The lemmas show that an access the offset check admits stays inside the
  memory, that words are little-endian and read back, and that everything else is untouched.
\<close>

record soc_mem_t =
  m_base :: u32
  m_size :: u32
  m_readonly :: bool
  m_name :: string
  m_data :: "u8 list option"

definition m_bytes :: "soc_mem_t \<Rightarrow> u8 list" where
  "m_bytes m = (case m_data m of None \<Rightarrow> [] | Some d \<Rightarrow> d)"

text \<open>\<open>memcpy(&m->data[off], src, n)\<close>.\<close>

definition m_store :: "soc_mem_t \<Rightarrow> nat \<Rightarrow> u8 list \<Rightarrow> soc_mem_t" where
  "m_store m off src = m\<lparr>m_data := map_option (\<lambda>d. blit d off src) (m_data m)\<rparr>"

definition soc_mem_init ::
    "soc_mem_t \<Rightarrow> u32 \<Rightarrow> u32 \<Rightarrow> bool \<Rightarrow> string \<Rightarrow> u8 list option \<Rightarrow> soc_mem_t" where
  "soc_mem_init m base sz readonly name backing =
     m\<lparr>m_base := base, m_size := sz, m_readonly := readonly, m_name := name,
       m_data := map_option (\<lambda>d. memset_at d 0 0 (unat sz)) backing\<rparr>"

definition soc_mem_contains :: "soc_mem_t \<Rightarrow> u32 \<Rightarrow> u32 \<Rightarrow> bool" where
  "soc_mem_contains m addr len =
     (let e = (ucast addr :: u64) + (ucast len :: u64) in
      if len = 0 then False
      else if e > 0x100000000 then False
      else m_base m \<le> addr \<and> e \<le> (ucast (m_base m) :: u64) + (ucast (m_size m) :: u64))"

definition soc_mem_offset :: "soc_mem_t \<Rightarrow> u32 \<Rightarrow> u32 \<Rightarrow> soc_err + u32" where
  "soc_mem_offset m addr len =
     (let e = (ucast addr :: u64) + (ucast len :: u64) in
      if len = 0 then Inl SOC_ERR_BUS
      else if e > 0x100000000 then Inl SOC_ERR_BUS
      else if \<not> (m_base m \<le> addr \<and> e \<le> (ucast (m_base m) :: u64) + (ucast (m_size m) :: u64))
        then Inl SOC_ERR_BUS
      else Inr (addr - m_base m))"

text \<open>Four bytes as the code composes and splits them.\<close>

definition word_of_bytes :: "u8 \<Rightarrow> u8 \<Rightarrow> u8 \<Rightarrow> u8 \<Rightarrow> u32" where
  "word_of_bytes b0 b1 b2 b3 =
     (ucast b0 OR push_bit 8 (ucast b1) OR push_bit 16 (ucast b2) OR push_bit 24 (ucast b3))"

definition bytes_of_word :: "u32 \<Rightarrow> u8 list" where
  "bytes_of_word w =
     [ucast (w AND 0xFF), ucast (drop_bit 8 w AND 0xFF), ucast (drop_bit 16 w AND 0xFF),
      ucast (drop_bit 24 w AND 0xFF)]"

definition soc_mem_read_word :: "soc_mem_t \<Rightarrow> u32 \<Rightarrow> soc_err + u32" where
  "soc_mem_read_word m addr =
     (if addr mod 4 \<noteq> 0 then Inl SOC_ERR_BUS
      else case soc_mem_offset m addr 4 of
          Inl e \<Rightarrow> Inl SOC_ERR_BUS
        | Inr off \<Rightarrow> (let d = m_bytes m; i = unat off in
            Inr (word_of_bytes (d ! i) (d ! (i + 1)) (d ! (i + 2)) (d ! (i + 3)))))"

definition soc_mem_write_word :: "soc_mem_t \<Rightarrow> u32 \<Rightarrow> u32 \<Rightarrow> (soc_err + unit) \<times> soc_mem_t" where
  "soc_mem_write_word m addr value =
     (if addr mod 4 \<noteq> 0 then (Inl SOC_ERR_BUS, m)
      else if m_readonly m then (Inl SOC_ERR_BUS, m)
      else case soc_mem_offset m addr 4 of
          Inl e \<Rightarrow> (Inl SOC_ERR_BUS, m)
        | Inr off \<Rightarrow> (Inr (), m_store m (unat off) (bytes_of_word value)))"

text \<open>The buffer \<open>out\<close> is passed in and returned with its first \<open>len\<close> bytes overwritten.\<close>

definition soc_mem_read_bytes :: "soc_mem_t \<Rightarrow> u32 \<Rightarrow> u32 \<Rightarrow> u8 list \<Rightarrow> (soc_err + unit) \<times> u8 list" where
  "soc_mem_read_bytes m addr len out =
     (case soc_mem_offset m addr len of
        Inl e \<Rightarrow> (Inl SOC_ERR_BUS, out)
      | Inr off \<Rightarrow> (Inr (), blit out 0 (bytes_at (m_bytes m) (unat off) (unat len))))"

definition soc_mem_write_bytes ::
    "soc_mem_t \<Rightarrow> u32 \<Rightarrow> u8 list \<Rightarrow> u32 \<Rightarrow> (soc_err + unit) \<times> soc_mem_t" where
  "soc_mem_write_bytes m addr payload len =
     (if m_readonly m then (Inl SOC_ERR_BUS, m)
      else case soc_mem_offset m addr len of
          Inl e \<Rightarrow> (Inl SOC_ERR_BUS, m)
        | Inr off \<Rightarrow> (Inr (), m_store m (unat off) (take (unat len) payload)))"

fun soc_mem_load_loop :: "soc_mem_t \<Rightarrow> u32 \<Rightarrow> u32 list \<Rightarrow> (soc_err + unit) \<times> soc_mem_t" where
  "soc_mem_load_loop m i [] = (Inr (), m)"
| "soc_mem_load_loop m i (w # ws) =
     (let off = i * 4 in
      if off + 4 > m_size m then (Inl SOC_ERR_BUS, m)
      else soc_mem_load_loop (m_store m (unat off) (bytes_of_word w)) (i + 1) ws)"

definition soc_mem_load_words :: "soc_mem_t \<Rightarrow> u32 list \<Rightarrow> (soc_err + unit) \<times> soc_mem_t" where
  "soc_mem_load_words m words = soc_mem_load_loop m 0 words"

definition soc_mem_zero :: "soc_mem_t \<Rightarrow> soc_mem_t" where
  "soc_mem_zero m = m\<lparr>m_data := map_option (\<lambda>d. memset_at d 0 0 (unat (m_size m))) (m_data m)\<rparr>"

section \<open>Well-formed memories\<close>

text \<open>
  The bytes are there, at least as many as the size says, and the memory ends within the
  32-bit address space: this is what \<open>soc_init\<close> establishes and no operation changes.
\<close>

definition mem_wf :: "soc_mem_t \<Rightarrow> bool" where
  "mem_wf m \<longleftrightarrow> m_data m \<noteq> None \<and> unat (m_size m) \<le> length (m_bytes m) \<and>
     unat (m_base m) + unat (m_size m) \<le> 4294967296"

lemma m_store_simps [simp]:
  "m_base (m_store m off src) = m_base m" "m_size (m_store m off src) = m_size m"
  "m_readonly (m_store m off src) = m_readonly m" "m_name (m_store m off src) = m_name m"
  by (simp_all add: m_store_def)

lemma m_bytes_store:
  "m_data m \<noteq> None \<Longrightarrow> m_bytes (m_store m off src) = blit (m_bytes m) off src"
  by (auto simp: m_store_def m_bytes_def split: option.splits)

lemma m_data_store [simp]: "(m_data (m_store m off src) = None) = (m_data m = None)"
  by (simp add: m_store_def)

lemma m_store_wf [wf_intros]:
  assumes "mem_wf m" and "off + length src \<le> unat (m_size m)"
  shows "mem_wf (m_store m off src)"
  using assms by (auto simp: mem_wf_def m_bytes_store)

lemma m_store_length:
  assumes "mem_wf m" and "off + length src \<le> unat (m_size m)"
  shows "length (m_bytes (m_store m off src)) = length (m_bytes m)"
  using assms by (simp add: mem_wf_def m_bytes_store)

lemma soc_mem_offset_iff:
  "soc_mem_offset m addr len = Inr off \<longleftrightarrow>
     0 < unat len \<and> unat addr + unat len \<le> 4294967296 \<and> unat (m_base m) \<le> unat addr \<and>
     unat addr + unat len \<le> unat (m_base m) + unat (m_size m) \<and> off = addr - m_base m"
  by (auto simp: soc_mem_offset_def Let_def u64_limit word_le_nat_alt unat_gt_0)

lemma soc_mem_offset_error: "soc_mem_offset m addr len = Inl e \<Longrightarrow> e = SOC_ERR_BUS"
  by (auto simp: soc_mem_offset_def Let_def split: if_splits)

lemma soc_mem_offset_eq:
  "soc_mem_offset m addr len =
     (if soc_mem_contains m addr len then Inr (addr - m_base m) else Inl SOC_ERR_BUS)"
  by (simp add: soc_mem_offset_def soc_mem_contains_def Let_def)

lemma soc_mem_contains_iff:
  "soc_mem_contains m addr len \<longleftrightarrow>
     0 < unat len \<and> unat addr + unat len \<le> 4294967296 \<and> unat (m_base m) \<le> unat addr \<and>
     unat addr + unat len \<le> unat (m_base m) + unat (m_size m)"
  by (auto simp: soc_mem_contains_def Let_def u64_limit word_le_nat_alt unat_gt_0)

lemma soc_mem_offset_bound:
  assumes "soc_mem_offset m addr len = Inr off"
  shows "unat off = unat addr - unat (m_base m)" and "unat off + unat len \<le> unat (m_size m)"
proof -
  from assms have h: "unat (m_base m) \<le> unat addr" "off = addr - m_base m"
      "unat addr + unat len \<le> unat (m_base m) + unat (m_size m)"
    by (auto simp: soc_mem_offset_iff)
  then show "unat off = unat addr - unat (m_base m)"
    by (simp add: unat_sub word_le_nat_alt)
  with h show "unat off + unat len \<le> unat (m_size m)"
    by simp
qed

section \<open>Words and bytes\<close>

lemma length_bytes_of_word [simp]: "length (bytes_of_word w) = 4"
  by (simp add: bytes_of_word_def)

lemma word_of_bytes_of_word:
  "word_of_bytes (ucast (w AND 0xFF)) (ucast (drop_bit 8 w AND 0xFF))
     (ucast (drop_bit 16 w AND 0xFF)) (ucast (drop_bit 24 w AND 0xFF)) = w"
proof -
  have m: "(0xFF :: u32) = mask 8"
    by (simp add: mask_eq_exp_minus_1)
  show ?thesis
    unfolding word_of_bytes_def m
  proof (rule bit_word_eqI, goal_cases)
    case (1 n)
    then consider "n < 8" | "8 \<le> n" "n < 16" | "16 \<le> n" "n < 24" | "24 \<le> n" "n < 32"
      by (simp, linarith)
    then show ?case
      by cases (auto simp: bit_simps)
  qed
qed

lemma read_word_bytes:
  assumes "mem_wf m" and "soc_mem_contains m addr 4" and "addr mod 4 = 0"
    and "bytes_at (m_bytes m) (unat (addr - m_base m)) 4 = bytes_of_word w"
  shows "soc_mem_read_word m addr = Inr w"
proof -
  let ?i = "unat (addr - m_base m)" and ?d = "m_bytes m"
  have off: "soc_mem_offset m addr 4 = Inr (addr - m_base m)"
    using assms(2) by (simp add: soc_mem_offset_eq)
  have len: "?i + 4 \<le> length ?d"
    using soc_mem_offset_bound(2) [OF off] assms(1) by (simp add: mem_wf_def)
  have nth: "?d ! (?i + k) = bytes_of_word w ! k" if "k < 4" for k
    using nth_bytes_at [OF that len] assms(4) by simp
  show ?thesis
    using off assms(3) nth [of 0] nth [of 1] nth [of 2] nth [of 3]
    by (simp add: soc_mem_read_word_def Let_def bytes_of_word_def word_of_bytes_of_word)
qed

lemma soc_mem_write_word_ok:
  assumes "soc_mem_contains m addr 4" and "addr mod 4 = 0" and "\<not> m_readonly m"
  shows "soc_mem_write_word m addr v = (Inr (), m_store m (unat (addr - m_base m)) (bytes_of_word v))"
  using assms by (simp add: soc_mem_write_word_def soc_mem_offset_eq)

lemma soc_mem_write_word_refused:
  "fst (soc_mem_write_word m addr v) = Inl e \<Longrightarrow>
     e = SOC_ERR_BUS \<and> snd (soc_mem_write_word m addr v) = m"
  by (auto simp: soc_mem_write_word_def split: if_splits sum.splits)

lemma soc_mem_contains_store [simp]:
  "soc_mem_contains (m_store m off src) addr len = soc_mem_contains m addr len"
  by (simp add: soc_mem_contains_def)

lemma contains_off:
  assumes "soc_mem_contains m addr len"
  shows "unat (addr - m_base m) = unat addr - unat (m_base m)"
    and "unat (addr - m_base m) + unat len \<le> unat (m_size m)"
    and "unat (m_base m) \<le> unat addr"
  using soc_mem_offset_bound [of m addr len "addr - m_base m"] assms
  by (simp_all add: soc_mem_offset_eq soc_mem_contains_iff)

lemma soc_mem_write_word_wf [wf_intros]:
  assumes "mem_wf m"
  shows "mem_wf (snd (soc_mem_write_word m addr v))"
proof (cases "fst (soc_mem_write_word m addr v)")
  case (Inl e)
  with assms show ?thesis by (simp add: soc_mem_write_word_refused)
next
  case (Inr u)
  then have c: "soc_mem_contains m addr 4" "addr mod 4 = 0" "\<not> m_readonly m"
    by (auto simp: soc_mem_write_word_def soc_mem_offset_eq split: if_splits)
  with contains_off(2) [OF c(1)] assms show ?thesis
    by (simp add: soc_mem_write_word_ok m_store_wf)
qed

lemma aligned_4_apart:
  "(a :: nat) mod 4 = 0 \<Longrightarrow> b mod 4 = 0 \<Longrightarrow> a \<noteq> b \<Longrightarrow> a + 4 \<le> b \<or> b + 4 \<le> a"
  by presburger

text \<open>
  C39. A word written to a writable memory reads back unchanged at its address, every other
  aligned word of the memory keeps its value, and the memory stays well formed. Together with
  the refusals this is the whole contract of word access.
\<close>

theorem mem_word_roundtrip:
  assumes "mem_wf m" and "\<not> m_readonly m"
    and "soc_mem_contains m addr 4" and "addr mod 4 = 0"
    and "soc_mem_write_word m addr v = (rc, m')"
  shows "rc = Inr () \<and> mem_wf m' \<and> soc_mem_read_word m' addr = Inr v \<and>
     (\<forall>b. b mod 4 = 0 \<longrightarrow> b \<noteq> addr \<longrightarrow> soc_mem_read_word m' b = soc_mem_read_word m b)"
proof -
  let ?i = "unat (addr - m_base m)"
  have eq: "rc = Inr ()" "m' = m_store m ?i (bytes_of_word v)"
    using assms(5) soc_mem_write_word_ok [OF assms(3,4,2), of v] by simp_all
  have i: "?i = unat addr - unat (m_base m)" "?i + 4 \<le> unat (m_size m)" "unat (m_base m) \<le> unat addr"
    using contains_off [OF assms(3)] by simp_all
  have d: "m_bytes m' = blit (m_bytes m) ?i (bytes_of_word v)" and len: "?i + 4 \<le> length (m_bytes m)"
    using assms(1) i by (auto simp: eq m_bytes_store mem_wf_def)
  have wf: "mem_wf m'"
    using assms(1) i by (simp add: eq m_store_wf)
  have "soc_mem_read_word m' addr = Inr v"
    by (rule read_word_bytes) (use wf assms(3,4) d len in \<open>simp_all add: eq\<close>)
  moreover have "soc_mem_read_word m' b = soc_mem_read_word m b"
    if "b mod 4 = 0" and "b \<noteq> addr" for b
  proof (cases "soc_mem_contains m b 4")
    case True
    let ?j = "unat (b - m_base m)"
    have j: "?j = unat b - unat (m_base m)" "?j + 4 \<le> unat (m_size m)" "unat (m_base m) \<le> unat b"
      using contains_off [OF True] by simp_all
    have "unat b mod 4 = 0" "unat addr mod 4 = 0" "unat b \<noteq> unat addr"
      using that assms(4) by (simp_all add: word_mod_4_iff [symmetric]) (simp add: word_unat_eq_iff)
    then have "unat b + 4 \<le> unat addr \<or> unat addr + 4 \<le> unat b"
      by (rule aligned_4_apart)
    then have "?j + 4 \<le> ?i \<or> ?i + 4 \<le> ?j"
      using i j by linarith
    then have "m_bytes m' ! (?j + k) = m_bytes m ! (?j + k)" if "k < 4" for k
      using that len j assms(1) by (auto simp: d nth_blit mem_wf_def)
    from this [of 0] this [of 1] this [of 2] this [of 3] show ?thesis
      using True by (simp add: soc_mem_read_word_def soc_mem_offset_eq eq Let_def)
  next
    case False
    then show ?thesis
      by (simp add: soc_mem_read_word_def soc_mem_offset_eq eq)
  qed
  ultimately show ?thesis
    using eq wf by blast
qed

theorem mem_word_roundtrip_witness:
  "soc_mem_read_word
     (snd (soc_mem_write_word
       \<lparr>m_base = 0x10000000, m_size = 8, m_readonly = False, m_name = ''SRAM'',
        m_data = Some [0, 0, 0, 0, 0, 0, 0, 0]\<rparr> 0x10000004 0xDEADBEEF)) 0x10000004 = Inr 0xDEADBEEF"
proof -
  let ?m = "\<lparr>m_base = 0x10000000, m_size = 8, m_readonly = False, m_name = ''SRAM'',
    m_data = Some [0, 0, 0, 0, 0, 0, 0, 0]\<rparr> :: soc_mem_t"
  have "mem_wf ?m" "\<not> m_readonly ?m" "soc_mem_contains ?m 0x10000004 4" "(0x10000004 :: u32) mod 4 = 0"
    by (simp_all add: mem_wf_def m_bytes_def soc_mem_contains_def)
  from mem_word_roundtrip [OF this, of "0xDEADBEEF"] show ?thesis
    by (simp add: prod_eq_iff)
qed

section \<open>Block transfers\<close>

lemma soc_mem_read_bytes_ok:
  assumes "soc_mem_contains m addr len"
  shows "soc_mem_read_bytes m addr len out =
     (Inr (), blit out 0 (bytes_at (m_bytes m) (unat (addr - m_base m)) (unat len)))"
  using assms by (simp add: soc_mem_read_bytes_def soc_mem_offset_eq)

lemma soc_mem_read_bytes_exact:
  assumes "mem_wf m" and "soc_mem_contains m addr len" and "length out = unat len"
  shows "soc_mem_read_bytes m addr len out =
     (Inr (), bytes_at (m_bytes m) (unat (addr - m_base m)) (unat len))"
  using assms contains_off(2) [OF assms(2)]
  by (simp add: soc_mem_read_bytes_ok mem_wf_def)

lemma soc_mem_read_bytes_refused:
  "\<not> soc_mem_contains m addr len \<Longrightarrow> soc_mem_read_bytes m addr len out = (Inl SOC_ERR_BUS, out)"
  by (simp add: soc_mem_read_bytes_def soc_mem_offset_eq)

lemma soc_mem_write_bytes_ok:
  assumes "soc_mem_contains m addr len" and "\<not> m_readonly m"
  shows "soc_mem_write_bytes m addr payload len =
     (Inr (), m_store m (unat (addr - m_base m)) (take (unat len) payload))"
  using assms by (simp add: soc_mem_write_bytes_def soc_mem_offset_eq)

lemma soc_mem_write_bytes_refused:
  "m_readonly m \<or> \<not> soc_mem_contains m addr len \<Longrightarrow>
     soc_mem_write_bytes m addr payload len = (Inl SOC_ERR_BUS, m)"
  by (auto simp: soc_mem_write_bytes_def soc_mem_offset_eq)

lemma soc_mem_write_bytes_wf [wf_intros]:
  assumes "mem_wf m"
  shows "mem_wf (snd (soc_mem_write_bytes m addr payload len))"
proof (cases "m_readonly m \<or> \<not> soc_mem_contains m addr len")
  case True
  with assms show ?thesis by (simp add: soc_mem_write_bytes_refused)
next
  case False
  then have "unat (addr - m_base m) + length (take (unat len) payload) \<le> unat (m_size m)"
    using contains_off(2) [of m addr len] by auto
  with False assms show ?thesis
    by (simp add: soc_mem_write_bytes_ok m_store_wf)
qed

lemma soc_mem_write_bytes_frame [simp]:
  "m_base (snd (soc_mem_write_bytes m a p l)) = m_base m"
  "m_size (snd (soc_mem_write_bytes m a p l)) = m_size m"
  "m_readonly (snd (soc_mem_write_bytes m a p l)) = m_readonly m"
  by (auto simp: soc_mem_write_bytes_def split: sum.splits)

lemma soc_mem_write_word_frame [simp]:
  "m_base (snd (soc_mem_write_word m a v)) = m_base m"
  "m_size (snd (soc_mem_write_word m a v)) = m_size m"
  "m_readonly (snd (soc_mem_write_word m a v)) = m_readonly m"
  by (auto simp: soc_mem_write_word_def split: sum.splits)

lemma length_m_bytes_write [simp]:
  assumes "mem_wf m"
  shows "length (m_bytes (snd (soc_mem_write_bytes m a p l))) = length (m_bytes m)"
proof (cases "m_readonly m \<or> \<not> soc_mem_contains m a l")
  case True
  then show ?thesis by (simp add: soc_mem_write_bytes_refused)
next
  case False
  with assms contains_off(2) [of m a l] show ?thesis
    by (auto simp: soc_mem_write_bytes_ok mem_wf_def m_bytes_store)
qed

lemma length_m_bytes_write_word [simp]:
  assumes "mem_wf m"
  shows "length (m_bytes (snd (soc_mem_write_word m a v))) = length (m_bytes m)"
proof (cases "soc_mem_contains m a 4")
  case True
  then show ?thesis
    using assms contains_off(2) [OF True] by (simp add: soc_mem_write_word_def soc_mem_offset_eq m_store_length)
qed (simp add: soc_mem_write_word_def soc_mem_offset_eq)

text \<open>An access of \<open>n\<close> bytes at address \<open>a\<close> lies inside the array behind the memory.\<close>

definition in_store :: "soc_mem_t \<Rightarrow> u32 \<Rightarrow> nat \<Rightarrow> bool" where
  "in_store m a n \<longleftrightarrow> m_base m \<le> a \<and> unat a - unat (m_base m) + n \<le> length (m_bytes m)"

lemma offset_in_store:
  "mem_wf m \<Longrightarrow> soc_mem_offset m a n = Inr off \<Longrightarrow>
     in_store m a (unat n) \<and> unat off = unat a - unat (m_base m)"
  using soc_mem_offset_bound [of m a n off]
  by (auto simp: in_store_def mem_wf_def soc_mem_offset_iff word_le_nat_alt)

lemma accesses_in_store:
  assumes "mem_wf m"
  shows "soc_mem_read_word m a = Inr w \<Longrightarrow> in_store m a 4 \<and>
      (let d = m_bytes m; i = unat a - unat (m_base m)
       in w = word_of_bytes (d ! i) (d ! (i + 1)) (d ! (i + 2)) (d ! (i + 3)))"
    and "fst (soc_mem_write_word m a v) = Inr () \<Longrightarrow> in_store m a 4"
    and "fst (soc_mem_read_bytes m a n out) = Inr () \<Longrightarrow> in_store m a (unat n)"
    and "fst (soc_mem_write_bytes m a xs n) = Inr () \<Longrightarrow> in_store m a (unat n)"
  using offset_in_store [OF assms, of a 4] offset_in_store [OF assms, of a n]
  by (auto simp: soc_mem_read_word_def soc_mem_write_word_def soc_mem_read_bytes_def soc_mem_write_bytes_def Let_def
      split: if_splits sum.splits)

section \<open>Initialisation, zeroing and image loading\<close>

lemma soc_mem_init_simps [simp]:
  "m_base (soc_mem_init m b sz ro nm st) = b" "m_size (soc_mem_init m b sz ro nm st) = sz"
  "m_readonly (soc_mem_init m b sz ro nm st) = ro" "m_name (soc_mem_init m b sz ro nm st) = nm"
  by (simp_all add: soc_mem_init_def)

lemma m_bytes_init:
  "m_bytes (soc_mem_init m b sz ro nm (Some st)) = memset_at st 0 0 (unat sz)"
  by (simp add: soc_mem_init_def m_bytes_def)

lemma soc_mem_init_wf [wf_intros]:
  "unat sz \<le> length st \<Longrightarrow> unat b + unat sz \<le> 4294967296 \<Longrightarrow>
     mem_wf (soc_mem_init m b sz ro nm (Some st))"
  by (simp add: mem_wf_def m_bytes_init) (simp add: soc_mem_init_def)

lemma soc_mem_zero_simps [simp]:
  "m_base (soc_mem_zero m) = m_base m" "m_size (soc_mem_zero m) = m_size m"
  "m_readonly (soc_mem_zero m) = m_readonly m" "m_name (soc_mem_zero m) = m_name m"
  by (simp_all add: soc_mem_zero_def)

lemma m_bytes_zero:
  "m_data m \<noteq> None \<Longrightarrow> m_bytes (soc_mem_zero m) = memset_at (m_bytes m) 0 0 (unat (m_size m))"
  by (auto simp: soc_mem_zero_def m_bytes_def)

lemma soc_mem_zero_wf [wf_intros]: "mem_wf m \<Longrightarrow> mem_wf (soc_mem_zero m)"
  by (auto simp: mem_wf_def m_bytes_zero) (simp add: soc_mem_zero_def)

lemma word_of_bytes_0 [simp]: "word_of_bytes 0 0 0 0 = 0"
  by (simp add: word_of_bytes_def)

lemma read_word_zeroed:
  assumes "mem_wf m" and "soc_mem_contains m addr 4" and "addr mod 4 = 0"
  shows "soc_mem_read_word (soc_mem_zero m) addr = Inr 0"
proof -
  have c: "soc_mem_contains (soc_mem_zero m) addr 4"
    using assms(2) by (simp add: soc_mem_contains_iff)
  let ?i = "unat (addr - m_base m)"
  have "?i + 4 \<le> unat (m_size m)"
    using contains_off(2) [OF assms(2)] by simp
  then have "m_bytes (soc_mem_zero m) ! (?i + k) = 0" if "k < 4" for k
    using that assms(1) by (auto simp: mem_wf_def m_bytes_zero nth_memset_at)
  from this [of 0] this [of 1] this [of 2] this [of 3] show ?thesis
    using c assms(3) by (simp add: soc_mem_read_word_def soc_mem_offset_eq Let_def)
qed

text \<open>The image loader stores word \<open>k\<close> at byte \<open>4 * k\<close> and stops at the end of the memory.\<close>

lemma load_loop_bytes:
  assumes "mem_wf m" and "4 * (unat i + length ws) \<le> unat (m_size m)"
  shows "soc_mem_load_loop m i ws =
     (Inr (), m_store m (4 * unat i) (concat (map bytes_of_word ws)))"
  using assms
proof (induction ws arbitrary: m i)
  case Nil
  then show ?case
    by (auto simp: m_store_def mem_wf_def)
next
  case (Cons w ws)
  have le: "4 * unat i + 4 < 4294967296"
    using Cons.prems(2) unat_u32_bound [of "m_size m"] by auto
  then have i4: "unat (i * 4) = 4 * unat i"
    by (simp add: unat_word_ariths)
  from le have off4: "unat (i * 4 + 4) = 4 * unat i + 4"
    by (simp add: unat_word_ariths i4)
  then have guard: "\<not> i * 4 + 4 > m_size m"
    using Cons.prems(2) by (simp add: word_less_nat_alt)
  have i1: "unat (i + 1) = unat i + 1"
    using le by (simp add: unat_word_ariths)
  let ?m = "m_store m (4 * unat i) (bytes_of_word w)"
  have "mem_wf ?m"
    using Cons.prems by (simp add: m_store_wf)
  then have "soc_mem_load_loop ?m (i + 1) ws =
      (Inr (), m_store ?m (4 * unat (i + 1)) (concat (map bytes_of_word ws)))"
    using Cons.prems(2) i1 by (intro Cons.IH) simp_all
  moreover have "m_store ?m (4 * unat (i + 1)) (concat (map bytes_of_word ws)) =
      m_store m (4 * unat i) (concat (map bytes_of_word (w # ws)))"
    using Cons.prems by (auto simp: m_store_def i1 mem_wf_def m_bytes_def blit_blit_append)
  ultimately show ?case
    using guard i4 by (simp add: Let_def)
qed

lemma length_concat_words [simp]: "length (concat (map bytes_of_word ws)) = 4 * length ws"
  by (induction ws) simp_all

lemma bytes_at_concat_words:
  "k < length ws \<Longrightarrow> bytes_at (concat (map bytes_of_word ws)) (4 * k) 4 = bytes_of_word (ws ! k)"
proof (induction ws arbitrary: k)
  case (Cons w ws)
  then show ?case
    by (cases k) (auto simp: bytes_at_def)
qed simp

lemma bytes_at_blit_inside:
  assumes "off + length src \<le> length dst" and "a + n \<le> length src"
  shows "bytes_at (blit dst off src) (off + a) n = bytes_at src a n"
  using assms by (intro nth_equalityI) (auto simp: nth_bytes_at nth_blit)

lemma load_loop_overflow:
  assumes "mem_wf m" and "unat (m_size m) < 4 * (unat i + length ws)" and "4 * unat i \<le> unat (m_size m)"
    and "unat (m_size m) + 4 < 4294967296"
  shows "fst (soc_mem_load_loop m i ws) = Inl SOC_ERR_BUS"
  using assms
proof (induction ws arbitrary: m i)
  case Nil
  then show ?case by simp
next
  case (Cons w ws)
  have i4: "unat (i * 4 + 4) = 4 * unat i + 4" "unat (i * 4) = 4 * unat i"
    and i1: "unat (i + 1) = unat i + 1"
    using Cons.prems(3,4) by (simp_all add: unat_word_ariths)
  show ?case
  proof (cases "i * 4 + 4 > m_size m")
    case True
    then show ?thesis by simp
  next
    case False
    then have le: "4 * unat i + 4 \<le> unat (m_size m)"
      by (simp add: word_less_nat_alt i4)
    let ?m = "m_store m (4 * unat i) (bytes_of_word w)"
    have "fst (soc_mem_load_loop ?m (i + 1) ws) = Inl SOC_ERR_BUS"
      by (rule Cons.IH) (use Cons.prems le i1 in \<open>simp_all add: m_store_wf\<close>)
    with False show ?thesis by (simp add: Let_def i4)
  qed
qed

lemma load_loop_keeps:
  assumes "mem_wf m" and "4 * unat i \<le> unat (m_size m)" and "unat (m_size m) + 4 < 4294967296"
  shows "mem_wf (snd (soc_mem_load_loop m i ws)) \<and> m_base (snd (soc_mem_load_loop m i ws)) = m_base m \<and>
    m_size (snd (soc_mem_load_loop m i ws)) = m_size m \<and>
    m_readonly (snd (soc_mem_load_loop m i ws)) = m_readonly m \<and>
    length (m_bytes (snd (soc_mem_load_loop m i ws))) = length (m_bytes m)"
  using assms
proof (induction ws arbitrary: m i)
  case Nil
  then show ?case by simp
next
  case (Cons w ws)
  have le: "4 * unat i + 4 < 4294967296"
    using Cons.prems(2,3) by simp
  have off: "unat (i * 4 + 4) = 4 * unat i + 4" "unat (i * 4) = 4 * unat i" "unat (i + 1) = unat i + 1"
    using le by (simp_all add: unat_word_ariths)
  show ?case
  proof (cases "i * 4 + 4 > m_size m")
    case True
    with Cons.prems show ?thesis by simp
  next
    case False
    then have fits: "4 * unat i + 4 \<le> unat (m_size m)"
      by (simp add: word_less_nat_alt off not_less)
    have "mem_wf (m_store m (4 * unat i) (bytes_of_word w))"
      using Cons.prems(1) fits by (simp add: m_store_wf)
    moreover have "length (m_bytes (m_store m (4 * unat i) (bytes_of_word w))) = length (m_bytes m)"
      using Cons.prems(1) fits by (simp add: m_store_length)
    ultimately show ?thesis
      using Cons.IH [of "m_store m (4 * unat i) (bytes_of_word w)" "i + 1"] Cons.prems fits False
      by (simp add: off Let_def)
  qed
qed

lemma load_words_keeps:
  assumes "mem_wf m" and "unat (m_size m) + 4 < 4294967296"
  shows "mem_wf (snd (soc_mem_load_words m ws)) \<and> m_base (snd (soc_mem_load_words m ws)) = m_base m \<and>
    m_size (snd (soc_mem_load_words m ws)) = m_size m \<and>
    m_readonly (snd (soc_mem_load_words m ws)) = m_readonly m \<and>
    length (m_bytes (snd (soc_mem_load_words m ws))) = length (m_bytes m)"
  using load_loop_keeps [OF assms(1) _ assms(2), of 0] by (simp add: soc_mem_load_words_def)

lemma load_words_image:
  assumes "mem_wf m" and "m_base m mod 4 = 0" and "unat (m_size m) + 4 < 4294967296"
  shows "if 4 * length ws \<le> unat (m_size m)
    then \<exists>m'. soc_mem_load_words m ws = (Inr (), m') \<and> mem_wf m' \<and>
        (\<forall>k < length ws. soc_mem_read_word m' (m_base m + of_nat (4 * k)) = Inr (ws ! k)) \<and>
        (\<forall>i. 4 * length ws \<le> i \<and> i < length (m_bytes m) \<longrightarrow> m_bytes m' ! i = m_bytes m ! i)
    else fst (soc_mem_load_words m ws) = Inl SOC_ERR_BUS"
proof (cases "4 * length ws \<le> unat (m_size m)")
  case False
  then show ?thesis
    using assms load_loop_overflow [of m 0 ws] by (simp add: soc_mem_load_words_def)
next
  case True
  let ?src = "concat (map bytes_of_word ws)"
  let ?m = "m_store m 0 ?src"
  have run: "soc_mem_load_words m ws = (Inr (), ?m)"
    using load_loop_bytes [of m 0 ws] assms(1) True by (simp add: soc_mem_load_words_def)
  have wf: "mem_wf ?m" and bytes: "m_bytes ?m = blit (m_bytes m) 0 ?src"
    and fits: "4 * length ws \<le> length (m_bytes m)"
    using assms(1) True by (auto simp: m_store_wf m_bytes_store mem_wf_def)
  have "soc_mem_read_word ?m (m_base m + of_nat (4 * k)) = Inr (ws ! k)" if k: "k < length ws" for k
  proof (rule read_word_bytes [OF wf])
    let ?a = "m_base m + of_nat (4 * k)"
    have o: "unat (of_nat (4 * k) :: u32) = 4 * k"
      using k True unat_u32_bound [of "m_size m"] by (simp add: unat_of_nat del: of_nat_mult)
    moreover have "unat (m_base m) + 4 * k < 4294967296"
      using k True assms(1) by (simp add: mem_wf_def)
    ultimately have a: "unat ?a = unat (m_base m) + 4 * k"
      by (simp add: unat_word_ariths del: of_nat_mult)
    then show "soc_mem_contains ?m ?a 4"
      using k True assms(1) by (simp add: soc_mem_contains_iff mem_wf_def)
    show "?a mod 4 = 0"
      using assms(2) by (simp only: word_mod_4_iff a) presburger
    have "unat (?a - m_base ?m) = 4 * k"
      using o by (simp del: of_nat_mult)
    then show "bytes_at (m_bytes ?m) (unat (?a - m_base ?m)) 4 = bytes_of_word (ws ! k)"
      using bytes_at_blit_inside [of 0 ?src "m_bytes m" "4 * k" 4] k fits
      by (simp add: bytes bytes_at_concat_words)
  qed
  moreover have "m_bytes ?m ! i = m_bytes m ! i"
    if "4 * length ws \<le> i \<and> i < length (m_bytes m)" for i
    using that fits by (simp add: bytes nth_blit)
  ultimately show ?thesis
    using True run wf by auto
qed

text \<open>
  Loading an image: if the words fit, every word of the image reads back at its place in the
  memory and the bytes after the image are kept; if they do not fit, the loader reports a bus
  error. (The read-only flag does not apply to the loader.)
\<close>

theorem mem_load_words:
  assumes "mem_wf m" and "m_base m mod 4 = 0" and "unat (m_size m) + 4 < 4294967296"
  shows "if 4 * length ws \<le> unat (m_size m)
    then \<exists>m'. soc_mem_load_words m ws = (Inr (), m') \<and> mem_wf m' \<and>
        (\<forall>k < length ws. soc_mem_read_word m' (m_base m + of_nat (4 * k)) = Inr (ws ! k)) \<and>
        (\<forall>i. 4 * length ws \<le> i \<and> i < length (m_bytes m) \<longrightarrow> m_bytes m' ! i = m_bytes m ! i)
    else fst (soc_mem_load_words m ws) = Inl SOC_ERR_BUS"
  by (rule load_words_image [OF assms])

theorem mem_load_words_witness:
  "soc_mem_read_word
     (snd (soc_mem_load_words
       \<lparr>m_base = 0, m_size = 8, m_readonly = True, m_name = ''ROM'', m_data = Some [0, 0, 0, 0, 0, 0, 0, 0]\<rparr>
       [0xDEADBEEF, 7])) 4 = Inr 7"
proof -
  let ?m = "\<lparr>m_base = 0, m_size = 8, m_readonly = True, m_name = ''ROM'', m_data = Some [0, 0, 0, 0, 0, 0, 0, 0]\<rparr>
    :: soc_mem_t"
  have "mem_wf ?m" and "m_base ?m mod 4 = 0" and "unat (m_size ?m) + 4 < 4294967296"
    by (simp_all add: mem_wf_def m_bytes_def)
  from mem_load_words [OF this, of "[0xDEADBEEF, 7]"] show ?thesis
    by (auto dest: spec [of _ 1])
qed

end
