(* ===== verification/Perf.thy ===== *)
theory Perf
  imports Prelude
begin

text \<open>
  The performance counters of \<open>soc_c/src/soc_perf.c\<close>: five 32-bit counters that wrap, gated by
  an enable flag, and a register file over them. The register file is an \<open>mmio_device\<close>; the
  lemmas say that a disabled counter block never moves and what a control write does.
\<close>

record soc_perf_t =
  pf_cycles :: u32
  pf_mem_acc :: u32
  pf_dma_bytes :: u32
  pf_irq_count :: u32
  pf_stalls :: u32
  pf_enabled :: bool
  pf_ctrl :: u32

definition SOC_PERF_CYCLES_OFF :: u32 where [simp]: "SOC_PERF_CYCLES_OFF = 0x00"
definition SOC_PERF_MEM_ACC_OFF :: u32 where [simp]: "SOC_PERF_MEM_ACC_OFF = 0x04"
definition SOC_PERF_DMA_BYTES_OFF :: u32 where [simp]: "SOC_PERF_DMA_BYTES_OFF = 0x08"
definition SOC_PERF_IRQ_COUNT_OFF :: u32 where [simp]: "SOC_PERF_IRQ_COUNT_OFF = 0x0C"
definition SOC_PERF_STALLS_OFF :: u32 where [simp]: "SOC_PERF_STALLS_OFF = 0x10"
definition SOC_PERF_CTRL_OFF :: u32 where [simp]: "SOC_PERF_CTRL_OFF = 0x14"
definition SOC_PERF_CTRL_ENABLE :: u32 where [simp]: "SOC_PERF_CTRL_ENABLE = 1"
definition SOC_PERF_CTRL_RESET :: u32 where [simp]: "SOC_PERF_CTRL_RESET = 2"

definition soc_perf_init :: "soc_perf_t \<Rightarrow> soc_perf_t" where
  "soc_perf_init p = p\<lparr>pf_cycles := 0, pf_mem_acc := 0, pf_dma_bytes := 0, pf_irq_count := 0,
     pf_stalls := 0, pf_enabled := False, pf_ctrl := 0\<rparr>"

definition soc_perf_reset_counters :: "soc_perf_t \<Rightarrow> soc_perf_t" where
  "soc_perf_reset_counters p = p\<lparr>pf_cycles := 0, pf_mem_acc := 0, pf_dma_bytes := 0,
     pf_irq_count := 0, pf_stalls := 0\<rparr>"

definition soc_perf_tick :: "soc_perf_t \<Rightarrow> soc_perf_t" where
  "soc_perf_tick p = (if pf_enabled p then p\<lparr>pf_cycles := pf_cycles p + 1\<rparr> else p)"

definition soc_perf_count_mem :: "soc_perf_t \<Rightarrow> soc_perf_t" where
  "soc_perf_count_mem p = (if pf_enabled p then p\<lparr>pf_mem_acc := pf_mem_acc p + 1\<rparr> else p)"

definition soc_perf_count_stall :: "soc_perf_t \<Rightarrow> u32 \<Rightarrow> soc_perf_t" where
  "soc_perf_count_stall p n = (if pf_enabled p then p\<lparr>pf_stalls := pf_stalls p + n\<rparr> else p)"

definition soc_perf_count_dma :: "soc_perf_t \<Rightarrow> u32 \<Rightarrow> soc_perf_t" where
  "soc_perf_count_dma p nbytes =
     (if pf_enabled p then p\<lparr>pf_dma_bytes := pf_dma_bytes p + nbytes\<rparr> else p)"

definition soc_perf_count_irq :: "soc_perf_t \<Rightarrow> soc_perf_t" where
  "soc_perf_count_irq p = (if pf_enabled p then p\<lparr>pf_irq_count := pf_irq_count p + 1\<rparr> else p)"

definition soc_perf_read :: "soc_perf_t \<Rightarrow> u32 \<Rightarrow> (soc_err + u32) \<times> soc_perf_t" where
  "soc_perf_read p offset =
     (if offset = SOC_PERF_CYCLES_OFF then (Inr (pf_cycles p), p)
      else if offset = SOC_PERF_MEM_ACC_OFF then (Inr (pf_mem_acc p), p)
      else if offset = SOC_PERF_DMA_BYTES_OFF then (Inr (pf_dma_bytes p), p)
      else if offset = SOC_PERF_IRQ_COUNT_OFF then (Inr (pf_irq_count p), p)
      else if offset = SOC_PERF_STALLS_OFF then (Inr (pf_stalls p), p)
      else if offset = SOC_PERF_CTRL_OFF then (Inr (pf_ctrl p), p)
      else (Inl SOC_ERR_BUS, p))"

definition soc_perf_write :: "soc_perf_t \<Rightarrow> u32 \<Rightarrow> u32 \<Rightarrow> (soc_err + unit) \<times> soc_perf_t" where
  "soc_perf_write p offset value =
     (if offset = SOC_PERF_CYCLES_OFF then (Inr (), p\<lparr>pf_cycles := value\<rparr>)
      else if offset = SOC_PERF_MEM_ACC_OFF then (Inr (), p\<lparr>pf_mem_acc := value\<rparr>)
      else if offset = SOC_PERF_DMA_BYTES_OFF then (Inr (), p\<lparr>pf_dma_bytes := value\<rparr>)
      else if offset = SOC_PERF_IRQ_COUNT_OFF then (Inr (), p\<lparr>pf_irq_count := value\<rparr>)
      else if offset = SOC_PERF_STALLS_OFF then (Inr (), p\<lparr>pf_stalls := value\<rparr>)
      else if offset = SOC_PERF_CTRL_OFF then
        (let p' = p\<lparr>pf_ctrl := value, pf_enabled := (value AND SOC_PERF_CTRL_ENABLE \<noteq> 0)\<rparr> in
         (Inr (), if value AND SOC_PERF_CTRL_RESET \<noteq> 0 then soc_perf_reset_counters p' else p'))
      else (Inl SOC_ERR_BUS, p))"

text \<open>A counter block in zero-initialised static storage.\<close>

definition perf_static :: soc_perf_t where
  "perf_static = \<lparr>pf_cycles = 0, pf_mem_acc = 0, pf_dma_bytes = 0, pf_irq_count = 0, pf_stalls = 0,
     pf_enabled = False, pf_ctrl = 0\<rparr>"

section \<open>Counting\<close>

lemmas perf_count_defs =
  soc_perf_tick_def soc_perf_count_mem_def soc_perf_count_stall_def soc_perf_count_dma_def
  soc_perf_count_irq_def

lemma perf_counting_keeps_enable [simp]:
  "pf_enabled (soc_perf_tick p) = pf_enabled p"
  "pf_enabled (soc_perf_count_mem p) = pf_enabled p"
  "pf_enabled (soc_perf_count_stall p n) = pf_enabled p"
  "pf_enabled (soc_perf_count_dma p n) = pf_enabled p"
  "pf_enabled (soc_perf_count_irq p) = pf_enabled p"
  "pf_ctrl (soc_perf_tick p) = pf_ctrl p"
  "pf_ctrl (soc_perf_count_mem p) = pf_ctrl p"
  "pf_ctrl (soc_perf_count_stall p n) = pf_ctrl p"
  "pf_ctrl (soc_perf_count_dma p n) = pf_ctrl p"
  "pf_ctrl (soc_perf_count_irq p) = pf_ctrl p"
  by (simp_all add: perf_count_defs)

text \<open>The cycle counter moves with the tick and with nothing else.\<close>

lemma perf_cycles_counting [simp]:
  "pf_cycles (soc_perf_tick p) = (if pf_enabled p then pf_cycles p + 1 else pf_cycles p)"
  "pf_cycles (soc_perf_count_mem p) = pf_cycles p" "pf_cycles (soc_perf_count_stall p n) = pf_cycles p"
  "pf_cycles (soc_perf_count_dma p n) = pf_cycles p" "pf_cycles (soc_perf_count_irq p) = pf_cycles p"
  by (simp_all add: perf_count_defs)

lemma perf_disabled_silent:
  "\<not> pf_enabled p \<Longrightarrow> soc_perf_tick p = p \<and> soc_perf_count_mem p = p \<and>
     soc_perf_count_stall p n = p \<and> soc_perf_count_dma p n = p \<and> soc_perf_count_irq p = p"
  by (simp add: perf_count_defs)

text \<open>The enable flag follows bit 0 of the control register: the invariant of the block.\<close>

definition perf_wf :: "soc_perf_t \<Rightarrow> bool" where
  "perf_wf p \<longleftrightarrow> pf_enabled p = bit (pf_ctrl p) 0"

lemma perf_count_wf [wf_intros]:
  assumes "perf_wf p"
  shows "perf_wf (soc_perf_tick p)" and "perf_wf (soc_perf_count_mem p)"
    and "perf_wf (soc_perf_count_stall p n)" and "perf_wf (soc_perf_count_dma p n)"
    and "perf_wf (soc_perf_count_irq p)"
  using assms by (simp_all add: perf_wf_def)

lemma perf_init_wf [wf_intros]: "perf_wf (soc_perf_init p)"
  by (simp add: perf_wf_def soc_perf_init_def)

lemma perf_read_refused:
  "fst (soc_perf_read p off) = Inl e \<longrightarrow> snd (soc_perf_read p off) = p \<and> e = SOC_ERR_BUS"
  by (simp add: soc_perf_read_def)

lemma perf_write_refused:
  "fst (soc_perf_write p off v) = Inl SOC_ERR_BUS \<longrightarrow> snd (soc_perf_write p off v) = p"
  by (simp add: soc_perf_write_def Let_def)

lemma perf_write_error: "fst (soc_perf_write p off v) = Inl e \<longrightarrow> e = SOC_ERR_BUS"
  by (simp add: soc_perf_write_def Let_def)

lemma perf_access_wf [wf_intros]:
  "perf_wf p \<Longrightarrow> perf_wf (snd (soc_perf_read p off))"
  "perf_wf p \<Longrightarrow> perf_wf (snd (soc_perf_write p off v))"
  by (simp_all add: soc_perf_read_def soc_perf_write_def perf_wf_def Let_def
      soc_perf_reset_counters_def)

interpretation perf_dev: mmio_device soc_perf_read soc_perf_write perf_wf
  by unfold_locales (use perf_read_refused perf_write_refused in \<open>blast intro: perf_access_wf\<close>)+

end
