(* ===== verification/Intc.thy ===== *)
theory Intc
  imports Perf
begin

text \<open>
  The interrupt controller of \<open>soc_c/src/soc_intc.c\<close>: enable, pending and active masks over
  three lines, read-to-acknowledge with the fixed priority TIMER, DMA, UART. The abstract view
  is three sets of lines; the refinement lemmas show that raising, acknowledging and clearing
  are set operations, and that successive acknowledgements deliver exactly the lines that are
  pending and enabled, in priority order.
\<close>

definition SOC_INTC_ENABLE_OFF :: u32 where [simp]: "SOC_INTC_ENABLE_OFF = 0x00"
definition SOC_INTC_PENDING_OFF :: u32 where [simp]: "SOC_INTC_PENDING_OFF = 0x04"
definition SOC_INTC_ACK_OFF :: u32 where [simp]: "SOC_INTC_ACK_OFF = 0x08"
definition SOC_INTC_CLEAR_OFF :: u32 where [simp]: "SOC_INTC_CLEAR_OFF = 0x0C"
definition SOC_INTC_ACTIVE_OFF :: u32 where [simp]: "SOC_INTC_ACTIVE_OFF = 0x10"

definition SOC_IRQ_UART :: int where [simp]: "SOC_IRQ_UART = 0"
definition SOC_IRQ_TIMER :: int where [simp]: "SOC_IRQ_TIMER = 1"
definition SOC_IRQ_DMA :: int where [simp]: "SOC_IRQ_DMA = 2"
definition SOC_IRQ_NONE :: u32 where [simp]: "SOC_IRQ_NONE = 0xFFFFFFFF"
definition SOC_N_LINES :: int where [simp]: "SOC_N_LINES = 3"

record soc_intc_t =
  ic_enable :: u32
  ic_pending :: u32
  ic_active :: u32
  ic_perf :: soc_ref

definition kPriority :: "int list" where
  "kPriority = [SOC_IRQ_TIMER, SOC_IRQ_DMA, SOC_IRQ_UART]"

definition soc_intc_init :: "soc_intc_t \<Rightarrow> soc_ref \<Rightarrow> soc_intc_t" where
  "soc_intc_init ic perf =
     ic\<lparr>ic_enable := 0, ic_pending := 0, ic_active := 0, ic_perf := perf\<rparr>"

definition soc_intc_reset :: "soc_intc_t \<Rightarrow> soc_intc_t" where
  "soc_intc_reset ic = ic\<lparr>ic_enable := 0, ic_pending := 0, ic_active := 0\<rparr>"

definition soc_intc_raise :: "soc_intc_t \<Rightarrow> int \<Rightarrow> soc_intc_t" where
  "soc_intc_raise ic line =
     (if 0 \<le> line \<and> line < SOC_N_LINES
      then ic\<lparr>ic_pending := ic_pending ic OR push_bit (nat line) 1\<rparr> else ic)"

fun soc_intc_scan :: "u32 \<Rightarrow> int list \<Rightarrow> int" where
  "soc_intc_scan gated [] = - 1"
| "soc_intc_scan gated (l # ls) =
     (if gated AND push_bit (nat l) 1 \<noteq> 0 then l else soc_intc_scan gated ls)"

definition soc_intc_highest :: "soc_intc_t \<Rightarrow> int" where
  "soc_intc_highest ic = soc_intc_scan (ic_pending ic AND ic_enable ic AND 0x7) kPriority"

definition soc_intc_read ::
    "soc_intc_t \<Rightarrow> soc_perf_t \<Rightarrow> u32 \<Rightarrow> (soc_err + u32) \<times> soc_intc_t \<times> soc_perf_t" where
  "soc_intc_read ic p offset =
     (if offset = SOC_INTC_ENABLE_OFF then (Inr (ic_enable ic), ic, p)
      else if offset = SOC_INTC_PENDING_OFF then (Inr (ic_pending ic), ic, p)
      else if offset = SOC_INTC_ACTIVE_OFF then (Inr (ic_active ic), ic, p)
      else if offset = SOC_INTC_ACK_OFF then
        (let line = soc_intc_highest ic in
         if line < 0 then (Inr SOC_IRQ_NONE, ic, p)
         else (Inr (of_int line),
               ic\<lparr>ic_pending := ic_pending ic AND NOT (push_bit (nat line) 1),
                  ic_active := ic_active ic OR push_bit (nat line) 1\<rparr>,
               if ic_perf ic \<noteq> NullRef then soc_perf_count_irq p else p))
      else (Inl SOC_ERR_BUS, ic, p))"

definition soc_intc_write ::
    "soc_intc_t \<Rightarrow> u32 \<Rightarrow> u32 \<Rightarrow> (soc_err + unit) \<times> soc_intc_t" where
  "soc_intc_write ic offset value =
     (if offset = SOC_INTC_ENABLE_OFF then (Inr (), ic\<lparr>ic_enable := value AND 0x7\<rparr>)
      else if offset = SOC_INTC_CLEAR_OFF then
        (Inr (), if value < of_int SOC_N_LINES
                 then ic\<lparr>ic_active := ic_active ic AND NOT (push_bit (unat value) 1)\<rparr> else ic)
      else if offset = SOC_INTC_PENDING_OFF \<or> offset = SOC_INTC_ACK_OFF \<or>
        offset = SOC_INTC_ACTIVE_OFF then (Inl SOC_ERR_BUS, ic)
      else (Inl SOC_ERR_BUS, ic))"

text \<open>A controller in zero-initialised static storage.\<close>

definition intc_static :: soc_intc_t where
  "intc_static = \<lparr>ic_enable = 0, ic_pending = 0, ic_active = 0, ic_perf = NullRef\<rparr>"

section \<open>The controller as three sets of lines\<close>

definition lines_of :: "u32 \<Rightarrow> nat set" where
  "lines_of w = {n. bit w n}"

definition irq_lines :: "nat set" where
  "irq_lines = {0, 1, 2}"

text \<open>Masks never leave the three lines, and the back pointer is set: the invariant.\<close>

definition intc_wf :: "soc_intc_t \<Rightarrow> bool" where
  "intc_wf ic \<longleftrightarrow> lines_of (ic_enable ic) \<subseteq> irq_lines \<and> lines_of (ic_pending ic) \<subseteq> irq_lines \<and>
     lines_of (ic_active ic) \<subseteq> irq_lines \<and> ic_perf ic = SocRef"

lemma and_power_iff: "((w :: u32) AND 2 ^ k = 0) = (\<not> bit w k)"
  using bit_iff_and_push_bit_not_eq_0 [of w k] by simp

lemma lines_or [simp]: "lines_of (a OR b) = lines_of a \<union> lines_of b"
  by (auto simp: lines_of_def bit_simps)

lemma lines_and: "lines_of (a AND b) = lines_of a \<inter> lines_of b"
  by (auto simp: lines_of_def bit_simps)

lemma lines_and_not [simp]: "lines_of (a AND NOT b) = lines_of a - lines_of b"
  by (auto simp: lines_of_def bit_simps dest: bit_imp_le_length)

lemma lines_power [simp]: "k < 32 \<Longrightarrow> lines_of (2 ^ k) = {k}"
  by (auto simp: lines_of_def bit_exp_iff)

lemma lines_single [simp]:
  "lines_of 1 = {0}" "lines_of 2 = {1}" "lines_of 4 = {2}"
  using lines_power [of 0] lines_power [of 1] lines_power [of 2] by simp_all

lemma lines_0 [simp]: "lines_of 0 = {}"
  by (simp add: lines_of_def)

lemma lines_7 [simp]: "lines_of 7 = irq_lines"
proof -
  have "(7 :: u32) = 1 OR 2 OR 4"
    by simp
  also have "lines_of \<dots> = {0} \<union> {1} \<union> {2}"
    by (simp only: lines_or lines_single) simp
  finally show ?thesis
    by (auto simp: irq_lines_def)
qed

lemma lines_eqI: "lines_of a = lines_of b \<Longrightarrow> a = b"
  by (rule bit_word_eqI) (auto simp: lines_of_def)

lemma bit_lines: "bit w n = (n \<in> lines_of w)"
  by (simp add: lines_of_def)

text \<open>The lines an acknowledgement may deliver, and the one it delivers first.\<close>

definition gated :: "soc_intc_t \<Rightarrow> nat set" where
  "gated ic = lines_of (ic_pending ic) \<inter> lines_of (ic_enable ic) \<inter> irq_lines"

definition irq_rank :: "nat \<Rightarrow> nat" where
  "irq_rank l = (if l = 1 then 0 else if l = 2 then 1 else 2)"

lemma soc_intc_highest_eq:
  "soc_intc_highest ic =
     (if 1 \<in> gated ic then 1 else if 2 \<in> gated ic then 2 else if 0 \<in> gated ic then 0 else - 1)"
  by (auto simp: soc_intc_highest_def kPriority_def bit_lines gated_def irq_lines_def lines_and)

lemma soc_intc_highest_none: "soc_intc_highest ic < 0 \<longleftrightarrow> gated ic = {}"
  by (auto simp: soc_intc_highest_eq gated_def irq_lines_def)

lemma soc_intc_highest_line:
  assumes "gated ic \<noteq> {}"
  obtains l where "soc_intc_highest ic = int l" and "l \<in> gated ic"
    and "\<And>k. k \<in> gated ic \<Longrightarrow> irq_rank l \<le> irq_rank k"
proof -
  consider "1 \<in> gated ic" | "1 \<notin> gated ic" "2 \<in> gated ic" | "1 \<notin> gated ic" "2 \<notin> gated ic" "0 \<in> gated ic"
    using assms by (auto simp: gated_def irq_lines_def)
  then show thesis
  proof cases
    case 1
    then show ?thesis by (intro that [of 1]) (auto simp: soc_intc_highest_eq irq_rank_def)
  next
    case 2
    then show ?thesis
      by (intro that [of 2]) (auto simp: soc_intc_highest_eq irq_rank_def gated_def irq_lines_def)
  next
    case 3
    then show ?thesis
      by (intro that [of 0]) (auto simp: soc_intc_highest_eq irq_rank_def gated_def irq_lines_def)
  qed
qed

section \<open>Raising and clearing\<close>

lemma raise_pending:
  assumes "l \<in> irq_lines"
  shows "lines_of (ic_pending (soc_intc_raise ic (int l))) = insert l (lines_of (ic_pending ic))"
  using assms by (auto simp: soc_intc_raise_def irq_lines_def)

lemma raise_frame [simp]:
  "ic_enable (soc_intc_raise ic l) = ic_enable ic" "ic_active (soc_intc_raise ic l) = ic_active ic"
  "ic_perf (soc_intc_raise ic l) = ic_perf ic"
  by (simp_all add: soc_intc_raise_def)

lemma raise_out_of_range: "l < 0 \<or> 3 \<le> l \<Longrightarrow> soc_intc_raise ic l = ic"
  by (auto simp: soc_intc_raise_def)

lemma raise_idem: "soc_intc_raise (soc_intc_raise ic l) l = soc_intc_raise ic l"
  by (simp add: soc_intc_raise_def or.assoc)

lemma raise_wf [wf_intros]: "intc_wf ic \<Longrightarrow> intc_wf (soc_intc_raise ic l)"
proof (cases "0 \<le> l \<and> l < 3")
  case True
  then obtain n where n: "l = int n" "n \<in> irq_lines"
    by (cases l) (force simp: irq_lines_def)+
  assume "intc_wf ic"
  with n show ?thesis
    by (simp add: intc_wf_def raise_pending)
qed (auto simp: soc_intc_raise_def)

lemma intc_reset_wf [wf_intros]:
  "ic_perf ic = SocRef \<Longrightarrow> intc_wf (soc_intc_reset ic)" "intc_wf (soc_intc_init ic SocRef)"
  by (simp_all add: intc_wf_def soc_intc_reset_def soc_intc_init_def)

lemma clear_active:
  "soc_intc_write ic SOC_INTC_CLEAR_OFF v =
     (Inr (), if v < 3 then ic\<lparr>ic_active := ic_active ic AND NOT (2 ^ unat v)\<rparr> else ic)"
  by (simp add: soc_intc_write_def)

section \<open>Acknowledging\<close>

text \<open>The lines that acknowledgements will deliver, highest priority first.\<close>

definition irq_order :: "soc_intc_t \<Rightarrow> nat list" where
  "irq_order ic = filter (\<lambda>l. l \<in> gated ic) [1, 2, 0]"

lemma set_irq_order [simp]: "set (irq_order ic) = gated ic"
  by (auto simp: irq_order_def gated_def irq_lines_def)

lemma distinct_irq_order: "distinct (irq_order ic)"
  by (simp add: irq_order_def)

lemma gated_subset: "gated ic \<subseteq> irq_lines"
  by (simp add: gated_def)

text \<open>The state after line \<open>l\<close> is acknowledged.\<close>

definition intc_taken :: "soc_intc_t \<Rightarrow> nat \<Rightarrow> soc_intc_t" where
  "intc_taken ic l = ic\<lparr>ic_pending := ic_pending ic AND NOT (2 ^ l),
     ic_active := ic_active ic OR 2 ^ l\<rparr>"

lemma ack_none:
  "irq_order ic = [] \<Longrightarrow> soc_intc_read ic p SOC_INTC_ACK_OFF = (Inr SOC_IRQ_NONE, ic, p)"
  using soc_intc_highest_none [of ic]
  by (simp add: soc_intc_read_def Let_def flip: set_irq_order)

lemma ack_some:
  assumes "irq_order ic = l # ls" and "ic_perf ic = SocRef"
  shows "soc_intc_read ic p SOC_INTC_ACK_OFF =
     (Inr (of_nat l), intc_taken ic l, soc_perf_count_irq p)"
    and "irq_order (intc_taken ic l) = ls" and "l \<in> irq_lines"
proof -
  have hi: "soc_intc_highest ic = int l"
    using assms(1) by (auto simp: soc_intc_highest_eq irq_order_def split: if_splits)
  then show "soc_intc_read ic p SOC_INTC_ACK_OFF =
      (Inr (of_nat l), intc_taken ic l, soc_perf_count_irq p)"
    using assms(2) by (simp add: soc_intc_read_def intc_taken_def)
  have l: "l \<in> gated ic"
    using assms(1) by (simp flip: set_irq_order)
  then show il: "l \<in> irq_lines"
    using gated_subset by blast
  then have "l < 32"
    by (auto simp: irq_lines_def)
  then have "gated (intc_taken ic l) = gated ic - {l}"
    by (auto simp: gated_def intc_taken_def)
  then have "irq_order (intc_taken ic l) = removeAll l (irq_order ic)"
    by (simp add: irq_order_def removeAll_filter_not_eq)
  also have "\<dots> = ls"
    using assms(1) distinct_irq_order [of ic] by (simp add: removeAll_id)
  finally show "irq_order (intc_taken ic l) = ls" .
qed

lemma intc_taken_simps [simp]:
  "ic_perf (intc_taken ic l) = ic_perf ic" "ic_enable (intc_taken ic l) = ic_enable ic"
  by (simp_all add: intc_taken_def)

lemma intc_taken_wf [wf_intros]: "intc_wf ic \<Longrightarrow> l \<in> irq_lines \<Longrightarrow> intc_wf (intc_taken ic l)"
proof -
  assume h: "intc_wf ic" "l \<in> irq_lines"
  then have "l < 32" by (auto simp: irq_lines_def)
  with h show ?thesis
    by (auto simp: intc_wf_def intc_taken_def)
qed

text \<open>A client that reads \<open>ACK\<close> \<open>n\<close> times: the values it sees, and the state it leaves.\<close>

primrec intc_acks ::
    "nat \<Rightarrow> soc_intc_t \<Rightarrow> soc_perf_t \<Rightarrow> (soc_err + u32) list \<times> soc_intc_t \<times> soc_perf_t" where
  "intc_acks 0 ic p = ([], ic, p)"
| "intc_acks (Suc n) ic p =
     (let (r, ic', p') = soc_intc_read ic p SOC_INTC_ACK_OFF;
          (rs, st) = intc_acks n ic' p'
      in (r # rs, st))"

lemma acks_deliver:
  assumes "ic_perf ic = SocRef"
  shows "fst (intc_acks n ic p) = map (\<lambda>l. Inr (of_nat l)) (take n (irq_order ic)) @
      replicate (n - length (irq_order ic)) (Inr SOC_IRQ_NONE) \<and>
    snd (snd (intc_acks n ic p)) =
      (soc_perf_count_irq ^^ length (take n (irq_order ic))) p \<and>
    lines_of (ic_pending (fst (snd (intc_acks n ic p)))) =
      lines_of (ic_pending ic) - set (take n (irq_order ic)) \<and>
    lines_of (ic_active (fst (snd (intc_acks n ic p)))) =
      lines_of (ic_active ic) \<union> set (take n (irq_order ic))"
  using assms
proof (induction n arbitrary: ic p)
  case 0
  then show ?case by simp
next
  case (Suc n)
  show ?case
  proof (cases "irq_order ic")
    case Nil
    with Suc.IH [OF Suc.prems] show ?thesis
      by (simp add: ack_none [OF Nil, simplified] split_def)
  next
    case (Cons l ls)
    note s = ack_some [OF Cons Suc.prems, simplified]
    have "l < 32"
      using s(3) by (auto simp: irq_lines_def)
    then have t: "lines_of (ic_pending (intc_taken ic l)) = lines_of (ic_pending ic) - {l}"
        "lines_of (ic_active (intc_taken ic l)) = insert l (lines_of (ic_active ic))"
      by (simp_all add: intc_taken_def)
    show ?thesis
      using Suc.IH [of "intc_taken ic l"] Suc.prems s t
      by (auto simp: Cons split_def funpow_swap1)
  qed
qed

section \<open>The controller as a device\<close>

lemma intc_read_refused:
  "fst (soc_intc_read ic p off) = Inl e \<longrightarrow> snd (soc_intc_read ic p off) = (ic, p) \<and> e = SOC_ERR_BUS"
  by (simp add: soc_intc_read_def Let_def)

lemma intc_write_refused:
  "fst (soc_intc_write ic off v) = Inl e \<longrightarrow> snd (soc_intc_write ic off v) = ic \<and> e = SOC_ERR_BUS"
  by (simp add: soc_intc_write_def)

lemma intc_read_wf [wf_intros]:
  assumes "intc_wf ic"
  shows "intc_wf (fst (snd (soc_intc_read ic p off)))"
proof (cases "off = SOC_INTC_ACK_OFF")
  case True
  show ?thesis
  proof (cases "irq_order ic")
    case Nil
    with assms True ack_none [OF Nil, of p] show ?thesis by simp
  next
    case (Cons l ls)
    have r: "ic_perf ic = SocRef"
      using assms by (simp add: intc_wf_def)
    show ?thesis
      using assms True ack_some(1) [OF Cons r, of p] ack_some(3) [OF Cons r]
      by (simp add: intc_taken_wf)
  qed
next
  case False
  with assms show ?thesis by (simp add: soc_intc_read_def)
qed

lemma intc_write_wf [wf_intros]:
  assumes "intc_wf ic"
  shows "intc_wf (snd (soc_intc_write ic off v))"
proof -
  have "intc_wf (ic\<lparr>ic_active := ic_active ic AND NOT (2 ^ unat v)\<rparr>)" if "v < 3"
  proof -
    have "unat v < 3"
      using that by (simp add: word_less_nat_alt)
    with assms show ?thesis
      by (auto simp: intc_wf_def)
  qed
  moreover have "intc_wf (ic\<lparr>ic_enable := v AND 7\<rparr>)"
    using assms by (auto simp: intc_wf_def lines_and)
  ultimately show ?thesis
    using assms by (simp add: soc_intc_write_def)
qed

interpretation intc_dev: mmio_device
  "\<lambda>(ic, p) off. soc_intc_read ic p off"
  "\<lambda>(ic, p) off v. case soc_intc_write ic off v of (r, ic') \<Rightarrow> (r, ic', p)"
  "\<lambda>(ic, p). intc_wf ic"
proof unfold_locales
  fix s :: "soc_intc_t \<times> soc_perf_t" and off v :: u32 and e
  obtain ic p where s: "s = (ic, p)"
    by (cases s)
  show "(case s of (ic, p) \<Rightarrow> intc_wf ic) \<Longrightarrow>
      case snd ((case s of (ic, p) \<Rightarrow> soc_intc_read ic p) off) of (ic, p) \<Rightarrow> intc_wf ic"
    using intc_read_wf [of ic p off] by (simp add: s split_def)
  show "(case s of (ic, p) \<Rightarrow> intc_wf ic) \<Longrightarrow>
      case snd ((case s of (ic, p) \<Rightarrow>
        \<lambda>off v. case soc_intc_write ic off v of (r, ic') \<Rightarrow> (r, ic', p)) off v) of
      (ic, p) \<Rightarrow> intc_wf ic"
    using intc_write_wf [of ic off v] by (simp add: s split_def)
  show "fst ((case s of (ic, p) \<Rightarrow> soc_intc_read ic p) off) = Inl e \<Longrightarrow>
      snd ((case s of (ic, p) \<Rightarrow> soc_intc_read ic p) off) = s \<and> e = SOC_ERR_BUS"
    using intc_read_refused [of ic p off e] by (simp add: s)
  show "fst ((case s of (ic, p) \<Rightarrow>
        \<lambda>off v. case soc_intc_write ic off v of (r, ic') \<Rightarrow> (r, ic', p)) off v) = Inl SOC_ERR_BUS \<Longrightarrow>
      snd ((case s of (ic, p) \<Rightarrow>
        \<lambda>off v. case soc_intc_write ic off v of (r, ic') \<Rightarrow> (r, ic', p)) off v) = s"
    using intc_write_refused [of ic off v SOC_ERR_BUS] by (simp add: s split_def)
qed

section \<open>Properties\<close>

text \<open>
  C8. Successive acknowledgements. Reading \<open>ACK\<close> \<open>n\<close> times delivers the lines that are pending
  and enabled, each once and in the order TIMER, DMA, UART, and \<open>SOC_IRQ_NONE\<close> once they are
  used up (so a second read for one event is spurious); exactly the delivered lines move from
  pending to active, and exactly that many interrupts are counted.
\<close>

theorem intc_ack_order:
  assumes "intc_wf ic"
  shows "let order = filter (\<lambda>l. l \<in> gated ic) [1, 2, 0]; taken = take n order;
             (rs, ic', p') = intc_acks n ic p
    in rs = map (\<lambda>l. Inr (of_nat l)) taken @ replicate (n - length order) (Inr SOC_IRQ_NONE) \<and>
       lines_of (ic_pending ic') = lines_of (ic_pending ic) - set taken \<and>
       lines_of (ic_active ic') = lines_of (ic_active ic) \<union> set taken \<and>
       p' = (soc_perf_count_irq ^^ length taken) p"
  using assms acks_deliver [of ic n p] by (simp add: intc_wf_def irq_order_def Let_def split_def)

theorem intc_ack_order_witness:
  "fst (intc_acks 4 \<lparr>ic_enable = 7, ic_pending = 7, ic_active = 0, ic_perf = SocRef\<rparr>
      \<lparr>pf_cycles = 0, pf_mem_acc = 0, pf_dma_bytes = 0, pf_irq_count = 0, pf_stalls = 0,
       pf_enabled = True, pf_ctrl = 1\<rparr>) =
    [Inr 1, Inr 2, Inr 0, Inr 0xFFFFFFFF]"
proof -
  let ?ic = "\<lparr>ic_enable = 7, ic_pending = 7, ic_active = 0, ic_perf = SocRef\<rparr> :: soc_intc_t"
  have "intc_wf ?ic" and g: "gated ?ic = {0, 1, 2}"
    by (simp_all add: intc_wf_def gated_def irq_lines_def)
  from intc_ack_order [OF this(1), of 4] show ?thesis
    by (simp add: g Let_def split_def)
qed

text \<open>
  C40. Raises coalesce: however often a line is raised before it is acknowledged, one pending
  bit is set and no other line, enable or active bit changes. Writing a line number to
  \<open>CLEAR\<close> takes that line out of the active set only; it never clears a pending bit, and a
  number that names no line changes nothing.
\<close>

theorem intc_raise_and_clear:
  assumes "l \<in> irq_lines"
  shows "lines_of (ic_pending (((\<lambda>ic. soc_intc_raise ic (int l)) ^^ Suc n) ic)) =
      insert l (lines_of (ic_pending ic)) \<and>
    ic_enable (((\<lambda>ic. soc_intc_raise ic (int l)) ^^ Suc n) ic) = ic_enable ic \<and>
    ic_active (((\<lambda>ic. soc_intc_raise ic (int l)) ^^ Suc n) ic) = ic_active ic \<and>
    lines_of (ic_active (snd (soc_intc_write ic SOC_INTC_CLEAR_OFF v))) =
      (if unat v < 3 then lines_of (ic_active ic) - {unat v} else lines_of (ic_active ic)) \<and>
    ic_pending (snd (soc_intc_write ic SOC_INTC_CLEAR_OFF v)) = ic_pending ic"
proof -
  have "((\<lambda>ic. soc_intc_raise ic (int l)) ^^ Suc n) ic = soc_intc_raise ic (int l)"
    by (induction n) (simp_all add: raise_idem)
  then show ?thesis
    using assms by (auto simp: raise_pending clear_active [simplified] word_less_nat_alt)
qed

theorem intc_raise_and_clear_witness:
  "ic_pending (snd (soc_intc_write
      \<lparr>ic_enable = 7, ic_pending = 4, ic_active = 4, ic_perf = SocRef\<rparr> SOC_INTC_CLEAR_OFF 2)) = 4"
proof -
  have "(2 :: nat) \<in> irq_lines"
    by (simp add: irq_lines_def)
  from intc_raise_and_clear [OF this,
      of 0 "\<lparr>ic_enable = 7, ic_pending = 4, ic_active = 4, ic_perf = SocRef\<rparr>" 2]
  show ?thesis by simp
qed

end
