(* ===== verification/Uart.thy ===== *)
theory Uart
  imports Intc
begin

text \<open>
  The loopback UART of \<open>soc_c/src/soc_uart.c\<close>: a one-byte transmitter that is busy for a
  configured number of ticks and then loops the byte back, and the two DMA-visible streams.
  The streams are arrays with a length in the code; the refinement lemmas show that appending
  and draining are a bounded queue on the abstract contents (interface \<open>bounded_stream\<close>), and
  the tick is an instance of \<open>countdown\<close>.
\<close>

definition SOC_UART_TXDATA_OFF :: u32 where [simp]: "SOC_UART_TXDATA_OFF = 0x00"
definition SOC_UART_RXDATA_OFF :: u32 where [simp]: "SOC_UART_RXDATA_OFF = 0x04"
definition SOC_UART_STATUS_OFF :: u32 where [simp]: "SOC_UART_STATUS_OFF = 0x08"
definition SOC_UART_CTRL_OFF :: u32 where [simp]: "SOC_UART_CTRL_OFF = 0x0C"
definition SOC_UART_BAUDDIV_OFF :: u32 where [simp]: "SOC_UART_BAUDDIV_OFF = 0x10"
definition SOC_UART_STATUS_TX_BUSY :: u32 where [simp]: "SOC_UART_STATUS_TX_BUSY = 1"
definition SOC_UART_STATUS_TX_EMPTY :: u32 where [simp]: "SOC_UART_STATUS_TX_EMPTY = 2"
definition SOC_UART_STATUS_RX_VALID :: u32 where [simp]: "SOC_UART_STATUS_RX_VALID = 4"
definition SOC_UART_CTRL_ENABLE :: u32 where [simp]: "SOC_UART_CTRL_ENABLE = 1"
definition SOC_UART_IRQ_LINE :: int where [simp]: "SOC_UART_IRQ_LINE = 0"
definition SOC_UART_DMA_FIFO_SIZE :: u32 where [simp]: "SOC_UART_DMA_FIFO_SIZE = 16384"

record soc_uart_t =
  u_latency_ticks :: u32
  u_perf :: soc_ref
  u_intc :: soc_ref
  u_ctrl :: u32
  u_bauddiv :: u32
  u_txdata :: u32
  u_rxdata :: u32
  u_busy :: int
  u_rx_valid :: bool
  u_fault_stuck_busy :: bool
  u_dma_tx_fifo :: "u8 list"
  u_dma_tx_len :: u32
  u_dma_rx_fifo :: "u8 list"
  u_dma_rx_len :: u32

definition soc_uart_init :: "soc_uart_t \<Rightarrow> u32 \<Rightarrow> soc_ref \<Rightarrow> soc_ref \<Rightarrow> soc_uart_t" where
  "soc_uart_init u latency_ticks perf intc =
     u\<lparr>u_latency_ticks := latency_ticks, u_perf := perf, u_intc := intc, u_ctrl := 0,
       u_bauddiv := 0, u_txdata := 0, u_rxdata := 0, u_busy := 0, u_rx_valid := False,
       u_fault_stuck_busy := False, u_dma_tx_len := 0, u_dma_rx_len := 0\<rparr>"

definition soc_uart_reset :: "soc_uart_t \<Rightarrow> soc_uart_t" where
  "soc_uart_reset u =
     u\<lparr>u_ctrl := 0, u_bauddiv := 0, u_txdata := 0, u_rxdata := 0, u_busy := 0,
       u_rx_valid := False, u_fault_stuck_busy := False, u_dma_tx_len := 0, u_dma_rx_len := 0\<rparr>"

definition soc_uart_status :: "soc_uart_t \<Rightarrow> u32" where
  "soc_uart_status u =
     (let s = 0;
          s1 = (if u_busy u > 0 then s OR SOC_UART_STATUS_TX_BUSY
                else s OR SOC_UART_STATUS_TX_EMPTY)
      in if u_rx_valid u then s1 OR SOC_UART_STATUS_RX_VALID else s1)"

definition soc_uart_read :: "soc_uart_t \<Rightarrow> u32 \<Rightarrow> (soc_err + u32) \<times> soc_uart_t" where
  "soc_uart_read u offset =
     (if offset = SOC_UART_TXDATA_OFF then (Inl SOC_ERR_BUS, u)
      else if offset = SOC_UART_RXDATA_OFF then
        (Inr (u_rxdata u AND 0xFF), u\<lparr>u_rx_valid := False\<rparr>)
      else if offset = SOC_UART_STATUS_OFF then (Inr (soc_uart_status u), u)
      else if offset = SOC_UART_CTRL_OFF then (Inr (u_ctrl u), u)
      else if offset = SOC_UART_BAUDDIV_OFF then (Inr (u_bauddiv u), u)
      else (Inl SOC_ERR_BUS, u))"

definition soc_uart_write ::
    "soc_uart_t \<Rightarrow> soc_perf_t \<Rightarrow> u32 \<Rightarrow> u32 \<Rightarrow> (soc_err + unit) \<times> soc_uart_t \<times> soc_perf_t" where
  "soc_uart_write u p offset value =
     (if offset = SOC_UART_TXDATA_OFF then
        (if u_ctrl u AND SOC_UART_CTRL_ENABLE = 0
         then (Inl SOC_UART_ERR_DISABLED, u,
               if u_perf u \<noteq> NullRef then soc_perf_count_stall p 1 else p)
         else (Inr (),
               u\<lparr>u_txdata := value AND 0xFF,
                 u_busy := (if u_latency_ticks u > 0 then i32_of_u32 (u_latency_ticks u) else 1)\<rparr>, p))
      else if offset = SOC_UART_CTRL_OFF then (Inr (), u\<lparr>u_ctrl := value\<rparr>, p)
      else if offset = SOC_UART_BAUDDIV_OFF then (Inr (), u\<lparr>u_bauddiv := value\<rparr>, p)
      else if offset = SOC_UART_RXDATA_OFF \<or> offset = SOC_UART_STATUS_OFF
        then (Inl SOC_ERR_BUS, u, p)
      else (Inl SOC_ERR_BUS, u, p))"

text \<open>The payload pointer may be null; the code copies its first \<open>n\<close> bytes into each stream.\<close>

definition soc_uart_dma_tx_append :: "soc_uart_t \<Rightarrow> u8 list option \<Rightarrow> u32 \<Rightarrow> soc_uart_t" where
  "soc_uart_dma_tx_append u payload len =
     (case payload of
        None \<Rightarrow> u
      | Some ps \<Rightarrow>
          if len = 0 then u
          else
            let space = (if u_dma_tx_len u < SOC_UART_DMA_FIFO_SIZE
                         then SOC_UART_DMA_FIFO_SIZE - u_dma_tx_len u else 0);
                n = (if len < space then len else space);
                u1 = (if n > 0
                      then u\<lparr>u_dma_tx_fifo := blit (u_dma_tx_fifo u) (unat (u_dma_tx_len u)) (take (unat n) ps),
                             u_dma_tx_len := u_dma_tx_len u + n\<rparr>
                      else u);
                space2 = (if u_dma_rx_len u1 < SOC_UART_DMA_FIFO_SIZE
                          then SOC_UART_DMA_FIFO_SIZE - u_dma_rx_len u1 else 0);
                n2 = (if len < space2 then len else space2)
            in if n2 > 0
               then u1\<lparr>u_dma_rx_fifo := blit (u_dma_rx_fifo u1) (unat (u_dma_rx_len u1)) (take (unat n2) ps),
                       u_dma_rx_len := u_dma_rx_len u1 + n2\<rparr>
               else u1)"

text \<open>The buffer \<open>out\<close> is passed in and returned overwritten; \<open>None\<close> is the null pointer.\<close>

definition soc_uart_dma_rx_drain ::
    "soc_uart_t \<Rightarrow> u8 list option \<Rightarrow> u32 \<Rightarrow> soc_uart_t \<times> u8 list option" where
  "soc_uart_dma_rx_drain u out len =
     (case out of
        None \<Rightarrow> (u, None)
      | Some buf \<Rightarrow>
          if len = 0 then (u, Some buf)
          else
            let n = (if len < u_dma_rx_len u then len else u_dma_rx_len u);
                buf1 = (if n > 0 then blit buf 0 (bytes_at (u_dma_rx_fifo u) 0 (unat n)) else buf);
                u1 = (if n > 0
                      then u\<lparr>u_dma_rx_fifo := blit (u_dma_rx_fifo u) 0
                               (bytes_at (u_dma_rx_fifo u) (unat n) (unat (u_dma_rx_len u - n))),
                             u_dma_rx_len := u_dma_rx_len u - n\<rparr>
                      else u);
                buf2 = (if n < len then memset_at buf1 (unat n) 0 (unat (len - n)) else buf1)
            in (u1, Some buf2))"

definition soc_uart_step :: "soc_uart_t \<Rightarrow> soc_intc_t \<Rightarrow> soc_uart_t \<times> soc_intc_t" where
  "soc_uart_step u ic =
     (if u_busy u > 0 then
        (if u_fault_stuck_busy u then (u, ic)
         else
           let u1 = u\<lparr>u_busy := u_busy u - 1\<rparr> in
           if u_busy u1 = 0 then
             let u2 = u1\<lparr>u_rxdata := u_txdata u1, u_rx_valid := True\<rparr>;
                 b = (ucast (u_txdata u2 AND 0xFF) :: u8);
                 u3 = soc_uart_dma_tx_append u2 (Some [b]) 1
             in (u3, if u_intc u3 \<noteq> NullRef then soc_intc_raise ic SOC_UART_IRQ_LINE else ic)
           else (u1, ic))
      else (u, ic))"

section \<open>The streams as bounded queues\<close>

definition uart_tx_stream :: "soc_uart_t \<Rightarrow> u8 list" where
  "uart_tx_stream u = take (unat (u_dma_tx_len u)) (u_dma_tx_fifo u)"

definition uart_rx_stream :: "soc_uart_t \<Rightarrow> u8 list" where
  "uart_rx_stream u = take (unat (u_dma_rx_len u)) (u_dma_rx_fifo u)"

definition uart_wf :: "soc_uart_t \<Rightarrow> bool" where
  "uart_wf u \<longleftrightarrow> u_perf u = SocRef \<and> u_intc u = SocRef \<and>
     length (u_dma_tx_fifo u) = 16384 \<and> length (u_dma_rx_fifo u) = 16384 \<and>
     unat (u_dma_tx_len u) \<le> 16384 \<and> unat (u_dma_rx_len u) \<le> 16384"

text \<open>The number of bytes that fit, and the stream after they are copied to its end.\<close>

definition fifo_room :: "u32 \<Rightarrow> u32 \<Rightarrow> u32" where
  "fifo_room len used =
     (let space = (if used < SOC_UART_DMA_FIFO_SIZE then SOC_UART_DMA_FIFO_SIZE - used else 0)
      in if len < space then len else space)"

lemma unat_fifo_room: "unat (fifo_room len used) = min (unat len) (16384 - unat used)"
  by (auto simp: fifo_room_def Let_def word_less_nat_alt unat_sub word_le_nat_alt)

lemma fifo_push:
  assumes "length f = c" and "l \<le> c" and "len \<le> length ps" and "n = min len (c - l)"
  shows "take (l + n) (blit f l (take n ps)) = take c (take l f @ take len ps)"
  using assms by (simp add: blit_def min.commute)

lemma unat_used_plus_room:
  "unat used \<le> 16384 \<Longrightarrow> unat (used + fifo_room len used) = unat used + min (unat len) (16384 - unat used)"
  by (simp add: unat_word_ariths unat_fifo_room)

text \<open>One half of the append: the same code once for each stream.\<close>

lemma fifo_append_half:
  assumes "length f = 16384" and "unat used \<le> 16384" and "unat len \<le> length ps"
  defines "n \<equiv> fifo_room len used"
  shows "take (unat (used + n)) (blit f (unat used) (take (unat n) ps)) =
      take 16384 (take (unat used) f @ take (unat len) ps)"
    and "length (blit f (unat used) (take (unat n) ps)) = 16384"
    and "unat (used + n) \<le> 16384"
    and "\<not> n > 0 \<Longrightarrow> take (unat used) f = take 16384 (take (unat used) f @ take (unat len) ps)"
  using assms fifo_push [of f 16384 "unat used" "unat len" ps "unat n"]
  by (auto simp: unat_used_plus_room unat_fifo_room word_less_nat_alt n_def min_def)

lemma soc_uart_dma_tx_append_eq:
  "soc_uart_dma_tx_append u (Some ps) len =
     (if len = 0 then u
      else
        let n = fifo_room len (u_dma_tx_len u);
            u1 = (if n > 0
                  then u\<lparr>u_dma_tx_fifo := blit (u_dma_tx_fifo u) (unat (u_dma_tx_len u)) (take (unat n) ps),
                         u_dma_tx_len := u_dma_tx_len u + n\<rparr>
                  else u);
            n2 = fifo_room len (u_dma_rx_len u)
        in if n2 > 0
           then u1\<lparr>u_dma_rx_fifo := blit (u_dma_rx_fifo u) (unat (u_dma_rx_len u)) (take (unat n2) ps),
                   u_dma_rx_len := u_dma_rx_len u + n2\<rparr>
           else u1)"
  by (simp add: soc_uart_dma_tx_append_def fifo_room_def Let_def)

lemma uart_append_streams:
  assumes "uart_wf u" and "unat len \<le> length ps"
  shows "uart_tx_stream (soc_uart_dma_tx_append u (Some ps) len) =
      take 16384 (uart_tx_stream u @ take (unat len) ps)" (is ?tx)
    and "uart_rx_stream (soc_uart_dma_tx_append u (Some ps) len) =
      take 16384 (uart_rx_stream u @ take (unat len) ps)" (is ?rx)
    and "uart_wf (soc_uart_dma_tx_append u (Some ps) len)" (is ?wf)
proof -
  have w: "length (u_dma_tx_fifo u) = 16384" "unat (u_dma_tx_len u) \<le> 16384"
      "length (u_dma_rx_fifo u) = 16384" "unat (u_dma_rx_len u) \<le> 16384"
    using assms(1) by (simp_all add: uart_wf_def)
  note tx = fifo_append_half [OF w(1,2) assms(2)]
  note rx = fifo_append_half [OF w(3,4) assms(2)]
  have z: "len = 0 \<Longrightarrow> unat len = 0"
    by simp
  show ?tx
    using w tx(4) by (simp add: uart_tx_stream_def soc_uart_dma_tx_append_eq Let_def tx(1) z
        del: take_append)
  show ?rx
    using w rx(4) by (simp add: uart_rx_stream_def soc_uart_dma_tx_append_eq Let_def rx(1) z
        del: take_append)
  show ?wf
    using assms(1) tx(2,3) rx(2,3)
    by (simp add: uart_wf_def soc_uart_dma_tx_append_eq Let_def)
qed

lemma uart_append_frame [simp]:
  "u_latency_ticks (soc_uart_dma_tx_append u pl len) = u_latency_ticks u"
  "u_perf (soc_uart_dma_tx_append u pl len) = u_perf u"
  "u_intc (soc_uart_dma_tx_append u pl len) = u_intc u"
  "u_ctrl (soc_uart_dma_tx_append u pl len) = u_ctrl u"
  "u_bauddiv (soc_uart_dma_tx_append u pl len) = u_bauddiv u"
  "u_txdata (soc_uart_dma_tx_append u pl len) = u_txdata u"
  "u_rxdata (soc_uart_dma_tx_append u pl len) = u_rxdata u"
  "u_busy (soc_uart_dma_tx_append u pl len) = u_busy u"
  "u_rx_valid (soc_uart_dma_tx_append u pl len) = u_rx_valid u"
  "u_fault_stuck_busy (soc_uart_dma_tx_append u pl len) = u_fault_stuck_busy u"
  by (simp_all add: soc_uart_dma_tx_append_def Let_def split: option.splits)

lemma uart_drain_streams:
  assumes "uart_wf u" and "unat len \<le> length buf"
  defines "r \<equiv> soc_uart_dma_rx_drain u (Some buf) len"
  shows "snd r = Some (take (unat len) (uart_rx_stream u @ replicate (unat len) 0) @ drop (unat len) buf)"
    and "uart_rx_stream (fst r) = drop (unat len) (uart_rx_stream u)"
    and "uart_tx_stream (fst r) = uart_tx_stream u"
    and "uart_wf (fst r)"
proof -
  let ?f = "u_dma_rx_fifo u" and ?l = "unat (u_dma_rx_len u)" and ?k = "unat len"
  note w = assms(1) [unfolded uart_wf_def]
  have short: "memset_at buf 0 0 ?k = replicate ?k 0 @ drop ?k buf"
    by (simp add: memset_at_def blit_def)
  have both: "memset_at (blit buf 0 (take ?l ?f)) ?l 0 (?k - ?l) =
      take ?k (take ?l ?f @ replicate ?k 0) @ drop ?k buf" if "?l < ?k"
    using that w by (simp add: memset_at_def blit_def)
  have long: "blit buf 0 (take ?k ?f) = take ?k (take ?l ?f @ replicate ?k 0) @ drop ?k buf"
    if "\<not> ?l < ?k"
    using that w assms(2) by (simp add: blit_def min_absorb2)
  have move: "take (?l - ?k) (blit ?f 0 (bytes_at ?f ?k (?l - ?k))) = drop ?k (take ?l ?f)"
    if "?k < ?l"
    using that w by (simp add: blit_def bytes_at_def drop_take) linarith
  consider (zero) "len = 0" | (empty) "len \<noteq> 0" "?l = 0" | (less) "0 < ?k" "?k < ?l" | (more) "0 < ?l" "?l \<le> ?k"
    by (metis gr0I not_le unat_eq_0)
  note cs = this
  show "snd r = Some (take ?k (uart_rx_stream u @ replicate ?k 0) @ drop ?k buf)"
    using cs
    by cases (use short both long in
      \<open>auto simp: r_def soc_uart_dma_rx_drain_def Let_def uart_rx_stream_def word_less_nat_alt unat_sub
        word_le_nat_alt unat_eq_0 split: if_splits\<close>)
  show "uart_rx_stream (fst r) = drop ?k (uart_rx_stream u)"
    using cs
    by cases (use move in
      \<open>auto simp: r_def soc_uart_dma_rx_drain_def Let_def uart_rx_stream_def word_less_nat_alt unat_sub
        word_le_nat_alt unat_eq_0\<close>)
  show "uart_tx_stream (fst r) = uart_tx_stream u"
    by (simp add: r_def soc_uart_dma_rx_drain_def Let_def uart_tx_stream_def)
  show "uart_wf (fst r)"
    using w by (auto simp: r_def soc_uart_dma_rx_drain_def Let_def uart_wf_def word_less_nat_alt
        unat_sub word_le_nat_alt bytes_at_def)
qed

section \<open>The stream interface\<close>

text \<open>
  A queue of bounded capacity: what is put beyond the capacity is dropped, and a short get is
  padded. Its clients only see \<open>put\<close>, \<open>get\<close> and these laws.
\<close>

locale bounded_stream =
  fixes put :: "'s \<Rightarrow> 'a list \<Rightarrow> 's"
    and get :: "'s \<Rightarrow> nat \<Rightarrow> 'a list \<times> 's"
    and content :: "'s \<Rightarrow> 'a list"
    and inv :: "'s \<Rightarrow> bool"
    and cap :: nat and lim :: nat and pad :: 'a
  assumes content_put: "inv s \<Longrightarrow> length xs < lim \<Longrightarrow> content (put s xs) = take cap (content s @ xs)"
    and put_inv: "inv s \<Longrightarrow> length xs < lim \<Longrightarrow> inv (put s xs)"
    and get_value: "inv s \<Longrightarrow> n < lim \<Longrightarrow> fst (get s n) = take n (content s @ replicate n pad)"
    and get_content: "inv s \<Longrightarrow> n < lim \<Longrightarrow> content (snd (get s n)) = drop n (content s)"
    and get_inv: "inv s \<Longrightarrow> n < lim \<Longrightarrow> inv (snd (get s n))"
begin

lemma put_chunks:
  assumes "inv s" and "\<forall>xs \<in> set xss. length xs < lim" and "length (content s) \<le> cap"
  shows "content (fold (\<lambda>xs s. put s xs) xss s) = take cap (content s @ concat xss) \<and>
    inv (fold (\<lambda>xs s. put s xs) xss s)"
  using assms
proof (induction xss arbitrary: s)
  case Nil
  then show ?case by simp
next
  case (Cons xs xss)
  then have "content (put s xs) = take cap (content s @ xs)" "inv (put s xs)"
    by (simp_all add: content_put put_inv)
  moreover from this have "length (content (put s xs)) \<le> cap"
    by simp
  ultimately show ?case
    using Cons.IH [of "put s xs"] Cons.prems by (simp add: min_def)
qed

lemma chunks_roundtrip:
  assumes "inv s" and "\<forall>xs \<in> set xss. length xs < lim" and "content s = []"
    and "length (concat xss) \<le> cap" and "length (concat xss) < lim"
  shows "fst (get (fold (\<lambda>xs s. put s xs) xss s) (length (concat xss))) = concat xss \<and>
    content (snd (get (fold (\<lambda>xs s. put s xs) xss s) (length (concat xss)))) = []"
  using assms put_chunks [of s xss] by (simp add: get_value get_content)

end

definition uart_put :: "soc_uart_t \<Rightarrow> u8 list \<Rightarrow> soc_uart_t" where
  "uart_put u xs = soc_uart_dma_tx_append u (Some xs) (of_nat (length xs))"

definition uart_get :: "soc_uart_t \<Rightarrow> nat \<Rightarrow> u8 list \<times> soc_uart_t" where
  "uart_get u n =
     (case soc_uart_dma_rx_drain u (Some (replicate n 0)) (of_nat n) of
        (u', out) \<Rightarrow> (case out of None \<Rightarrow> [] | Some b \<Rightarrow> b, u'))"

lemma unat_of_nat_u32: "n < 4294967296 \<Longrightarrow> unat (of_nat n :: u32) = n"
  by (simp add: unat_of_nat)

interpretation uart_stream: bounded_stream uart_put uart_get uart_rx_stream uart_wf
  16384 4294967296 0
proof unfold_locales
  fix u :: soc_uart_t and xs :: "u8 list" and n :: nat
  assume u: "uart_wf u"
  {
    assume "length xs < 4294967296"
    then show "uart_rx_stream (uart_put u xs) = take 16384 (uart_rx_stream u @ xs)"
        and "uart_wf (uart_put u xs)"
      using uart_append_streams [OF u, of "of_nat (length xs)" xs]
      by (simp_all add: uart_put_def unat_of_nat_u32)
  next
    assume n: "n < 4294967296"
    note d = uart_drain_streams [OF u, of "of_nat n" "replicate n 0"]
    show "fst (uart_get u n) = take n (uart_rx_stream u @ replicate n 0)"
      using d(1) n by (simp add: uart_get_def unat_of_nat_u32 split_def)
    show "uart_rx_stream (snd (uart_get u n)) = drop n (uart_rx_stream u)"
      using d(2) n by (simp add: uart_get_def unat_of_nat_u32 split_def)
    show "uart_wf (snd (uart_get u n))"
      using d(4) n by (simp add: uart_get_def unat_of_nat_u32 split_def)
  }
qed

section \<open>Registers\<close>

lemma uart_init_wf [wf_intros]:
  "length (u_dma_tx_fifo u) = 16384 \<Longrightarrow> length (u_dma_rx_fifo u) = 16384 \<Longrightarrow>
     uart_wf (soc_uart_init u lat SocRef SocRef)"
  "uart_wf u \<Longrightarrow> uart_wf (soc_uart_reset u)"
  by (simp_all add: uart_wf_def soc_uart_init_def soc_uart_reset_def)

lemma uart_read_refused:
  "fst (soc_uart_read u off) = Inl e \<longrightarrow> snd (soc_uart_read u off) = u \<and> e = SOC_ERR_BUS"
  by (simp add: soc_uart_read_def)

lemma uart_write_refused:
  "fst (soc_uart_write u p off v) = Inl SOC_ERR_BUS \<longrightarrow> snd (soc_uart_write u p off v) = (u, p)"
  by (simp add: soc_uart_write_def)

lemma uart_write_disabled:
  "fst (soc_uart_write u p off v) = Inl SOC_UART_ERR_DISABLED \<longrightarrow>
     off = 0 \<and> \<not> bit (u_ctrl u) 0 \<and>
     snd (soc_uart_write u p off v) = (u, if u_perf u \<noteq> NullRef then soc_perf_count_stall p 1 else p)"
  by (simp add: soc_uart_write_def)

lemma uart_access_wf [wf_intros]:
  "uart_wf u \<Longrightarrow> uart_wf (snd (soc_uart_read u off))"
  "uart_wf u \<Longrightarrow> uart_wf (fst (snd (soc_uart_write u p off v)))"
  by (simp_all add: soc_uart_read_def soc_uart_write_def uart_wf_def)

lemma uart_write_perf_wf [wf_intros]:
  "perf_wf p \<Longrightarrow> perf_wf (snd (snd (soc_uart_write u p off v)))"
  by (simp add: soc_uart_write_def perf_count_wf)

interpretation uart_dev: mmio_device
  "\<lambda>(u, p) off. case soc_uart_read u off of (r, u') \<Rightarrow> (r, u', p)"
  "\<lambda>(u, p) off v. soc_uart_write u p off v"
  "\<lambda>(u, p). uart_wf u \<and> perf_wf p"
proof unfold_locales
  fix s :: "soc_uart_t \<times> soc_perf_t" and off v :: u32 and e
  obtain u p where s: "s = (u, p)"
    by (cases s)
  show "(case s of (u, p) \<Rightarrow> uart_wf u \<and> perf_wf p) \<Longrightarrow>
      case snd ((case s of (u, p) \<Rightarrow> \<lambda>off. case soc_uart_read u off of (r, u') \<Rightarrow> (r, u', p)) off) of
        (u, p) \<Rightarrow> uart_wf u \<and> perf_wf p"
    using uart_access_wf(1) [of u off] by (simp add: s split_def)
  show "(case s of (u, p) \<Rightarrow> uart_wf u \<and> perf_wf p) \<Longrightarrow>
      case snd ((case s of (u, p) \<Rightarrow> soc_uart_write u p) off v) of (u, p) \<Rightarrow> uart_wf u \<and> perf_wf p"
    using uart_access_wf(2) [of u p off v] uart_write_perf_wf [of p u off v]
    by (simp add: s split_def)
  show "fst ((case s of (u, p) \<Rightarrow> \<lambda>off. case soc_uart_read u off of (r, u') \<Rightarrow> (r, u', p)) off) = Inl e \<Longrightarrow>
      snd ((case s of (u, p) \<Rightarrow> \<lambda>off. case soc_uart_read u off of (r, u') \<Rightarrow> (r, u', p)) off) = s \<and>
      e = SOC_ERR_BUS"
    using uart_read_refused [of u off e] by (simp add: s split_def)
  show "fst ((case s of (u, p) \<Rightarrow> soc_uart_write u p) off v) = Inl SOC_ERR_BUS \<Longrightarrow>
      snd ((case s of (u, p) \<Rightarrow> soc_uart_write u p) off v) = s"
    using uart_write_refused [of u p off v] by (simp add: s)
qed

section \<open>The transmitter\<close>

definition uart_tick :: "soc_uart_t \<times> soc_intc_t \<Rightarrow> soc_uart_t \<times> soc_intc_t" where
  "uart_tick s = soc_uart_step (fst s) (snd s)"

definition uart_armed :: "soc_uart_t \<Rightarrow> bool" where
  "uart_armed u \<longleftrightarrow> 0 < u_busy u \<and> \<not> u_fault_stuck_busy u"

text \<open>The state when the byte has been looped back.\<close>

definition uart_looped :: "soc_uart_t \<Rightarrow> soc_uart_t" where
  "uart_looped u =
     soc_uart_dma_tx_append (u\<lparr>u_busy := 0, u_rxdata := u_txdata u, u_rx_valid := True\<rparr>)
       (Some [ucast (u_txdata u AND 0xFF)]) 1"

lemma uart_step_idle: "\<not> uart_armed u \<Longrightarrow> soc_uart_step u ic = (u, ic)"
  by (auto simp: soc_uart_step_def uart_armed_def)

lemma uart_step_count:
  "uart_armed u \<Longrightarrow> 1 < u_busy u \<Longrightarrow> soc_uart_step u ic = (u\<lparr>u_busy := u_busy u - 1\<rparr>, ic)"
  by (simp add: soc_uart_step_def uart_armed_def Let_def)

lemma uart_step_done:
  "uart_armed u \<Longrightarrow> u_busy u = 1 \<Longrightarrow> u_intc u = SocRef \<Longrightarrow>
     soc_uart_step u ic = (uart_looped u, soc_intc_raise ic SOC_UART_IRQ_LINE)"
  by (simp add: soc_uart_step_def uart_armed_def Let_def uart_looped_def)

lemma uart_looped_wf [wf_intros]: "uart_wf u \<Longrightarrow> uart_wf (uart_looped u)"
  unfolding uart_looped_def
  by (rule uart_append_streams(3)) (simp_all add: uart_wf_def)

lemma uart_step_wf [wf_intros]:
  assumes "uart_wf u" and "intc_wf ic"
  shows "uart_wf (fst (soc_uart_step u ic))" and "intc_wf (snd (soc_uart_step u ic))"
proof -
  have r: "u_intc u = SocRef" and b: "uart_wf (u\<lparr>u_busy := u_busy u - 1\<rparr>)"
    using assms(1) by (simp_all add: uart_wf_def)
  consider "\<not> uart_armed u" | "uart_armed u" "1 < u_busy u" | "uart_armed u" "u_busy u = 1"
    by (force simp: uart_armed_def)
  then have "uart_wf (fst (soc_uart_step u ic)) \<and> intc_wf (snd (soc_uart_step u ic))"
    using assms r b
    by cases (simp_all add: uart_step_idle uart_step_count uart_step_done uart_looped_wf raise_wf)
  then show "uart_wf (fst (soc_uart_step u ic))" and "intc_wf (snd (soc_uart_step u ic))"
    by simp_all
qed

interpretation uart_cd: countdown uart_tick
  "\<lambda>(u, ic). uart_armed u" "\<lambda>(u, ic). nat (u_busy u)" "\<lambda>(u, ic). (u\<lparr>u_busy := 0\<rparr>, ic)"
  by unfold_locales
    (auto simp: uart_tick_def uart_step_count uart_armed_def nat_diff_distrib split: prod.splits)

lemma uart_running:
  assumes "uart_armed u" and "k < nat (u_busy u)"
  shows "(uart_tick ^^ k) (u, ic) = (u\<lparr>u_busy := u_busy u - int k\<rparr>, ic)"
proof -
  obtain u' ic' where r: "(uart_tick ^^ k) (u, ic) = (u', ic')"
    by (cases "(uart_tick ^^ k) (u, ic)")
  have u: "0 < u_busy u'" "nat (u_busy u') = nat (u_busy u) - k"
    and f: "u'\<lparr>u_busy := 0\<rparr> = u\<lparr>u_busy := 0\<rparr>" "ic' = ic"
    using uart_cd.running [of "(u, ic)" k] assms r by (auto simp: uart_armed_def)
  have "u_busy u' = u_busy u - int k"
    using u assms by (auto simp: uart_armed_def)
  moreover have "u' = (u'\<lparr>u_busy := 0\<rparr>)\<lparr>u_busy := u_busy u'\<rparr>"
    by simp
  ultimately have "u' = u\<lparr>u_busy := u_busy u - int k\<rparr>"
    using f(1) by simp
  with r f(2) show ?thesis by simp
qed

lemma uart_idle_forever: "\<not> uart_armed u \<Longrightarrow> (uart_tick ^^ k) (u, ic) = (u, ic)"
  by (induction k) (simp_all add: uart_tick_def uart_step_idle)

lemma uart_looped_busy [simp]: "u_busy (uart_looped u) = 0"
  by (simp add: uart_looped_def)

lemma uart_completes:
  assumes "uart_armed u" and "u_intc u = SocRef" and "nat (u_busy u) \<le> k"
  shows "(uart_tick ^^ k) (u, ic) = (uart_looped u, soc_intc_raise ic SOC_UART_IRQ_LINE)"
proof -
  let ?n = "nat (u_busy u)" and ?u = "u\<lparr>u_busy := 1\<rparr>"
  have pos: "0 < ?n"
    using assms(1) by (simp add: uart_armed_def)
  have "(uart_tick ^^ ?n) (u, ic) = uart_tick ((uart_tick ^^ (?n - 1)) (u, ic))"
    using pos by (cases ?n) simp_all
  also have "\<dots> = uart_tick (?u, ic)"
    using uart_running [OF assms(1), of "?n - 1" ic] pos by (simp add: of_nat_diff)
  also have "\<dots> = (uart_looped u, soc_intc_raise ic SOC_UART_IRQ_LINE)"
    using assms(1,2) uart_step_done [of ?u ic]
    by (simp add: uart_tick_def uart_armed_def uart_looped_def)
  finally have "(uart_tick ^^ ?n) (u, ic) = (uart_looped u, soc_intc_raise ic SOC_UART_IRQ_LINE)" .
  moreover obtain j where "k = j + ?n"
    using assms(3) by (metis le_add_diff_inverse2)
  ultimately show ?thesis
    by (simp add: funpow_add uart_idle_forever uart_armed_def)
qed

lemma uart_looped_streams:
  assumes "uart_wf u"
  shows "uart_tx_stream (uart_looped u) = take 16384 (uart_tx_stream u @ [ucast (u_txdata u AND 0xFF)])"
    and "uart_rx_stream (uart_looped u) = take 16384 (uart_rx_stream u @ [ucast (u_txdata u AND 0xFF)])"
proof -
  let ?u = "u\<lparr>u_busy := 0, u_rxdata := u_txdata u, u_rx_valid := True\<rparr>"
  have "uart_wf ?u" "uart_tx_stream ?u = uart_tx_stream u" "uart_rx_stream ?u = uart_rx_stream u"
    using assms by (simp_all add: uart_wf_def uart_tx_stream_def uart_rx_stream_def)
  with uart_append_streams(1,2) [of ?u 1 "[ucast (u_txdata u AND 0xFF)]"]
  show "uart_tx_stream (uart_looped u) = take 16384 (uart_tx_stream u @ [ucast (u_txdata u AND 0xFF)])"
    and "uart_rx_stream (uart_looped u) = take 16384 (uart_rx_stream u @ [ucast (u_txdata u AND 0xFF)])"
    by (simp_all add: uart_looped_def)
qed

section \<open>Properties\<close>

text \<open>
  C37. Loopback. A byte written to \<open>TXDATA\<close> of an enabled UART is busy for exactly the
  configured latency (at least one tick, below 2^31): before that only the busy counter moves;
  from that tick on the byte can be read from \<open>RXDATA\<close>, the status is \<open>TX_EMPTY\<close> and
  \<open>RX_VALID\<close>, the byte has been appended once to both streams, and line 0 is raised.
\<close>

theorem uart_loopback:
  assumes "uart_wf u" and "bit (u_ctrl u) 0" and "\<not> u_fault_stuck_busy u"
    and "unat (u_latency_ticks u) < 2 ^ 31"
    and "soc_uart_write u p SOC_UART_TXDATA_OFF v = (rc, u1, p1)"
  defines "lat \<equiv> max 1 (unat (u_latency_ticks u))"
  shows "rc = Inr () \<and> p1 = p \<and>
    (\<forall>k < lat. (uart_tick ^^ k) (u1, ic) = (u1\<lparr>u_busy := int (lat - k)\<rparr>, ic) \<and>
       bit (soc_uart_status (fst ((uart_tick ^^ k) (u1, ic)))) 0) \<and>
    (\<forall>k \<ge> lat. \<exists>u2. (uart_tick ^^ k) (u1, ic) = (u2, soc_intc_raise ic SOC_UART_IRQ_LINE) \<and>
       fst (soc_uart_read u2 SOC_UART_RXDATA_OFF) = Inr (v AND 0xFF) \<and>
       soc_uart_status u2 = SOC_UART_STATUS_TX_EMPTY OR SOC_UART_STATUS_RX_VALID \<and>
       uart_tx_stream u2 = take 16384 (uart_tx_stream u @ [ucast v]) \<and>
       uart_rx_stream u2 = take 16384 (uart_rx_stream u @ [ucast v]))"
proof -
  have busy: "(if u_latency_ticks u > 0 then i32_of_u32 (u_latency_ticks u) else 1) = int lat"
    using assms(4) unat_gt_0 [of "u_latency_ticks u"]
    by (cases "u_latency_ticks u = 0") (simp_all add: lat_def i32_of_u32_def sint_u32_small word_gt_0)
  have u1: "rc = Inr ()" "p1 = p" "u1 = u\<lparr>u_txdata := v AND 0xFF, u_busy := int lat\<rparr>"
    using assms(2,5) by (auto simp: soc_uart_write_def busy)
  have armed: "uart_armed u1" "nat (u_busy u1) = lat" "u_intc u1 = SocRef" "uart_wf u1"
    using assms(1,3) by (auto simp: u1 uart_armed_def uart_wf_def lat_def)
  have byte: "ucast (v AND 0xFF AND 0xFF) = (ucast v :: u8)"
    by (rule bit_word_eqI) (auto simp: bit_simps u32_255_mask)
  have "(uart_tick ^^ k) (u1, ic) = (u1\<lparr>u_busy := int (lat - k)\<rparr>, ic)" if "k < lat" for k
    using uart_running [OF armed(1), of k ic] that armed(2) by (simp add: u1 of_nat_diff)
  moreover have "(uart_tick ^^ k) (u1, ic) = (uart_looped u1, soc_intc_raise ic SOC_UART_IRQ_LINE)"
    if "lat \<le> k" for k
    using uart_completes [OF armed(1,3), of k ic] that armed(2) by simp
  moreover have "uart_tx_stream u1 = uart_tx_stream u" "uart_rx_stream u1 = uart_rx_stream u"
    by (simp_all add: u1 uart_tx_stream_def uart_rx_stream_def)
  then have "uart_tx_stream (uart_looped u1) = take 16384 (uart_tx_stream u @ [ucast v])"
    "uart_rx_stream (uart_looped u1) = take 16384 (uart_rx_stream u @ [ucast v])"
    using uart_looped_streams [OF armed(4)] byte by (simp_all add: u1)
  moreover have "fst (soc_uart_read (uart_looped u1) SOC_UART_RXDATA_OFF) = Inr (v AND 0xFF)"
    by (simp add: soc_uart_read_def uart_looped_def u1 and.assoc)
  moreover have "soc_uart_status (uart_looped u1) = SOC_UART_STATUS_TX_EMPTY OR SOC_UART_STATUS_RX_VALID"
    by (simp add: soc_uart_status_def uart_looped_def)
  ultimately show ?thesis
    using u1 by (auto simp: soc_uart_status_def bit_simps)
qed

text \<open>A UART object in zero-initialised static storage.\<close>

definition uart_static :: soc_uart_t where
  "uart_static =
     \<lparr>u_latency_ticks = 0, u_perf = NullRef, u_intc = NullRef, u_ctrl = 0, u_bauddiv = 0,
      u_txdata = 0, u_rxdata = 0, u_busy = 0, u_rx_valid = False, u_fault_stuck_busy = False,
      u_dma_tx_fifo = replicate 16384 0, u_dma_tx_len = 0,
      u_dma_rx_fifo = replicate 16384 0, u_dma_rx_len = 0\<rparr>"

theorem uart_loopback_witness:
  "fst (soc_uart_read (fst ((uart_tick ^^ 5)
      (fst (snd (soc_uart_write ((soc_uart_init uart_static 5 SocRef SocRef)\<lparr>u_ctrl := 1\<rparr>)
        perf_static SOC_UART_TXDATA_OFF 0x41)),
       intc_static))) SOC_UART_RXDATA_OFF) = Inr 0x41"
proof -
  let ?u = "(soc_uart_init uart_static 5 SocRef SocRef)\<lparr>u_ctrl := 1\<rparr>"
  let ?ic = intc_static
  obtain rc u1 p1 where w: "soc_uart_write ?u perf_static SOC_UART_TXDATA_OFF 0x41 = (rc, u1, p1)"
    by (cases "soc_uart_write ?u perf_static SOC_UART_TXDATA_OFF 0x41")
  have "uart_wf ?u" "bit (u_ctrl ?u) 0" "\<not> u_fault_stuck_busy ?u" "unat (u_latency_ticks ?u) < 2 ^ 31"
    by (simp_all add: uart_wf_def soc_uart_init_def uart_static_def)
  from uart_loopback [OF this w, of ?ic]
  have "\<forall>k \<ge> 5. \<exists>u2. (uart_tick ^^ k) (u1, ?ic) = (u2, soc_intc_raise ?ic SOC_UART_IRQ_LINE) \<and>
      fst (soc_uart_read u2 SOC_UART_RXDATA_OFF) = Inr (0x41 AND 0xFF)"
    by (simp add: soc_uart_init_def) blast
  then obtain u2 where "(uart_tick ^^ 5) (u1, ?ic) = (u2, soc_intc_raise ?ic SOC_UART_IRQ_LINE)"
    and "fst (soc_uart_read u2 SOC_UART_RXDATA_OFF) = Inr (0x41 AND 0xFF)"
    by blast
  then show ?thesis
    by (simp only: w fst_conv snd_conv) simp
qed

text \<open>
  The stuck-busy fault. While the latch is set a busy transmitter is frozen: no number of
  ticks changes the UART or the interrupt controller and the status stays busy. Once the latch
  is cleared the byte completes after the ticks that were left.
\<close>

theorem uart_stuck_busy:
  assumes "uart_wf u" and "u_fault_stuck_busy u" and "0 < u_busy u"
  shows "(uart_tick ^^ k) (u, ic) = (u, ic) \<and> bit (soc_uart_status u) 0 \<and>
    (let v = u\<lparr>u_fault_stuck_busy := False\<rparr> in
     (uart_tick ^^ nat (u_busy u)) (v, ic) = (uart_looped v, soc_intc_raise ic SOC_UART_IRQ_LINE))"
proof -
  let ?v = "u\<lparr>u_fault_stuck_busy := False\<rparr>"
  have "(uart_tick ^^ nat (u_busy u)) (?v, ic) = (uart_looped ?v, soc_intc_raise ic SOC_UART_IRQ_LINE)"
    using assms by (intro uart_completes) (simp_all add: uart_armed_def uart_wf_def)
  then show ?thesis
    using assms uart_idle_forever [of u k ic]
    by (simp add: uart_armed_def soc_uart_status_def bit_simps)
qed

theorem uart_stuck_busy_witness:
  "(uart_tick ^^ 20)
     ((soc_uart_init uart_static 5 SocRef SocRef)\<lparr>u_busy := 3, u_fault_stuck_busy := True\<rparr>, intc_static) =
   ((soc_uart_init uart_static 5 SocRef SocRef)\<lparr>u_busy := 3, u_fault_stuck_busy := True\<rparr>, intc_static)"
proof -
  let ?u = "(soc_uart_init uart_static 5 SocRef SocRef)\<lparr>u_busy := 3, u_fault_stuck_busy := True\<rparr>"
  have "uart_wf ?u" "u_fault_stuck_busy ?u" "0 < u_busy ?u"
    by (simp_all add: uart_wf_def soc_uart_init_def uart_static_def)
  from uart_stuck_busy [OF this, of 20 intc_static] show ?thesis
    by blast
qed

text \<open>
  The DMA streams are a queue: whatever chunks are appended to an empty stream, if they fit
  the 16384 bytes together, draining their total length returns exactly their concatenation and
  leaves the stream empty. (A longer drain is padded with zeros and an overfull append is cut
  at the capacity, by the refinement lemmas.)
\<close>

theorem uart_stream_roundtrip:
  assumes "uart_wf u" and "uart_rx_stream u = []" and "length (concat chunks) \<le> 16384"
  shows "let u' = fold (\<lambda>xs u. soc_uart_dma_tx_append u (Some xs) (of_nat (length xs))) chunks u;
             n = length (concat chunks);
             r = soc_uart_dma_rx_drain u' (Some (replicate n 0)) (of_nat n)
    in snd r = Some (concat chunks) \<and> uart_rx_stream (fst r) = [] \<and> uart_wf u'"
proof -
  let ?u = "fold (\<lambda>xs u. uart_put u xs) chunks u" and ?n = "length (concat chunks)"
  have small: "\<forall>xs \<in> set chunks. length xs < 4294967296"
  proof
    fix xs
    assume "xs \<in> set chunks"
    then have "length xs \<le> sum_list (map length chunks)"
      by (intro member_le_sum_list) simp_all
    with assms(3) show "length xs < 4294967296"
      by (simp add: length_concat)
  qed
  have "fst (uart_get ?u ?n) = concat chunks" "uart_rx_stream (snd (uart_get ?u ?n)) = []"
    using uart_stream.chunks_roundtrip [OF assms(1) small assms(2)] assms(3) by simp_all
  moreover have wf: "uart_wf ?u"
    using uart_stream.put_chunks [OF assms(1) small] assms(2) by simp
  moreover have "snd (soc_uart_dma_rx_drain ?u (Some (replicate ?n 0)) (of_nat ?n)) \<noteq> None"
    using uart_drain_streams(1) [OF wf, of "of_nat ?n" "replicate ?n 0"] assms(3)
    by (simp add: unat_of_nat_u32)
  ultimately show ?thesis
    by (auto simp: uart_get_def uart_put_def [abs_def] Let_def split_def split: option.splits)
qed

theorem uart_stream_roundtrip_witness:
  "snd (soc_uart_dma_rx_drain
      (fold (\<lambda>xs u. soc_uart_dma_tx_append u (Some xs) (of_nat (length xs))) [[1, 2], [3]]
        (soc_uart_init uart_static 5 SocRef SocRef)) (Some [0, 0, 0]) 3) = Some [1, 2, 3]"
proof -
  let ?u = "soc_uart_init uart_static 5 SocRef SocRef"
  have "uart_wf ?u" "uart_rx_stream ?u = []" "length (concat [[1, 2], [3 :: u8]]) \<le> 16384"
    by (simp_all add: uart_wf_def soc_uart_init_def uart_static_def uart_rx_stream_def)
  from uart_stream_roundtrip [OF this] show ?thesis
    by (simp add: Let_def numeral_3_eq_3)
qed

end
