(* ===== verification/Timer.thy ===== *)
theory Timer
  imports Intc
begin

text \<open>
  The countdown timer of \<open>soc_c/src/soc_timer.c\<close>. Register accesses are an \<open>mmio_device\<close>; the
  tick is an instance of \<open>countdown\<close>, from which the timing theorems follow: a one-shot timer
  fires once, after exactly the value it was armed with, and a periodic timer fires at every
  multiple of its load.
\<close>

definition SOC_TIMER_CTRL_OFF :: u32 where [simp]: "SOC_TIMER_CTRL_OFF = 0x00"
definition SOC_TIMER_LOAD_OFF :: u32 where [simp]: "SOC_TIMER_LOAD_OFF = 0x04"
definition SOC_TIMER_VALUE_OFF :: u32 where [simp]: "SOC_TIMER_VALUE_OFF = 0x08"
definition SOC_TIMER_IRQ_STATUS_OFF :: u32 where [simp]: "SOC_TIMER_IRQ_STATUS_OFF = 0x0C"
definition SOC_TIMER_IRQ_CLEAR_OFF :: u32 where [simp]: "SOC_TIMER_IRQ_CLEAR_OFF = 0x10"
definition SOC_TIMER_CTRL_ENABLE :: u32 where [simp]: "SOC_TIMER_CTRL_ENABLE = 1"
definition SOC_TIMER_CTRL_PERIODIC :: u32 where [simp]: "SOC_TIMER_CTRL_PERIODIC = 2"
definition SOC_TIMER_CTRL_IRQ_ENABLE :: u32 where [simp]: "SOC_TIMER_CTRL_IRQ_ENABLE = 4"
definition SOC_TIMER_IRQ_FIRED :: u32 where [simp]: "SOC_TIMER_IRQ_FIRED = 1"
definition SOC_TIMER_IRQ_LINE :: int where [simp]: "SOC_TIMER_IRQ_LINE = 1"

record soc_timer_t =
  t_intc :: soc_ref
  t_ctrl :: u32
  t_load :: u32
  t_value :: u32
  t_irq_status :: u32

definition soc_timer_init :: "soc_timer_t \<Rightarrow> soc_ref \<Rightarrow> soc_timer_t" where
  "soc_timer_init t intc =
     t\<lparr>t_intc := intc, t_ctrl := 0, t_load := 0, t_value := 0, t_irq_status := 0\<rparr>"

definition soc_timer_reset :: "soc_timer_t \<Rightarrow> soc_timer_t" where
  "soc_timer_reset t = t\<lparr>t_ctrl := 0, t_load := 0, t_value := 0, t_irq_status := 0\<rparr>"

definition soc_timer_read :: "soc_timer_t \<Rightarrow> u32 \<Rightarrow> (soc_err + u32) \<times> soc_timer_t" where
  "soc_timer_read t offset =
     (if offset = SOC_TIMER_CTRL_OFF then (Inr (t_ctrl t), t)
      else if offset = SOC_TIMER_LOAD_OFF then (Inr (t_load t), t)
      else if offset = SOC_TIMER_VALUE_OFF then (Inr (t_value t), t)
      else if offset = SOC_TIMER_IRQ_STATUS_OFF then (Inr (t_irq_status t), t)
      else if offset = SOC_TIMER_IRQ_CLEAR_OFF then (Inl SOC_ERR_BUS, t)
      else (Inl SOC_ERR_BUS, t))"

definition soc_timer_write :: "soc_timer_t \<Rightarrow> u32 \<Rightarrow> u32 \<Rightarrow> (soc_err + unit) \<times> soc_timer_t" where
  "soc_timer_write t offset value =
     (if offset = SOC_TIMER_CTRL_OFF then
        (let was_enabled = (t_ctrl t AND SOC_TIMER_CTRL_ENABLE \<noteq> 0);
             t' = t\<lparr>t_ctrl := value\<rparr>;
             now_enabled = (t_ctrl t' AND SOC_TIMER_CTRL_ENABLE \<noteq> 0)
         in (Inr (), if now_enabled \<and> \<not> was_enabled \<and> t_value t' = 0
                     then t'\<lparr>t_value := t_load t'\<rparr> else t'))
      else if offset = SOC_TIMER_LOAD_OFF then (Inr (), t\<lparr>t_load := value\<rparr>)
      else if offset = SOC_TIMER_IRQ_STATUS_OFF then
        (Inr (), if value AND SOC_TIMER_IRQ_FIRED \<noteq> 0
                 then t\<lparr>t_irq_status := t_irq_status t AND NOT SOC_TIMER_IRQ_FIRED\<rparr> else t)
      else if offset = SOC_TIMER_IRQ_CLEAR_OFF then
        (Inr (), if value AND SOC_TIMER_IRQ_FIRED \<noteq> 0
                 then t\<lparr>t_irq_status := t_irq_status t AND NOT SOC_TIMER_IRQ_FIRED\<rparr> else t)
      else if offset = SOC_TIMER_VALUE_OFF then (Inl SOC_ERR_BUS, t)
      else (Inl SOC_ERR_BUS, t))"

definition soc_timer_step :: "soc_timer_t \<Rightarrow> soc_intc_t \<Rightarrow> soc_timer_t \<times> soc_intc_t" where
  "soc_timer_step t ic =
     (if t_ctrl t AND SOC_TIMER_CTRL_ENABLE = 0 then (t, ic)
      else if t_load t = 0 then (t, ic)
      else
        let t1 = (if t_value t > 0 then t\<lparr>t_value := t_value t - 1\<rparr> else t) in
        if t_value t1 = 0 then
          let t2 = t1\<lparr>t_irq_status := t_irq_status t1 OR SOC_TIMER_IRQ_FIRED\<rparr>;
              ic' = (if t_ctrl t2 AND SOC_TIMER_CTRL_IRQ_ENABLE \<noteq> 0 \<and> t_intc t2 \<noteq> NullRef
                     then soc_intc_raise ic SOC_TIMER_IRQ_LINE else ic)
          in if t_ctrl t2 AND SOC_TIMER_CTRL_PERIODIC \<noteq> 0
             then (t2\<lparr>t_value := t_load t2\<rparr>, ic')
             else (t2\<lparr>t_ctrl := t_ctrl t2 AND NOT SOC_TIMER_CTRL_ENABLE\<rparr>, ic')
        else (t1, ic))"

text \<open>A timer in zero-initialised static storage.\<close>

definition timer_static :: soc_timer_t where
  "timer_static =
     \<lparr>t_intc = NullRef, t_ctrl = 0, t_load = 0, t_value = 0, t_irq_status = 0\<rparr>"

section \<open>Registers\<close>

definition timer_wf :: "soc_timer_t \<Rightarrow> bool" where
  "timer_wf t \<longleftrightarrow> t_intc t = SocRef \<and> t_irq_status t \<in> {0, 1}"

lemma timer_init_wf [wf_intros]:
  "timer_wf (soc_timer_init t SocRef)" "t_intc t = SocRef \<Longrightarrow> timer_wf (soc_timer_reset t)"
  by (simp_all add: timer_wf_def soc_timer_init_def soc_timer_reset_def)

lemma timer_read_refused:
  "fst (soc_timer_read t off) = Inl e \<longrightarrow> snd (soc_timer_read t off) = t \<and> e = SOC_ERR_BUS"
  by (simp add: soc_timer_read_def)

lemma timer_write_refused:
  "fst (soc_timer_write t off v) = Inl e \<longrightarrow> snd (soc_timer_write t off v) = t \<and> e = SOC_ERR_BUS"
  by (simp add: soc_timer_write_def Let_def)

lemma timer_access_wf [wf_intros]:
  "timer_wf t \<Longrightarrow> timer_wf (snd (soc_timer_read t off))"
  "timer_wf t \<Longrightarrow> timer_wf (snd (soc_timer_write t off v))"
  by (auto simp: soc_timer_read_def soc_timer_write_def timer_wf_def Let_def)

interpretation timer_dev: mmio_device soc_timer_read soc_timer_write timer_wf
  by unfold_locales (use timer_read_refused timer_write_refused in \<open>blast intro: timer_access_wf\<close>)+

lemma timer_step_wf [wf_intros]:
  assumes "timer_wf t" and "intc_wf ic"
  shows "timer_wf (fst (soc_timer_step t ic))" and "intc_wf (snd (soc_timer_step t ic))"
  using assms by (auto simp: soc_timer_step_def timer_wf_def Let_def raise_wf)

section \<open>Counting down\<close>

definition timer_tick :: "soc_timer_t \<times> soc_intc_t \<Rightarrow> soc_timer_t \<times> soc_intc_t" where
  "timer_tick s = soc_timer_step (fst s) (snd s)"

definition timer_armed :: "soc_timer_t \<Rightarrow> bool" where
  "timer_armed t \<longleftrightarrow> bit (t_ctrl t) 0 \<and> t_load t \<noteq> 0"

text \<open>What the timer does to the interrupt controller when it fires.\<close>

definition timer_signal :: "soc_timer_t \<Rightarrow> soc_intc_t \<Rightarrow> soc_intc_t" where
  "timer_signal t ic =
     (if bit (t_ctrl t) 2 \<and> t_intc t \<noteq> NullRef then soc_intc_raise ic SOC_TIMER_IRQ_LINE else ic)"

definition timer_fired_once :: "soc_timer_t \<Rightarrow> soc_timer_t" where
  "timer_fired_once t =
     t\<lparr>t_value := 0, t_irq_status := t_irq_status t OR 1, t_ctrl := t_ctrl t AND NOT 1\<rparr>"

lemma timer_step_idle: "\<not> timer_armed t \<Longrightarrow> soc_timer_step t ic = (t, ic)"
  by (auto simp: soc_timer_step_def timer_armed_def)

lemma timer_step_count:
  "timer_armed t \<Longrightarrow> 1 < unat (t_value t) \<Longrightarrow>
     soc_timer_step t ic = (t\<lparr>t_value := t_value t - 1\<rparr>, ic)"
  using unat_more_than_1 [of "t_value t"] by (simp add: soc_timer_step_def timer_armed_def Let_def)

lemma timer_step_fire:
  assumes "timer_armed t" and "unat (t_value t) = 1"
  shows "soc_timer_step t ic =
     (if bit (t_ctrl t) 1 then t\<lparr>t_value := t_load t, t_irq_status := t_irq_status t OR 1\<rparr>
      else timer_fired_once t, timer_signal t ic)"
proof -
  from assms(2) have "t_value t = 1"
    by (simp only: unat_1_iff)
  with assms(1) show ?thesis
    by (simp add: soc_timer_step_def timer_armed_def Let_def timer_signal_def timer_fired_once_def)
qed

interpretation timer_cd: countdown timer_tick
  "\<lambda>(t, ic). timer_armed t" "\<lambda>(t, ic). unat (t_value t)"
  "\<lambda>(t, ic). (t_intc t, t_ctrl t, t_load t, t_irq_status t, ic)"
  by unfold_locales
    (auto simp: timer_tick_def timer_step_count timer_armed_def unat_pred split: prod.splits)

lemma timer_running:
  assumes "timer_armed t" and "k < unat (t_value t)"
  shows "(timer_tick ^^ k) (t, ic) = (t\<lparr>t_value := t_value t - of_nat k\<rparr>, ic)"
proof -
  obtain t' ic' where r: "(timer_tick ^^ k) (t, ic) = (t', ic')"
    by (cases "(timer_tick ^^ k) (t, ic)")
  have u: "unat (t_value t') = unat (t_value t) - k"
    and f: "t_intc t' = t_intc t" "t_ctrl t' = t_ctrl t" "t_load t' = t_load t"
      "t_irq_status t' = t_irq_status t" "ic' = ic"
    using timer_cd.running [of "(t, ic)" k] assms r by auto
  have "t_value t' = t_value t - of_nat k"
    using u assms(2) unat_u32_bound [of "t_value t"]
    by (simp add: word_unat_eq_iff unat_sub_if' unat_of_nat)
  with f r show ?thesis by (cases t'; cases t) simp
qed

lemma timer_period:
  assumes "timer_armed t" and "0 < unat (t_value t)"
  shows "(timer_tick ^^ unat (t_value t)) (t, ic) =
     (if bit (t_ctrl t) 1 then t\<lparr>t_value := t_load t, t_irq_status := t_irq_status t OR 1\<rparr>
      else timer_fired_once t, timer_signal t ic)"
proof -
  let ?n = "unat (t_value t)" and ?t = "t\<lparr>t_value := 1\<rparr>"
  have one: "t_value t - of_nat (?n - 1) = 1"
    using assms(2) by (simp add: of_nat_diff)
  have "(timer_tick ^^ ?n) (t, ic) = timer_tick ((timer_tick ^^ (?n - 1)) (t, ic))"
    using assms(2) by (cases ?n) simp_all
  also have "\<dots> = timer_tick (?t, ic)"
    using timer_running [OF assms(1), of "?n - 1" ic] assms(2) by (simp add: one)
  also have "\<dots> = (if bit (t_ctrl t) 1 then t\<lparr>t_value := t_load t, t_irq_status := t_irq_status t OR 1\<rparr>
      else timer_fired_once t, timer_signal t ic)"
    using assms(1) timer_step_fire [of ?t ic]
    by (simp add: timer_tick_def timer_armed_def timer_fired_once_def timer_signal_def)
  finally show ?thesis .
qed

lemma timer_idle_forever: "\<not> timer_armed t \<Longrightarrow> (timer_tick ^^ k) (t, ic) = (t, ic)"
  by (induction k) (simp_all add: timer_tick_def timer_step_idle)

lemma timer_oneshot_run:
  assumes "timer_armed t" and "\<not> bit (t_ctrl t) 1" and "0 < unat (t_value t)"
  shows "(timer_tick ^^ k) (t, ic) =
     (if k < unat (t_value t) then (t\<lparr>t_value := t_value t - of_nat k\<rparr>, ic)
      else (timer_fired_once t, timer_signal t ic))"
proof (cases "k < unat (t_value t)")
  case True
  with assms(1) show ?thesis by (simp add: timer_running)
next
  case False
  then obtain j where "k = j + unat (t_value t)"
    by (metis add.commute le_Suc_ex not_less)
  moreover have "\<not> timer_armed (timer_fired_once t)"
    by (simp add: timer_armed_def timer_fired_once_def bit_simps)
  ultimately show ?thesis
    using assms False timer_period [OF assms(1,3), of ic]
    by (simp add: funpow_add timer_idle_forever)
qed

section \<open>Properties\<close>

text \<open>
  A one-shot timer armed with value \<open>v\<close> counts down one per tick, with no other effect, for
  the first \<open>v - 1\<close> ticks; at tick \<open>v\<close> it sets \<open>FIRED\<close>, disables itself and raises line 1 iff
  \<open>IRQ_ENABLE\<close> is set; after that no number of further ticks changes anything.
\<close>

theorem timer_oneshot:
  assumes "timer_armed t" and "\<not> bit (t_ctrl t) 1" and "0 < unat (t_value t)"
  shows "(timer_tick ^^ k) (t, ic) =
     (if k < unat (t_value t) then (t\<lparr>t_value := t_value t - of_nat k\<rparr>, ic)
      else (timer_fired_once t, timer_signal t ic))"
  by (rule timer_oneshot_run [OF assms])

theorem timer_oneshot_witness:
  "(timer_tick ^^ 10) (\<lparr>t_intc = SocRef, t_ctrl = 5, t_load = 10, t_value = 10, t_irq_status = 0\<rparr>,
      \<lparr>ic_enable = 0, ic_pending = 0, ic_active = 0, ic_perf = SocRef\<rparr>) =
    (\<lparr>t_intc = SocRef, t_ctrl = 4, t_load = 10, t_value = 0, t_irq_status = 1\<rparr>,
     \<lparr>ic_enable = 0, ic_pending = 2, ic_active = 0, ic_perf = SocRef\<rparr>)"
proof -
  let ?t = "\<lparr>t_intc = SocRef, t_ctrl = 5, t_load = 10, t_value = 10, t_irq_status = 0\<rparr>"
  have "timer_armed ?t" and "\<not> bit (t_ctrl ?t) 1" and "0 < unat (t_value ?t)"
    by (simp_all add: timer_armed_def bit_numeral_word_iff)
  from timer_oneshot [OF this, of 10] show ?thesis
    by (simp add: timer_fired_once_def timer_signal_def bit_numeral_word_iff soc_intc_raise_def)
qed

text \<open>
  C38. A periodic timer whose value is a full load \<open>L\<close> is back at the same value after every \<open>L\<close>
  ticks, having fired: after \<open>m * L + r\<close> ticks (\<open>r < L\<close>) the value is \<open>L - r\<close>, \<open>FIRED\<close> is set iff
  it was set before or \<open>m > 0\<close>, and line 1 has been raised iff \<open>m > 0\<close> and \<open>IRQ_ENABLE\<close> is set.
\<close>

theorem timer_periodic:
  assumes "timer_armed t" and "bit (t_ctrl t) 1" and "t_value t = t_load t"
    and "r < unat (t_load t)"
  shows "(timer_tick ^^ (m * unat (t_load t) + r)) (t, ic) =
     (t\<lparr>t_value := t_load t - of_nat r,
        t_irq_status := (if m = 0 then t_irq_status t else t_irq_status t OR 1)\<rparr>,
      if m = 0 then ic else timer_signal t ic)"
proof -
  let ?L = "unat (t_load t)"
  have whole: "(timer_tick ^^ (m * ?L)) (t, ic) =
      (t\<lparr>t_irq_status := (if m = 0 then t_irq_status t else t_irq_status t OR 1)\<rparr>,
       if m = 0 then ic else timer_signal t ic)"
  proof (induction m)
    case 0
    then show ?case by simp
  next
    case (Suc m)
    let ?t = "t\<lparr>t_irq_status := (if m = 0 then t_irq_status t else t_irq_status t OR 1)\<rparr>"
    let ?ic = "if m = 0 then ic else timer_signal t ic"
    have "timer_armed ?t" "0 < unat (t_value ?t)"
      using assms by (simp_all add: timer_armed_def)
    from timer_period [OF this, of ?ic]
    have "(timer_tick ^^ ?L) (?t, ?ic) = (t\<lparr>t_irq_status := t_irq_status t OR 1\<rparr>, timer_signal t ic)"
      using assms(2,3) by (cases t) (simp add: timer_signal_def raise_idem or.assoc)
    with Suc show ?case
      by (simp add: funpow_add)
  qed
  let ?t = "t\<lparr>t_irq_status := (if m = 0 then t_irq_status t else t_irq_status t OR 1)\<rparr>"
  have "timer_armed ?t" "r < unat (t_value ?t)"
    using assms by (simp_all add: timer_armed_def)
  from timer_running [OF this] whole show ?thesis
    using assms(3) by (simp add: add.commute [of _ r] funpow_add)
qed

theorem timer_periodic_witness:
  "t_value (fst ((timer_tick ^^ 12) (\<lparr>t_intc = SocRef, t_ctrl = 7, t_load = 5, t_value = 5,
      t_irq_status = 0\<rparr>, \<lparr>ic_enable = 0, ic_pending = 0, ic_active = 0, ic_perf = SocRef\<rparr>))) = 3"
proof -
  let ?t = "\<lparr>t_intc = SocRef, t_ctrl = 7, t_load = 5, t_value = 5, t_irq_status = 0\<rparr>"
  have "timer_armed ?t" and "bit (t_ctrl ?t) 1" and "t_value ?t = t_load ?t"
    and "2 < unat (t_load ?t)"
    by (simp_all add: timer_armed_def bit_numeral_word_iff)
  from timer_periodic [OF this, of 2] show ?thesis
    by simp
qed

end
