(* ===== verification/Regions.thy ===== *)
theory Regions
  imports Prelude
begin

text \<open>
  The map and capability vocabulary of \<open>firmware/include/mem_regions.h\<close> and
  \<open>firmware/include/dma_caps.h\<close>, shared by the SoC model and the firmware: regions and range
  checks, the lookup of a region, DMA capabilities, DMA-capable peripheral FIFOs, endpoint
  types and supported directions. A C table passed as a pointer and a count is a list (\<open>None\<close>
  for the null pointer), and a pointer that is tested against \<open>NULL\<close> is an \<open>option\<close>. The lemmas
  say what the checks mean over addresses as numbers.
\<close>

section \<open>Memory regions\<close>

datatype mem_type_t =
  MEM_TYPE_ROM | MEM_TYPE_SRAM | MEM_TYPE_DRAM | MEM_TYPE_MMIO | MEM_TYPE_PERIPHERAL

definition MEM_PERM_R :: u32 where "MEM_PERM_R = 4"
definition MEM_PERM_W :: u32 where "MEM_PERM_W = 2"
definition MEM_PERM_X :: u32 where "MEM_PERM_X = 1"

record memory_region =
  r_name :: string
  r_base :: u32
  r_size :: u32
  r_type :: mem_type_t
  r_perms :: u32

definition memory_region_contains :: "memory_region option \<Rightarrow> u32 \<Rightarrow> u32 \<Rightarrow> bool" where
  "memory_region_contains rp addr len =
     (case rp of
        None \<Rightarrow> False
      | Some r \<Rightarrow>
          if len = 0 then False
          else let e = (ucast addr :: u64) + (ucast len :: u64) in
            if e > 0x100000000 then False
            else r_base r \<le> addr \<and> e \<le> (ucast (r_base r) :: u64) + (ucast (r_size r) :: u64))"

definition memory_range_valid :: "memory_region option \<Rightarrow> u32 \<Rightarrow> u32 \<Rightarrow> bool" where
  "memory_range_valid rp addr len = (0 < len \<and> memory_region_contains rp addr len)"

definition memory_range_overflows :: "u32 \<Rightarrow> u32 \<Rightarrow> bool" where
  "memory_range_overflows addr len =
     ((ucast addr :: u64) + (ucast len :: u64) > 0x100000000)"

definition memory_range_overlaps :: "u32 \<Rightarrow> u32 \<Rightarrow> u32 \<Rightarrow> u32 \<Rightarrow> bool" where
  "memory_range_overlaps a_base a_len b_base b_len =
     (if a_len = 0 \<or> b_len = 0 then False
      else let a_end = (ucast a_base :: u64) + ucast a_len;
               b_end = (ucast b_base :: u64) + ucast b_len
           in (ucast a_base :: u64) < b_end \<and> (ucast b_base :: u64) < a_end)"

fun find_region_loop :: "memory_region list \<Rightarrow> u32 \<Rightarrow> u32 \<Rightarrow> memory_region option" where
  "find_region_loop [] addr len = None"
| "find_region_loop (r # rs) addr len =
     (if memory_region_contains (Some r) addr len then Some r else find_region_loop rs addr len)"

definition find_region :: "memory_region list option \<Rightarrow> u32 \<Rightarrow> u32 \<Rightarrow> memory_region option" where
  "find_region table addr len =
     (case table of None \<Rightarrow> None | Some rs \<Rightarrow> find_region_loop rs addr len)"

section \<open>DMA capabilities and endpoints\<close>

text \<open>The enumeration \<open>dma_addr_type_t\<close>, which the code uses through casts to \<open>int\<close>.\<close>

definition DMA_ADDR_MEM :: int where [simp]: "DMA_ADDR_MEM = 0"
definition DMA_ADDR_PERIPHERAL :: int where [simp]: "DMA_ADDR_PERIPHERAL = 1"
definition DMA_ADDR_DEVICE :: int where [simp]: "DMA_ADDR_DEVICE = 2"

text \<open>The role bits of a FIFO, \<open>1 << 0\<close> and \<open>1 << 1\<close>.\<close>

definition DMA_EP_SRC :: u32 where [simp]: "DMA_EP_SRC = 1"
definition DMA_EP_DST :: u32 where [simp]: "DMA_EP_DST = 2"

record dma_periph_ep =
  ep_name :: string
  ep_fifo_addr :: u32
  ep_roles :: u32

fun dma_periph_find_loop :: "dma_periph_ep list \<Rightarrow> u32 \<Rightarrow> dma_periph_ep option" where
  "dma_periph_find_loop [] addr = None"
| "dma_periph_find_loop (e # es) addr =
     (if ep_fifo_addr e = addr then Some e else dma_periph_find_loop es addr)"

definition dma_periph_find :: "dma_periph_ep list option \<Rightarrow> u32 \<Rightarrow> dma_periph_ep option" where
  "dma_periph_find table addr =
     (case table of None \<Rightarrow> None | Some es \<Rightarrow> dma_periph_find_loop es addr)"

record dma_caps =
  cap_alignment :: u32
  cap_max_transfer :: u32
  cap_ram_to_ram :: bool
  cap_mem_to_periph :: bool
  cap_periph_to_mem :: bool
  cap_interrupts :: bool
  cap_cancel :: bool

definition dma_endpoint_type :: "memory_region list option \<Rightarrow> u32 \<Rightarrow> u32 \<Rightarrow> int" where
  "dma_endpoint_type table addr len =
     (case find_region table addr len of
        None \<Rightarrow> - 1
      | Some r \<Rightarrow>
          if r_type r = MEM_TYPE_SRAM \<or> r_type r = MEM_TYPE_DRAM then DMA_ADDR_MEM
          else if r_type r = MEM_TYPE_MMIO \<or> r_type r = MEM_TYPE_PERIPHERAL
            then DMA_ADDR_PERIPHERAL
          else DMA_ADDR_DEVICE)"

definition dma_address_valid ::
    "memory_region list option \<Rightarrow> dma_caps option \<Rightarrow> u32 \<Rightarrow> u32 \<Rightarrow> int \<Rightarrow> bool" where
  "dma_address_valid table caps addr len type =
     (case caps of
        None \<Rightarrow> False
      | Some c \<Rightarrow>
          if len = 0 then False
          else if cap_alignment c > 1 \<and>
            (addr mod cap_alignment c \<noteq> 0 \<or> len mod cap_alignment c \<noteq> 0) then False
          else let actual = dma_endpoint_type table addr len in
            if actual < 0 then False
            else if type = DMA_ADDR_MEM then actual = DMA_ADDR_MEM
            else if type = DMA_ADDR_PERIPHERAL
              then actual = DMA_ADDR_PERIPHERAL \<or> actual = DMA_ADDR_DEVICE
            else if type = DMA_ADDR_DEVICE then actual = DMA_ADDR_DEVICE
            else False)"

definition dma_direction_supported :: "dma_caps option \<Rightarrow> int \<Rightarrow> int \<Rightarrow> bool" where
  "dma_direction_supported caps src_type dst_type =
     (case caps of
        None \<Rightarrow> False
      | Some c \<Rightarrow>
          if src_type = DMA_ADDR_MEM \<and> dst_type = DMA_ADDR_MEM then cap_ram_to_ram c
          else if src_type = DMA_ADDR_MEM \<and>
            (dst_type = DMA_ADDR_PERIPHERAL \<or> dst_type = DMA_ADDR_DEVICE) then cap_mem_to_periph c
          else if (src_type = DMA_ADDR_PERIPHERAL \<or> src_type = DMA_ADDR_DEVICE) \<and>
            dst_type = DMA_ADDR_MEM then cap_periph_to_mem c
          else False)"

section \<open>What the checks mean\<close>

lemma memory_region_contains_iff:
  "memory_region_contains (Some r) addr len \<longleftrightarrow>
     0 < unat len \<and> unat addr + unat len \<le> 4294967296 \<and>
     unat (r_base r) \<le> unat addr \<and> unat addr + unat len \<le> unat (r_base r) + unat (r_size r)"
  by (auto simp: memory_region_contains_def Let_def u64_limit word_le_nat_alt unat_eq_0
      word_less_nat_alt unat_gt_0)

lemma memory_region_contains_None [simp]: "\<not> memory_region_contains None addr len"
  by (simp add: memory_region_contains_def)

lemma memory_range_overflows_iff:
  "memory_range_overflows addr len \<longleftrightarrow> 4294967296 < unat addr + unat len"
  by (simp add: memory_range_overflows_def u64_limit)

lemma memory_range_overlaps_iff:
  "memory_range_overlaps a m b n \<longleftrightarrow>
     {unat a ..< unat a + unat m} \<inter> {unat b ..< unat b + unat n} \<noteq> {}"
proof -
  have "memory_range_overlaps a m b n \<longleftrightarrow>
      0 < unat m \<and> 0 < unat n \<and> unat a < unat b + unat n \<and> unat b < unat a + unat m"
    by (auto simp: memory_range_overlaps_def Let_def word_less_nat_alt unat_gt_0)
  also have "\<dots> \<longleftrightarrow> {unat a ..< unat a + unat m} \<inter> {unat b ..< unat b + unat n} \<noteq> {}"
    by (auto simp: set_eq_iff intro: exI [of _ "max (unat a) (unat b)"])
  finally show ?thesis .
qed

lemma find_region_loop_Some:
  "find_region_loop rs addr len = Some r \<Longrightarrow>
     r \<in> set rs \<and> memory_region_contains (Some r) addr len"
  by (induction rs) (auto split: if_splits)

lemma find_region_loop_None:
  "find_region_loop rs addr len = None \<longleftrightarrow>
     (\<forall>r \<in> set rs. \<not> memory_region_contains (Some r) addr len)"
  by (induction rs) auto

lemma dma_periph_find_loop_Some:
  "dma_periph_find_loop es addr = Some e \<Longrightarrow> e \<in> set es \<and> ep_fifo_addr e = addr"
  by (induction es) (auto split: if_splits)

lemma dma_periph_find_loop_None:
  "dma_periph_find_loop es addr = None \<longleftrightarrow> addr \<notin> ep_fifo_addr ` set es"
  by (induction es) auto

lemma dma_endpoint_type_range: "dma_endpoint_type table addr len \<in> {- 1, 0, 1, 2}"
  by (auto simp: dma_endpoint_type_def split: option.splits)

end
