(* ===== verification/Platform.thy ===== *)
theory Platform
  imports Regions
begin

text \<open>
  The frozen register map of \<open>firmware/include/soc_regs.h\<close> and the VLAB platform tables of
  \<open>firmware/platform/platform_vlab.c\<close>: the memory map, the DMA capabilities, the DMA-capable
  FIFOs and the interrupt assignment. The lemmas give the decode of the map as intervals of
  addresses and show that the table is a sound map: regions lie below 4 GiB, do not overlap and
  have distinct names.
\<close>

section \<open>The register map\<close>

definition VLAB_ROM_BASE :: u32 where [simp]: "VLAB_ROM_BASE = 0"
definition VLAB_SRAM_BASE :: u32 where [simp]: "VLAB_SRAM_BASE = 0x10000000"
definition VLAB_UART_BASE :: u32 where [simp]: "VLAB_UART_BASE = 0x20000000"
definition VLAB_TIMER_BASE :: u32 where [simp]: "VLAB_TIMER_BASE = 0x20001000"
definition VLAB_DMA_BASE :: u32 where [simp]: "VLAB_DMA_BASE = 0x20002000"
definition VLAB_INTC_BASE :: u32 where [simp]: "VLAB_INTC_BASE = 0x20003000"
definition VLAB_PERF_BASE :: u32 where [simp]: "VLAB_PERF_BASE = 0x20004000"
definition VLAB_IRQ_UART :: u32 where [simp]: "VLAB_IRQ_UART = 0"
definition VLAB_IRQ_TIMER :: u32 where [simp]: "VLAB_IRQ_TIMER = 1"
definition VLAB_IRQ_DMA :: u32 where [simp]: "VLAB_IRQ_DMA = 2"
definition VLAB_DMA_CTRL :: u32 where [simp]: "VLAB_DMA_CTRL = 0x2000200C"
definition VLAB_DMA_DST :: u32 where [simp]: "VLAB_DMA_DST = 0x20002004"
definition VLAB_DMA_ERR_CODE :: u32 where [simp]: "VLAB_DMA_ERR_CODE = 0x20002018"
definition VLAB_DMA_IRQ_CLEAR :: u32 where [simp]: "VLAB_DMA_IRQ_CLEAR = 0x20002014"
definition VLAB_DMA_LEN :: u32 where [simp]: "VLAB_DMA_LEN = 0x20002008"
definition VLAB_DMA_SRC :: u32 where [simp]: "VLAB_DMA_SRC = 0x20002000"
definition VLAB_DMA_STATUS :: u32 where [simp]: "VLAB_DMA_STATUS = 0x20002010"
definition VLAB_INTC_ACK :: u32 where [simp]: "VLAB_INTC_ACK = 0x20003008"
definition VLAB_INTC_ACTIVE :: u32 where [simp]: "VLAB_INTC_ACTIVE = 0x20003010"
definition VLAB_INTC_CLEAR :: u32 where [simp]: "VLAB_INTC_CLEAR = 0x2000300C"
definition VLAB_INTC_ENABLE :: u32 where [simp]: "VLAB_INTC_ENABLE = 0x20003000"
definition VLAB_INTC_PENDING :: u32 where [simp]: "VLAB_INTC_PENDING = 0x20003004"
definition VLAB_PERF_CTRL :: u32 where [simp]: "VLAB_PERF_CTRL = 0x20004014"
definition VLAB_PERF_CYCLES :: u32 where [simp]: "VLAB_PERF_CYCLES = 0x20004000"
definition VLAB_PERF_DMA_BYTES :: u32 where [simp]: "VLAB_PERF_DMA_BYTES = 0x20004008"
definition VLAB_PERF_IRQ_COUNT :: u32 where [simp]: "VLAB_PERF_IRQ_COUNT = 0x2000400C"
definition VLAB_PERF_MEM_ACC :: u32 where [simp]: "VLAB_PERF_MEM_ACC = 0x20004004"
definition VLAB_PERF_STALLS :: u32 where [simp]: "VLAB_PERF_STALLS = 0x20004010"
definition VLAB_TIMER_CTRL :: u32 where [simp]: "VLAB_TIMER_CTRL = 0x20001000"
definition VLAB_TIMER_IRQ_CLEAR :: u32 where [simp]: "VLAB_TIMER_IRQ_CLEAR = 0x20001010"
definition VLAB_TIMER_IRQ_STATUS :: u32 where [simp]: "VLAB_TIMER_IRQ_STATUS = 0x2000100C"
definition VLAB_TIMER_LOAD :: u32 where [simp]: "VLAB_TIMER_LOAD = 0x20001004"
definition VLAB_TIMER_VALUE :: u32 where [simp]: "VLAB_TIMER_VALUE = 0x20001008"
definition VLAB_UART_BAUDDIV :: u32 where [simp]: "VLAB_UART_BAUDDIV = 0x20000010"
definition VLAB_UART_CTRL :: u32 where [simp]: "VLAB_UART_CTRL = 0x2000000C"
definition VLAB_UART_RXDATA :: u32 where [simp]: "VLAB_UART_RXDATA = 0x20000004"
definition VLAB_UART_STATUS :: u32 where [simp]: "VLAB_UART_STATUS = 0x20000008"
definition VLAB_UART_TXDATA :: u32 where [simp]: "VLAB_UART_TXDATA = 0x20000000"
definition VLAB_UART_STATUS_TX_BUSY :: u32 where [simp]: "VLAB_UART_STATUS_TX_BUSY = 1"
definition VLAB_UART_STATUS_TX_EMPTY :: u32 where [simp]: "VLAB_UART_STATUS_TX_EMPTY = 2"
definition VLAB_UART_STATUS_RX_VALID :: u32 where [simp]: "VLAB_UART_STATUS_RX_VALID = 4"
definition VLAB_UART_CTRL_ENABLE :: u32 where [simp]: "VLAB_UART_CTRL_ENABLE = 1"
definition VLAB_TIMER_CTRL_ENABLE :: u32 where [simp]: "VLAB_TIMER_CTRL_ENABLE = 1"
definition VLAB_TIMER_CTRL_PERIODIC :: u32 where [simp]: "VLAB_TIMER_CTRL_PERIODIC = 2"
definition VLAB_TIMER_CTRL_IRQ_ENABLE :: u32 where [simp]: "VLAB_TIMER_CTRL_IRQ_ENABLE = 4"
definition VLAB_TIMER_IRQ_FIRED :: u32 where [simp]: "VLAB_TIMER_IRQ_FIRED = 1"
definition VLAB_DMA_CTRL_START :: u32 where [simp]: "VLAB_DMA_CTRL_START = 1"
definition VLAB_DMA_CTRL_IRQ_ENABLE :: u32 where [simp]: "VLAB_DMA_CTRL_IRQ_ENABLE = 2"
definition VLAB_DMA_STATUS_BUSY :: u32 where [simp]: "VLAB_DMA_STATUS_BUSY = 1"
definition VLAB_DMA_STATUS_DONE :: u32 where [simp]: "VLAB_DMA_STATUS_DONE = 2"
definition VLAB_DMA_STATUS_ERROR :: u32 where [simp]: "VLAB_DMA_STATUS_ERROR = 4"
definition VLAB_PERF_CTRL_ENABLE :: u32 where [simp]: "VLAB_PERF_CTRL_ENABLE = 1"
definition VLAB_PERF_CTRL_RESET :: u32 where [simp]: "VLAB_PERF_CTRL_RESET = 2"
definition VLAB_IRQ_NONE :: u32 where [simp]: "VLAB_IRQ_NONE = 0xFFFFFFFF"

section \<open>The platform tables\<close>

definition s_vlab_map :: "memory_region list" where
  "s_vlab_map =
    [\<lparr>r_name = ''rom'', r_base = VLAB_ROM_BASE, r_size = 16384, r_type = MEM_TYPE_ROM,
       r_perms = MEM_PERM_R OR MEM_PERM_X\<rparr>,
     \<lparr>r_name = ''sram'', r_base = VLAB_SRAM_BASE, r_size = 65536, r_type = MEM_TYPE_SRAM,
       r_perms = MEM_PERM_R OR MEM_PERM_W\<rparr>,
     \<lparr>r_name = ''uart'', r_base = VLAB_UART_BASE, r_size = 4096, r_type = MEM_TYPE_MMIO,
       r_perms = MEM_PERM_R OR MEM_PERM_W\<rparr>,
     \<lparr>r_name = ''timer'', r_base = VLAB_TIMER_BASE, r_size = 4096, r_type = MEM_TYPE_MMIO,
       r_perms = MEM_PERM_R OR MEM_PERM_W\<rparr>,
     \<lparr>r_name = ''dma'', r_base = VLAB_DMA_BASE, r_size = 4096, r_type = MEM_TYPE_MMIO,
       r_perms = MEM_PERM_R OR MEM_PERM_W\<rparr>,
     \<lparr>r_name = ''intc'', r_base = VLAB_INTC_BASE, r_size = 4096, r_type = MEM_TYPE_MMIO,
       r_perms = MEM_PERM_R OR MEM_PERM_W\<rparr>,
     \<lparr>r_name = ''perf'', r_base = VLAB_PERF_BASE, r_size = 4096, r_type = MEM_TYPE_MMIO,
       r_perms = MEM_PERM_R OR MEM_PERM_W\<rparr>]"

definition s_vlab_dma_caps :: dma_caps where
  "s_vlab_dma_caps =
    \<lparr>cap_alignment = 4, cap_max_transfer = 16384, cap_ram_to_ram = True,
     cap_mem_to_periph = True, cap_periph_to_mem = True, cap_interrupts = True,
     cap_cancel = False\<rparr>"

definition s_vlab_dma_periphs :: "dma_periph_ep list" where
  "s_vlab_dma_periphs =
    [\<lparr>ep_name = ''uart-tx'', ep_fifo_addr = VLAB_UART_TXDATA, ep_roles = DMA_EP_DST\<rparr>,
     \<lparr>ep_name = ''uart-rx'', ep_fifo_addr = VLAB_UART_RXDATA, ep_roles = DMA_EP_SRC\<rparr>]"

record irq_map =
  uart_line :: u32
  timer_line :: u32
  dma_line :: u32

definition s_vlab_irq_map :: irq_map where
  "s_vlab_irq_map =
    \<lparr>uart_line = VLAB_IRQ_UART, timer_line = VLAB_IRQ_TIMER, dma_line = VLAB_IRQ_DMA\<rparr>"

text \<open>The accessors; the count each stores through its pointer is the length of the list.\<close>

definition vlab_memory_map :: "memory_region list" where
  "vlab_memory_map = s_vlab_map"

definition vlab_dma_caps :: dma_caps where
  "vlab_dma_caps = s_vlab_dma_caps"

definition vlab_dma_periph_eps :: "dma_periph_ep list" where
  "vlab_dma_periph_eps = s_vlab_dma_periphs"

definition vlab_irq_map :: irq_map where
  "vlab_irq_map = s_vlab_irq_map"

lemmas vlab_map_defs = vlab_memory_map_def s_vlab_map_def
lemmas vlab_periph_defs = vlab_dma_periph_eps_def s_vlab_dma_periphs_def
lemmas vlab_caps_defs = vlab_dma_caps_def s_vlab_dma_caps_def

section \<open>The VLAB map as intervals\<close>

text \<open>The first region that contains a range of the VLAB map, decided by the bounds.\<close>

definition vlab_region_bounds :: "(nat \<times> nat) list" where
  "vlab_region_bounds =
    [(0, 0x4000), (0x10000000, 0x10010000), (0x20000000, 0x20001000), (0x20001000, 0x20002000),
     (0x20002000, 0x20003000), (0x20003000, 0x20004000), (0x20004000, 0x20005000)]"

lemma vlab_map_bounds:
  "map (\<lambda>r. (unat (r_base r), unat (r_base r) + unat (r_size r))) vlab_memory_map =
     vlab_region_bounds"
  by (simp add: vlab_map_defs vlab_region_bounds_def)

lemma length_vlab_map [simp]: "length vlab_memory_map = 7"
  by (simp add: vlab_map_defs)

lemma find_region_vlab_sram:
  assumes "find_region (Some vlab_memory_map) addr len = Some r"
    and "r_type r = MEM_TYPE_SRAM \<or> r_type r = MEM_TYPE_DRAM"
  shows "0x10000000 \<le> unat addr \<and> unat addr + unat len \<le> 0x10010000 \<and> 0 < unat len"
  using assms
  by (auto simp: find_region_def vlab_map_defs memory_region_contains_iff split: if_splits)

lemma find_region_vlab_in_sram:
  assumes "0x10000000 \<le> unat addr" and "unat addr + unat len \<le> 0x10010000" and "0 < unat len"
  shows "\<exists>r. find_region (Some vlab_memory_map) addr len = Some r \<and> r_type r = MEM_TYPE_SRAM"
  using assms by (simp add: find_region_def vlab_map_defs memory_region_contains_iff)

lemma vlab_map_nth:
  "vlab_memory_map ! 0 = \<lparr>r_name = ''rom'', r_base = 0, r_size = 16384,
     r_type = MEM_TYPE_ROM, r_perms = MEM_PERM_R OR MEM_PERM_X\<rparr>"
  "vlab_memory_map ! 1 = \<lparr>r_name = ''sram'', r_base = 0x10000000, r_size = 65536,
     r_type = MEM_TYPE_SRAM, r_perms = MEM_PERM_R OR MEM_PERM_W\<rparr>"
  by (simp_all add: vlab_map_defs)

text \<open>
  The VLAB memory map is sound: every region is non-empty and ends below 4 GiB, and two
  different entries of the table never overlap, so an address belongs to at most one region.
\<close>

theorem vlab_map_disjoint:
  "list_all (\<lambda>r. 0 < r_size r \<and> \<not> memory_range_overflows (r_base r) (r_size r)) vlab_memory_map \<and>
   sorted_wrt (\<lambda>r q. \<not> memory_range_overlaps (r_base r) (r_size r) (r_base q) (r_size q)) vlab_memory_map"
  by (simp add: vlab_map_defs memory_range_overlaps_def memory_range_overflows_def)

end
