(* ===== verification/Dma.thy ===== *)
theory Dma
  imports Intc Platform
begin

text \<open>
  The single-channel DMA engine of \<open>soc_c/src/soc_dma.c\<close>. The record keeps the fields of
  \<open>soc_dma_t\<close>; the reader and writer callbacks are functions over an abstract context \<open>'m\<close>
  (the \<open>mem_ctx\<close> pointer), which the step takes and returns. A region or FIFO table is a pointer
  and a count in the code and an optional list here. \<open>malloc\<close> is an argument of the step: it may
  return no buffer, and says nothing about the bytes of the buffer it returns.

  The lemmas split the engine in two: what a START decides (\<open>dma_check\<close>, the error code as a
  function of the configuration and the three registers) and what the ticks after it do (an
  instance of \<open>countdown\<close>). The locale \<open>dma_port\<close> is what the engine relies on in its two
  callbacks; its lemmas give the result of the last tick.
\<close>

definition SOC_DMA_SRC_OFF :: u32 where [simp]: "SOC_DMA_SRC_OFF = 0x00"
definition SOC_DMA_DST_OFF :: u32 where [simp]: "SOC_DMA_DST_OFF = 0x04"
definition SOC_DMA_LEN_OFF :: u32 where [simp]: "SOC_DMA_LEN_OFF = 0x08"
definition SOC_DMA_CTRL_OFF :: u32 where [simp]: "SOC_DMA_CTRL_OFF = 0x0C"
definition SOC_DMA_STATUS_OFF :: u32 where [simp]: "SOC_DMA_STATUS_OFF = 0x10"
definition SOC_DMA_IRQ_CLEAR_OFF :: u32 where [simp]: "SOC_DMA_IRQ_CLEAR_OFF = 0x14"
definition SOC_DMA_ERR_CODE_OFF :: u32 where [simp]: "SOC_DMA_ERR_CODE_OFF = 0x18"
definition SOC_DMA_CTRL_START :: u32 where [simp]: "SOC_DMA_CTRL_START = 1"
definition SOC_DMA_CTRL_IRQ_ENABLE :: u32 where [simp]: "SOC_DMA_CTRL_IRQ_ENABLE = 2"
definition SOC_DMA_STATUS_BUSY :: u32 where [simp]: "SOC_DMA_STATUS_BUSY = 1"
definition SOC_DMA_STATUS_DONE :: u32 where [simp]: "SOC_DMA_STATUS_DONE = 2"
definition SOC_DMA_STATUS_ERROR :: u32 where [simp]: "SOC_DMA_STATUS_ERROR = 4"
definition SOC_DMA_ERR_NONE :: u32 where [simp]: "SOC_DMA_ERR_NONE = 0"
definition SOC_DMA_ERR_ADDR :: u32 where [simp]: "SOC_DMA_ERR_ADDR = 1"
definition SOC_DMA_ERR_ALIGN :: u32 where [simp]: "SOC_DMA_ERR_ALIGN = 2"
definition SOC_DMA_ERR_LEN :: u32 where [simp]: "SOC_DMA_ERR_LEN = 3"
definition SOC_DMA_ERR_UNSUPPORTED :: u32 where [simp]: "SOC_DMA_ERR_UNSUPPORTED = 4"
definition SOC_DMA_IRQ_LINE :: int where [simp]: "SOC_DMA_IRQ_LINE = 2"

text \<open>The callbacks: the buffer is passed in and returned, as is the context.\<close>

type_synonym 'm soc_dma_reader_t = "'m \<Rightarrow> u32 \<Rightarrow> u32 \<Rightarrow> u8 list \<Rightarrow> (soc_err + unit) \<times> u8 list \<times> 'm"
type_synonym 'm soc_dma_writer_t = "'m \<Rightarrow> u32 \<Rightarrow> u8 list \<Rightarrow> u32 \<Rightarrow> (soc_err + unit) \<times> 'm"

record 'm soc_dma_t =
  d_latency_per_word :: u32
  d_burst :: u32
  d_regions :: "memory_region list option"
  d_periph_eps :: "dma_periph_ep list option"
  d_caps :: dma_caps
  d_irq_line :: int
  d_intc :: soc_ref
  d_perf :: soc_ref
  d_reader :: "'m soc_dma_reader_t option"
  d_writer :: "'m soc_dma_writer_t option"
  d_src :: u32
  d_dst :: u32
  d_length :: u32
  d_ctrl :: u32
  d_busy :: bool
  d_done :: bool
  d_error :: bool
  d_err_code :: u32
  d_remaining :: int
  d_irq_enable_latched :: bool
  d_fault_stuck_busy :: bool

text \<open>
  Endpoint classes: 0 memory, 1 peripheral, -1 unmapped or overflowing, -2 mapped but not
  DMA-capable. A null table with a positive count cannot occur: \<open>soc_dma_init\<close> forces the count
  of a null table to zero.
\<close>

definition soc_endpoint_class ::
    "memory_region list option \<Rightarrow> dma_periph_ep list option \<Rightarrow> u32 \<Rightarrow> u32 \<Rightarrow> int" where
  "soc_endpoint_class regions eps addr len =
     (if eps \<noteq> None then
        (if dma_periph_find eps addr \<noteq> None then 1
         else case find_region regions addr len of
             None \<Rightarrow> - 1
           | Some r \<Rightarrow>
               if r_type r = MEM_TYPE_SRAM \<or> r_type r = MEM_TYPE_DRAM then 0 else - 2)
      else dma_endpoint_type regions addr len)"

text \<open>Without capabilities only five of the seven fields of \<open>caps\<close> are assigned.\<close>

definition soc_dma_init ::
    "'m soc_dma_t \<Rightarrow> u32 \<Rightarrow> u32 \<Rightarrow> memory_region list option \<Rightarrow> dma_periph_ep list option \<Rightarrow>
      dma_caps option \<Rightarrow> int \<Rightarrow> soc_ref \<Rightarrow> soc_ref \<Rightarrow> 'm soc_dma_reader_t option \<Rightarrow>
      'm soc_dma_writer_t option \<Rightarrow> 'm soc_dma_t" where
  "soc_dma_init d latency_per_word burst regions periph_eps caps irq_line intc perf reader writer =
     d\<lparr>d_latency_per_word := (if latency_per_word > 0 then latency_per_word else 1),
       d_burst := (if burst > 0 then burst else 1),
       d_regions := regions, d_periph_eps := periph_eps,
       d_caps := (case caps of
           Some c \<Rightarrow> c
         | None \<Rightarrow> (d_caps d)\<lparr>cap_alignment := 4, cap_max_transfer := 0, cap_ram_to_ram := True,
             cap_mem_to_periph := False, cap_periph_to_mem := False\<rparr>),
       d_irq_line := irq_line, d_intc := intc, d_perf := perf, d_reader := reader,
       d_writer := writer, d_src := 0, d_dst := 0, d_length := 0, d_ctrl := 0, d_busy := False,
       d_done := False, d_error := False, d_err_code := SOC_DMA_ERR_NONE, d_remaining := 0,
       d_irq_enable_latched := False, d_fault_stuck_busy := False\<rparr>"

definition soc_dma_reset :: "'m soc_dma_t \<Rightarrow> 'm soc_dma_t" where
  "soc_dma_reset d =
     d\<lparr>d_src := 0, d_dst := 0, d_length := 0, d_ctrl := 0, d_busy := False, d_done := False,
       d_error := False, d_err_code := SOC_DMA_ERR_NONE, d_remaining := 0,
       d_irq_enable_latched := False, d_fault_stuck_busy := False\<rparr>"

definition soc_dma_status :: "'m soc_dma_t \<Rightarrow> u32" where
  "soc_dma_status d =
     (let s = 0;
          s1 = (if d_busy d then s OR SOC_DMA_STATUS_BUSY else s);
          s2 = (if d_done d then s1 OR SOC_DMA_STATUS_DONE else s1)
      in if d_error d then s2 OR SOC_DMA_STATUS_ERROR else s2)"

definition soc_dma_read :: "'m soc_dma_t \<Rightarrow> u32 \<Rightarrow> (soc_err + u32) \<times> 'm soc_dma_t" where
  "soc_dma_read d offset =
     (if offset = SOC_DMA_SRC_OFF then (Inr (d_src d), d)
      else if offset = SOC_DMA_DST_OFF then (Inr (d_dst d), d)
      else if offset = SOC_DMA_LEN_OFF then (Inr (d_length d), d)
      else if offset = SOC_DMA_CTRL_OFF then (Inr (d_ctrl d), d)
      else if offset = SOC_DMA_STATUS_OFF then (Inr (soc_dma_status d), d)
      else if offset = SOC_DMA_ERR_CODE_OFF then (Inr (d_err_code d), d)
      else if offset = SOC_DMA_IRQ_CLEAR_OFF then (Inl SOC_ERR_BUS, d)
      else (Inl SOC_ERR_BUS, d))"

definition soc_dma_fail ::
    "'m soc_dma_t \<Rightarrow> soc_intc_t \<Rightarrow> u32 \<Rightarrow> 'm soc_dma_t \<times> soc_intc_t" where
  "soc_dma_fail d ic code =
     (d\<lparr>d_busy := False, d_done := False, d_error := True, d_err_code := code\<rparr>,
      if d_irq_enable_latched d \<and> d_intc d \<noteq> NullRef then soc_intc_raise ic (d_irq_line d) else ic)"

definition soc_dma_start ::
    "'m soc_dma_t \<Rightarrow> soc_intc_t \<Rightarrow> soc_perf_t \<Rightarrow> bool \<Rightarrow> 'm soc_dma_t \<times> soc_intc_t \<times> soc_perf_t" where
  "soc_dma_start d ic p irq_enable =
     (if d_busy d then (d, ic, if d_perf d \<noteq> NullRef then soc_perf_count_stall p 1 else p)
      else
        let d1 = d\<lparr>d_irq_enable_latched := irq_enable, d_done := False, d_error := False,
                   d_err_code := SOC_DMA_ERR_NONE\<rparr>;
            fail = (\<lambda>code. let (d', ic') = soc_dma_fail d1 ic code in (d', ic', p));
            align = (if cap_alignment (d_caps d1) > 1 then cap_alignment (d_caps d1) else 1)
        in
        if d_length d1 = 0 \<or> (align > 1 \<and> d_length d1 mod align \<noteq> 0) then fail SOC_DMA_ERR_LEN
        else if align > 1 \<and> (d_src d1 mod align \<noteq> 0 \<or> d_dst d1 mod align \<noteq> 0)
          then fail SOC_DMA_ERR_ALIGN
        else if cap_max_transfer (d_caps d1) \<noteq> 0 \<and> d_length d1 > cap_max_transfer (d_caps d1)
          then fail SOC_DMA_ERR_UNSUPPORTED
        else
          let src_type = soc_endpoint_class (d_regions d1) (d_periph_eps d1) (d_src d1) (d_length d1);
              dst_type = soc_endpoint_class (d_regions d1) (d_periph_eps d1) (d_dst d1) (d_length d1)
          in
          if src_type < 0 \<or> dst_type < 0
            then fail (if src_type = - 1 \<or> dst_type = - 1 then SOC_DMA_ERR_ADDR
                       else SOC_DMA_ERR_UNSUPPORTED)
          else if d_periph_eps d1 \<noteq> None \<and>
            ((case dma_periph_find (d_periph_eps d1) (d_src d1) of
                None \<Rightarrow> False | Some s_ep \<Rightarrow> ep_roles s_ep AND DMA_EP_SRC = 0) \<or>
             (case dma_periph_find (d_periph_eps d1) (d_dst d1) of
                None \<Rightarrow> False | Some d_ep \<Rightarrow> ep_roles d_ep AND DMA_EP_DST = 0))
            then fail SOC_DMA_ERR_UNSUPPORTED
          else if \<not> dma_direction_supported (Some (d_caps d1)) src_type dst_type
            then fail SOC_DMA_ERR_UNSUPPORTED
          else
            let words = (d_length d1 + 3) div 4;
                bursts = (words + d_burst d1 - 1) div d_burst d1;
                remaining = i32_of_u32 (words * d_latency_per_word d1 + (bursts - 1))
            in (d1\<lparr>d_busy := True, d_remaining := (if remaining < 1 then 1 else remaining)\<rparr>, ic, p))"

definition soc_dma_write ::
    "'m soc_dma_t \<Rightarrow> soc_intc_t \<Rightarrow> soc_perf_t \<Rightarrow> u32 \<Rightarrow> u32 \<Rightarrow>
      (soc_err + unit) \<times> 'm soc_dma_t \<times> soc_intc_t \<times> soc_perf_t" where
  "soc_dma_write d ic p offset value =
     (if offset = SOC_DMA_SRC_OFF then (Inr (), d\<lparr>d_src := value\<rparr>, ic, p)
      else if offset = SOC_DMA_DST_OFF then (Inr (), d\<lparr>d_dst := value\<rparr>, ic, p)
      else if offset = SOC_DMA_LEN_OFF then (Inr (), d\<lparr>d_length := value\<rparr>, ic, p)
      else if offset = SOC_DMA_CTRL_OFF then
        (let irq_en = (value AND SOC_DMA_CTRL_IRQ_ENABLE \<noteq> 0);
             (d', ic', p') = (if value AND SOC_DMA_CTRL_START \<noteq> 0
                              then soc_dma_start d ic p irq_en else (d, ic, p))
         in (Inr (), d'\<lparr>d_ctrl := (value AND NOT SOC_DMA_CTRL_START) OR
                              (if irq_en then SOC_DMA_CTRL_IRQ_ENABLE else 0)\<rparr>, ic', p'))
      else if offset = SOC_DMA_IRQ_CLEAR_OFF then
        (Inr (), d\<lparr>d_done := False, d_error := False, d_err_code := SOC_DMA_ERR_NONE\<rparr>, ic, p)
      else if offset = SOC_DMA_STATUS_OFF \<or> offset = SOC_DMA_ERR_CODE_OFF
        then (Inl SOC_ERR_BUS, d, ic, p)
      else (Inl SOC_ERR_BUS, d, ic, p))"

definition soc_dma_step ::
    "(nat \<Rightarrow> u8 list option) \<Rightarrow> 'm soc_dma_t \<Rightarrow> soc_intc_t \<Rightarrow> soc_perf_t \<Rightarrow> 'm \<Rightarrow>
      'm soc_dma_t \<times> soc_intc_t \<times> soc_perf_t \<times> 'm" where
  "soc_dma_step malloc d ic p m =
     (if \<not> d_busy d then (d, ic, p, m)
      else if d_fault_stuck_busy d then (d, ic, p, m)
      else
        let d1 = d\<lparr>d_remaining := d_remaining d - 1\<rparr> in
        if d_remaining d1 > 0 then (d1, ic, p, m)
        else case (d_reader d1, d_writer d1) of
            (Some reader, Some writer) \<Rightarrow>
              (case malloc (if d_length d1 \<noteq> 0 then unat (d_length d1) else 1) of
                 None \<Rightarrow> (d1, ic, p, m)
               | Some tmp \<Rightarrow>
                   let failed = d1\<lparr>d_busy := False, d_done := False, d_error := True,
                                   d_err_code := SOC_DMA_ERR_ADDR\<rparr>;
                       raised = (if d_irq_enable_latched d1 \<and> d_intc d1 \<noteq> NullRef
                                 then soc_intc_raise ic (d_irq_line d1) else ic);
                       (rc, tmp1, m1) = reader m (d_src d1) (d_length d1) tmp
                   in if rc \<noteq> Inr () then (failed, raised, p, m1)
                      else
                        let (rc2, m2) = writer m1 (d_dst d1) tmp1 (d_length d1) in
                        if rc2 \<noteq> Inr () then (failed, raised, p, m2)
                        else (d1\<lparr>d_busy := False, d_done := True, d_error := False\<rparr>, raised,
                              if d_perf d1 \<noteq> NullRef then soc_perf_count_dma p (d_length d1) else p,
                              m2))
          | _ \<Rightarrow> (d1, ic, p, m))"

section \<open>What a START decides\<close>

text \<open>
  The error code a START ends with, 0 when it is accepted, as a function of the configuration
  and the request alone: the common specification of the engine and of the firmware driver.
\<close>

definition dma_check ::
    "memory_region list option \<Rightarrow> dma_periph_ep list option \<Rightarrow> dma_caps \<Rightarrow> u32 \<Rightarrow> u32 \<Rightarrow> u32 \<Rightarrow> u32" where
  "dma_check regions eps caps src dst len =
     (let a = cap_alignment caps;
          s = soc_endpoint_class regions eps src len;
          t = soc_endpoint_class regions eps dst len;
          role = (\<lambda>addr b. case dma_periph_find eps addr of None \<Rightarrow> True | Some e \<Rightarrow> bit (ep_roles e) b)
      in if len = 0 \<or> (1 < a \<and> len mod a \<noteq> 0) then 3
         else if 1 < a \<and> (src mod a \<noteq> 0 \<or> dst mod a \<noteq> 0) then 2
         else if cap_max_transfer caps \<noteq> 0 \<and> cap_max_transfer caps < len then 4
         else if s = - 1 \<or> t = - 1 then 1
         else if s < 0 \<or> t < 0 \<or> \<not> role src 0 \<or> \<not> role dst 1 \<or>
           \<not> dma_direction_supported (Some caps) s t then 4
         else 0)"

definition dma_req_check :: "'m soc_dma_t \<Rightarrow> u32" where
  "dma_req_check d =
     dma_check (d_regions d) (d_periph_eps d) (d_caps d) (d_src d) (d_dst d) (d_length d)"

text \<open>The number of ticks of a transfer, with the arithmetic of the code.\<close>

definition dma_ticks :: "u32 \<Rightarrow> u32 \<Rightarrow> u32 \<Rightarrow> int" where
  "dma_ticks lat burst len =
     (let words = (len + 3) div 4; bursts = (words + burst - 1) div burst
      in max 1 (i32_of_u32 (words * lat + (bursts - 1))))"

text \<open>The interrupt controller after the engine signals, if the interrupt was enabled at START.\<close>

definition dma_signal :: "'m soc_dma_t \<Rightarrow> soc_intc_t \<Rightarrow> soc_intc_t" where
  "dma_signal d ic =
     (if d_irq_enable_latched d \<and> d_intc d \<noteq> NullRef then soc_intc_raise ic (d_irq_line d) else ic)"

definition dma_started :: "'m soc_dma_t \<Rightarrow> bool \<Rightarrow> 'm soc_dma_t" where
  "dma_started d irq =
     d\<lparr>d_irq_enable_latched := irq, d_done := False, d_error := False, d_err_code := 0,
       d_busy := True, d_remaining := dma_ticks (d_latency_per_word d) (d_burst d) (d_length d)\<rparr>"

definition dma_refused :: "'m soc_dma_t \<Rightarrow> bool \<Rightarrow> u32 \<Rightarrow> 'm soc_dma_t" where
  "dma_refused d irq code =
     d\<lparr>d_irq_enable_latched := irq, d_busy := False, d_done := False, d_error := True,
       d_err_code := code\<rparr>"

lemma dma_periph_find_null [simp]: "dma_periph_find None addr = None"
  by (simp add: dma_periph_find_def)

lemma max_1_if: "(if (x :: int) < 1 then 1 else x) = max 1 x"
  by simp

lemma dma_start_busy:
  "d_busy d \<Longrightarrow> soc_dma_start d ic p irq =
     (d, ic, if d_perf d \<noteq> NullRef then soc_perf_count_stall p 1 else p)"
  by (simp add: soc_dma_start_def)

lemma first_failure:
  assumes "una \<Longrightarrow> neg"
  shows "(if c3 then F 3 else if c2 then F 2 else if c4 then F 4
      else if neg then F (if una then 1 else 4) else if role then F 4 else if dir then F 4 else ok) =
    (let c = (if c3 then 3 else if c2 then 2 else if c4 then 4 else if una then 1
        else if neg \<or> role \<or> dir then 4 else 0 :: u32) in if c = 0 then ok else F c)"
  using assms by (auto simp: Let_def)

lemma dma_start_idle:
  assumes "\<not> d_busy d"
  shows "soc_dma_start d ic p irq =
     (if dma_req_check d = 0 then (dma_started d irq, ic, p)
      else (dma_refused d irq (dma_req_check d), dma_signal (d\<lparr>d_irq_enable_latched := irq\<rparr>) ic, p))"
proof -
  let ?a = "cap_alignment (d_caps d)" and ?eps = "d_periph_eps d"
  let ?s = "soc_endpoint_class (d_regions d) ?eps (d_src d) (d_length d)"
  let ?t = "soc_endpoint_class (d_regions d) ?eps (d_dst d) (d_length d)"
  let ?r = "\<lambda>addr b. case dma_periph_find ?eps addr of None \<Rightarrow> True | Some e \<Rightarrow> bit (ep_roles e) b"
  let ?fail = "\<lambda>c. (dma_refused d irq c, dma_signal (d\<lparr>d_irq_enable_latched := irq\<rparr>) ic, p)"
  have "soc_dma_start d ic p irq =
      (if d_length d = 0 \<or> (1 < ?a \<and> d_length d mod ?a \<noteq> 0) then ?fail 3
       else if 1 < ?a \<and> (d_src d mod ?a \<noteq> 0 \<or> d_dst d mod ?a \<noteq> 0) then ?fail 2
       else if cap_max_transfer (d_caps d) \<noteq> 0 \<and> cap_max_transfer (d_caps d) < d_length d then ?fail 4
       else if ?s < 0 \<or> ?t < 0 then ?fail (if ?s = - 1 \<or> ?t = - 1 then 1 else 4)
       else if \<not> ?r (d_src d) 0 \<or> \<not> ?r (d_dst d) 1 then ?fail 4
       else if \<not> dma_direction_supported (Some (d_caps d)) ?s ?t then ?fail 4
       else (dma_started d irq, ic, p))"
    using assms
    by (cases "1 < ?a"; cases "d_periph_eps d"; cases "dma_periph_find ?eps (d_src d)";
        cases "dma_periph_find ?eps (d_dst d)")
      (simp_all add: soc_dma_start_def Let_def soc_dma_fail_def dma_refused_def dma_signal_def
        dma_started_def dma_ticks_def max_1_if
        split del: if_split cong: if_cong)
  also have "\<dots> = (if dma_req_check d = 0 then (dma_started d irq, ic, p) else ?fail (dma_req_check d))"
    by (subst first_failure, fastforce)
      (simp only: dma_req_check_def dma_check_def Let_def disj_assoc)
  finally show ?thesis .
qed

section \<open>Registers\<close>

text \<open>
  The invariant of the engine: at most one of BUSY, DONE and ERROR is set, an error code is
  latched exactly in the ERROR state and names a documented error, and the configuration that
  \<open>soc_dma_init\<close> sanitises stays positive.
\<close>

definition dma_wf :: "'m soc_dma_t \<Rightarrow> bool" where
  "dma_wf d \<longleftrightarrow> \<not> (d_busy d \<and> d_done d) \<and> \<not> (d_busy d \<and> d_error d) \<and> \<not> (d_done d \<and> d_error d) \<and>
     d_error d = (d_err_code d \<noteq> 0) \<and> d_err_code d \<in> {0, 1, 2, 3, 4} \<and>
     0 < unat (d_latency_per_word d) \<and> 0 < unat (d_burst d) \<and>
     d_intc d = SocRef \<and> d_perf d = SocRef"

lemma dma_check_range: "dma_check rs eps c s t n \<in> {0, 1, 2, 3, 4}"
  by (simp add: dma_check_def Let_def)

lemma dma_init_wf [wf_intros]:
  "dma_wf (soc_dma_init d lat burst rs eps caps line SocRef SocRef rd wr)"
  "dma_wf d \<Longrightarrow> dma_wf (soc_dma_reset d)"
  by (simp_all add: dma_wf_def soc_dma_init_def soc_dma_reset_def unat_gt_0 word_gt_0)

lemma dma_started_wf [wf_intros]: "dma_wf d \<Longrightarrow> dma_wf (dma_started d irq)"
  by (simp add: dma_wf_def dma_started_def)

lemma dma_refused_wf [wf_intros]:
  "dma_wf d \<Longrightarrow> dma_req_check d \<noteq> 0 \<Longrightarrow> dma_wf (dma_refused d irq (dma_req_check d))"
  using dma_check_range [of "d_regions d" "d_periph_eps d" "d_caps d" "d_src d" "d_dst d" "d_length d"]
  by (simp add: dma_wf_def dma_refused_def dma_req_check_def)

lemma dma_signal_wf [wf_intros]: "intc_wf ic \<Longrightarrow> intc_wf (dma_signal d ic)"
  by (simp add: dma_signal_def raise_wf)

lemma dma_start_wf [wf_intros]:
  assumes "dma_wf d" and "intc_wf ic" and "perf_wf p" and "soc_dma_start d ic p irq = (d', ic', p')"
  shows "dma_wf d' \<and> intc_wf ic' \<and> perf_wf p'"
proof (cases "d_busy d")
  case True
  with assms show ?thesis by (auto simp: dma_start_busy perf_count_wf)
next
  case False
  show ?thesis
    using assms dma_start_idle [OF False, of ic p irq]
    by (cases "dma_req_check d = 0") (auto intro: wf_intros)
qed

lemma dma_ctrl_wf [simp]: "dma_wf (d\<lparr>d_ctrl := v\<rparr>) = dma_wf d"
  by (simp add: dma_wf_def)

text \<open>The four outcomes of a write, one lemma each.\<close>

lemma dma_write_ctrl:
  "soc_dma_write d ic p SOC_DMA_CTRL_OFF v =
     (let (d', ic', p') = (if bit v 0 then soc_dma_start d ic p (bit v 1) else (d, ic, p))
      in (Inr (), d'\<lparr>d_ctrl := (v AND NOT 1) OR (if bit v 1 then 2 else 0)\<rparr>, ic', p'))"
  by (simp add: soc_dma_write_def Let_def)

lemma dma_write_wf [wf_intros]:
  assumes "dma_wf d" and "intc_wf ic" and "perf_wf p"
    and "soc_dma_write d ic p off v = (rc, d', ic', p')"
  shows "dma_wf d' \<and> intc_wf ic' \<and> perf_wf p'"
proof (cases "off = SOC_DMA_CTRL_OFF")
  case True
  obtain d1 ic1 p1 where r:
      "(if bit v 0 then soc_dma_start d ic p (bit v 1) else (d, ic, p)) = (d1, ic1, p1)"
    by (cases "if bit v 0 then soc_dma_start d ic p (bit v 1) else (d, ic, p)") auto
  then have "dma_wf d1 \<and> intc_wf ic1 \<and> perf_wf p1"
    using assms(1-3) dma_start_wf [OF assms(1-3)] by (auto split: if_splits)
  then show ?thesis
    using assms(4) r by (auto simp: True dma_write_ctrl [simplified] Let_def)
next
  case False
  have "dma_wf (d\<lparr>d_src := v\<rparr>)" "dma_wf (d\<lparr>d_dst := v\<rparr>)" "dma_wf (d\<lparr>d_length := v\<rparr>)"
      "dma_wf (d\<lparr>d_done := False, d_error := False, d_err_code := 0\<rparr>)"
    using assms(1) by (auto simp: dma_wf_def)
  then have "dma_wf (fst (snd (soc_dma_write d ic p off v)))"
      "snd (snd (soc_dma_write d ic p off v)) = (ic, p)"
    using False assms(1) by (simp_all add: soc_dma_write_def)
  with assms show ?thesis by simp
qed

lemma dma_read_pure: "snd (soc_dma_read d off) = d"
  by (simp add: soc_dma_read_def)

lemma dma_read_refused: "fst (soc_dma_read d off) = Inl e \<longrightarrow> e = SOC_ERR_BUS"
  by (simp add: soc_dma_read_def)

lemma dma_write_accepted: "off \<in> {0, 4, 8, 12, 20} \<Longrightarrow> fst (soc_dma_write d ic p off v) = Inr ()"
  using dma_write_ctrl [of d ic p v]
  by (elim insertE emptyE) (simp_all add: soc_dma_write_def Let_def split_def split del: if_split)

lemma dma_write_rejected:
  "off \<notin> {0, 4, 8, 12, 20} \<Longrightarrow> soc_dma_write d ic p off v = (Inl SOC_ERR_BUS, d, ic, p)"
  by (simp add: soc_dma_write_def)

lemma dma_write_refused:
  "fst (soc_dma_write d ic p off v) = Inl e \<Longrightarrow>
     snd (soc_dma_write d ic p off v) = (d, ic, p) \<and> e = SOC_ERR_BUS"
  using dma_write_accepted [of off d ic p v] dma_write_rejected [of off d ic p v]
  by (cases "off \<in> {0, 4, 8, 12, 20}") auto

interpretation dma_dev: mmio_device
  "\<lambda>(d, ic, p) off. case soc_dma_read d off of (r, d') \<Rightarrow> (r, d', ic, p)"
  "\<lambda>(d, ic, p) off v. soc_dma_write d ic p off v"
  "\<lambda>(d, ic, p). dma_wf d \<and> intc_wf ic \<and> perf_wf p"
proof unfold_locales
  fix s :: "'a soc_dma_t \<times> soc_intc_t \<times> soc_perf_t" and off v :: u32 and e
  obtain d ic p where s: "s = (d, ic, p)"
    by (cases s)
  show "(case s of (d, ic, p) \<Rightarrow> dma_wf d \<and> intc_wf ic \<and> perf_wf p) \<Longrightarrow>
      case snd ((case s of (d, ic, p) \<Rightarrow> \<lambda>off. case soc_dma_read d off of (r, d') \<Rightarrow> (r, d', ic, p)) off)
      of (d, ic, p) \<Rightarrow> dma_wf d \<and> intc_wf ic \<and> perf_wf p"
    using dma_read_pure [of d off] by (simp add: s split_def)
  show "(case s of (d, ic, p) \<Rightarrow> dma_wf d \<and> intc_wf ic \<and> perf_wf p) \<Longrightarrow>
      case snd ((case s of (d, ic, p) \<Rightarrow> soc_dma_write d ic p) off v)
      of (d, ic, p) \<Rightarrow> dma_wf d \<and> intc_wf ic \<and> perf_wf p"
    using dma_write_wf [of d ic p off v]
    by (cases "soc_dma_write d ic p off v") (auto simp: s)
  show "fst ((case s of (d, ic, p) \<Rightarrow> \<lambda>off. case soc_dma_read d off of (r, d') \<Rightarrow> (r, d', ic, p)) off) =
        Inl e \<Longrightarrow>
      snd ((case s of (d, ic, p) \<Rightarrow> \<lambda>off. case soc_dma_read d off of (r, d') \<Rightarrow> (r, d', ic, p)) off) = s \<and>
      e = SOC_ERR_BUS"
    using dma_read_pure [of d off] dma_read_refused [of d off e] by (simp add: s split_def)
  show "fst ((case s of (d, ic, p) \<Rightarrow> soc_dma_write d ic p) off v) = Inl SOC_ERR_BUS \<Longrightarrow>
      snd ((case s of (d, ic, p) \<Rightarrow> soc_dma_write d ic p) off v) = s"
    using dma_write_refused [of d ic p off v SOC_ERR_BUS] by (simp add: s)
qed

section \<open>The ticks of a transfer\<close>

type_synonym 'm dma_ctx = "'m soc_dma_t \<times> soc_intc_t \<times> soc_perf_t \<times> 'm"

definition dma_tick :: "(nat \<Rightarrow> u8 list option) \<Rightarrow> 'm dma_ctx \<Rightarrow> 'm dma_ctx" where
  "dma_tick malloc s = (case s of (d, ic, p, m) \<Rightarrow> soc_dma_step malloc d ic p m)"

definition dma_running :: "'m soc_dma_t \<Rightarrow> bool" where
  "dma_running d \<longleftrightarrow> d_busy d \<and> \<not> d_fault_stuck_busy d"

text \<open>The size of the temporary buffer the last tick asks for.\<close>

definition dma_tmp_size :: "'m soc_dma_t \<Rightarrow> nat" where
  "dma_tmp_size d = (if d_length d \<noteq> 0 then unat (d_length d) else 1)"

lemma dma_remaining_irrelevant [simp]:
  "dma_tmp_size (d\<lparr>d_remaining := r\<rparr>) = dma_tmp_size d"
  "dma_signal (d\<lparr>d_remaining := r\<rparr>) ic = dma_signal d ic"
  "dma_running (d\<lparr>d_remaining := r\<rparr>) = dma_running d"
  by (simp_all add: dma_tmp_size_def dma_signal_def dma_running_def)

lemma dma_step_idle: "\<not> dma_running d \<Longrightarrow> soc_dma_step malloc d ic p m = (d, ic, p, m)"
  by (simp add: soc_dma_step_def dma_running_def)

lemma dma_step_count:
  "dma_running d \<Longrightarrow> 1 < d_remaining d \<Longrightarrow>
     soc_dma_step malloc d ic p m = (d\<lparr>d_remaining := d_remaining d - 1\<rparr>, ic, p, m)"
  by (simp add: soc_dma_step_def dma_running_def)

lemma dma_step_no_copy:
  assumes "\<not> (dma_running d \<and> d_remaining d \<le> 1 \<and>
    malloc (dma_tmp_size d) \<noteq> None)"
  shows "snd (snd (soc_dma_step malloc d ic p m)) = (p, m)"
proof -
  consider "\<not> dma_running d" | "dma_running d" "1 < d_remaining d"
    | "dma_running d" "malloc (dma_tmp_size d) = None"
    using assms by force
  then show ?thesis
  proof cases
    case 3
    then show ?thesis
      by (cases "d_reader d"; cases "d_writer d"; cases "1 < d_remaining d")
        (simp_all add: soc_dma_step_def dma_running_def dma_tmp_size_def Let_def split del: if_split cong: if_cong)
  qed (simp_all add: dma_step_idle dma_step_count)
qed

interpretation dma_cd: countdown "dma_tick malloc"
  "\<lambda>(d, ic, p, m). dma_running d" "\<lambda>(d, ic, p, m). nat (d_remaining d)"
  "\<lambda>(d, ic, p, m). (d\<lparr>d_remaining := 0\<rparr>, ic, p, m)" for malloc
  by unfold_locales (auto simp: dma_tick_def dma_step_count dma_running_def split: prod.splits)

lemma dma_running_for:
  assumes "dma_running d" and "k < nat (d_remaining d)"
  shows "(dma_tick malloc ^^ k) (d, ic, p, m) = (d\<lparr>d_remaining := d_remaining d - int k\<rparr>, ic, p, m)"
proof -
  obtain d' ic' p' m' where r: "(dma_tick malloc ^^ k) (d, ic, p, m) = (d', ic', p', m')"
    by (cases "(dma_tick malloc ^^ k) (d, ic, p, m)") auto
  have u: "nat (d_remaining d') = nat (d_remaining d) - k"
    and f: "d'\<lparr>d_remaining := 0\<rparr> = d\<lparr>d_remaining := 0\<rparr>" "ic' = ic" "p' = p" "m' = m"
    using dma_cd.running [of "(d, ic, p, m)" k malloc] assms r by auto
  have "d_remaining d' = d_remaining d - int k"
    using u assms(2) by linarith
  with f r show ?thesis
    by (cases d'; cases d) simp
qed

lemma dma_idle_forever:
  "\<not> dma_running d \<Longrightarrow> (dma_tick malloc ^^ k) (d, ic, p, m) = (d, ic, p, m)"
  by (induction k) (simp_all add: dma_tick_def dma_step_idle)

text \<open>The buffer \<open>malloc\<close> returns, when it returns one, has the size asked for.\<close>

definition malloc_sound :: "(nat \<Rightarrow> u8 list option) \<Rightarrow> bool" where
  "malloc_sound malloc \<longleftrightarrow> (\<forall>n b. malloc n = Some b \<longrightarrow> length b = n)"

section \<open>The callback interface\<close>

text \<open>
  A transfer over an abstract port: load all bytes, then store them all (the temporary buffer
  is what gives overlapping transfers the meaning of \<open>memmove\<close>).
\<close>

definition dma_transfer ::
    "('m \<Rightarrow> u32 \<Rightarrow> u32 \<Rightarrow> (u8 list \<times> 'm) option) \<Rightarrow> ('m \<Rightarrow> u32 \<Rightarrow> u8 list \<Rightarrow> 'm option) \<Rightarrow>
      'm \<Rightarrow> u32 \<Rightarrow> u32 \<Rightarrow> u32 \<Rightarrow> bool \<times> 'm" where
  "dma_transfer load store m src dst n =
     (case load m src n of
        None \<Rightarrow> (False, m)
      | Some (xs, m1) \<Rightarrow>
          (case store m1 dst xs of None \<Rightarrow> (False, m1) | Some m2 \<Rightarrow> (True, m2)))"

definition dma_finished :: "'m soc_dma_t \<Rightarrow> bool \<Rightarrow> 'm soc_dma_t" where
  "dma_finished d ok =
     (if ok then d\<lparr>d_remaining := d_remaining d - 1, d_busy := False, d_done := True, d_error := False\<rparr>
      else d\<lparr>d_remaining := d_remaining d - 1, d_busy := False, d_done := False, d_error := True,
             d_err_code := 1\<rparr>)"

lemma dma_step_last:
  assumes "dma_running d" and "d_remaining d \<le> 1" and "d_reader d = Some rd" and "d_writer d = Some wr"
    and "malloc (dma_tmp_size d) = Some tmp"
  shows "soc_dma_step malloc d ic p m =
      (let (rc, tmp1, m1) = rd m (d_src d) (d_length d) tmp in
       if rc \<noteq> Inr () then (dma_finished d False, dma_signal d ic, p, m1)
       else let (rc2, m2) = wr m1 (d_dst d) tmp1 (d_length d) in
         if rc2 \<noteq> Inr () then (dma_finished d False, dma_signal d ic, p, m2)
         else (dma_finished d True, dma_signal d ic,
           if d_perf d \<noteq> NullRef then soc_perf_count_dma p (d_length d) else p, m2))"
  using assms
  by (simp add: soc_dma_step_def dma_running_def dma_tmp_size_def dma_finished_def dma_signal_def Let_def
      split del: if_split cong: if_cong)

text \<open>A missing callback or a failed allocation: the engine stays busy and retries.\<close>

lemma dma_step_retry:
  assumes "dma_running d" and "d_remaining d \<le> 1"
    and "d_reader d = None \<or> d_writer d = None \<or> malloc (dma_tmp_size d) = None"
  shows "soc_dma_step malloc d ic p m = (d\<lparr>d_remaining := d_remaining d - 1\<rparr>, ic, p, m)"
  using assms
  by (cases "d_reader d"; cases "d_writer d")
    (simp_all add: soc_dma_step_def dma_running_def dma_tmp_size_def Let_def split del: if_split cong: if_cong)

locale dma_port =
  fixes rd :: "'m soc_dma_reader_t"
    and wr :: "'m soc_dma_writer_t"
    and inv :: "'m \<Rightarrow> bool"
    and load :: "'m \<Rightarrow> u32 \<Rightarrow> u32 \<Rightarrow> (u8 list \<times> 'm) option"
    and store :: "'m \<Rightarrow> u32 \<Rightarrow> u8 list \<Rightarrow> 'm option"
  assumes rd_spec: "inv m \<Longrightarrow> unat n \<le> length out \<Longrightarrow> rd m a n out =
      (case load m a n of None \<Rightarrow> (Inl SOC_ERR_BUS, out, m) | Some (xs, m1) \<Rightarrow> (Inr (), blit out 0 xs, m1))"
    and wr_spec: "inv m \<Longrightarrow> unat n \<le> length xs \<Longrightarrow> wr m a xs n =
      (case store m a (take (unat n) xs) of None \<Rightarrow> (Inl SOC_ERR_BUS, m) | Some m1 \<Rightarrow> (Inr (), m1))"
    and load_inv: "inv m \<Longrightarrow> load m a n = Some (xs, m1) \<Longrightarrow> inv m1 \<and> length xs = unat n"
    and store_inv: "inv m \<Longrightarrow> store m a xs = Some m1 \<Longrightarrow> inv m1"
begin

lemma transfer_inv: "inv m \<Longrightarrow> inv (snd (dma_transfer load store m src dst n))"
  by (auto simp: dma_transfer_def dest: load_inv store_inv split: option.splits)

lemma last_step:
  assumes "inv m" and "dma_running d" and "d_remaining d \<le> 1"
    and "d_reader d = Some rd" and "d_writer d = Some wr"
    and "malloc_sound malloc" and "malloc (dma_tmp_size d) = Some tmp"
  shows "soc_dma_step malloc d ic p m =
    (let (ok, m') = dma_transfer load store m (d_src d) (d_dst d) (d_length d)
     in (dma_finished d ok, dma_signal d ic,
         if ok \<and> d_perf d \<noteq> NullRef then soc_perf_count_dma p (d_length d) else p, m'))"
proof -
  have tmp: "unat (d_length d) \<le> length tmp"
    using assms(6,7) by (auto simp: malloc_sound_def dma_tmp_size_def split: if_splits)
  note r = rd_spec [OF assms(1) tmp, of "d_src d"]
  note step = dma_step_last [where malloc = malloc and ic = ic and p = p and m = m, OF assms(2-5,7)]
  show ?thesis
  proof (cases "load m (d_src d) (d_length d)")
    case None
    with step r show ?thesis by (simp add: dma_transfer_def)
  next
    case (Some q)
    then obtain xs m1 where q: "load m (d_src d) (d_length d) = Some (xs, m1)"
      by (cases q) auto
    then have xs: "inv m1" "length xs = unat (d_length d)"
      using load_inv [OF assms(1)] by auto
    have len: "unat (d_length d) \<le> length (blit tmp 0 xs)"
      using xs(2) tmp by simp
    show ?thesis
      using step r q wr_spec [OF xs(1) len, of "d_dst d"] xs(2)
      by (simp add: dma_transfer_def split: option.splits)
  qed
qed

lemma step_inv:
  assumes "inv m" and "d_reader d = Some rd" and "d_writer d = Some wr" and "malloc_sound malloc"
    and "soc_dma_step malloc d ic p m = (d', ic', p', m')"
  shows "inv m'"
proof (cases "dma_running d \<and> d_remaining d \<le> 1 \<and>
    malloc (dma_tmp_size d) \<noteq> None")
  case True
  then obtain tmp where tmp: "malloc (dma_tmp_size d) = Some tmp"
    by blast
  have "m' = snd (dma_transfer load store m (d_src d) (d_dst d) (d_length d))"
    using last_step [OF assms(1) _ _ assms(2-4) tmp, of ic p] True assms(5)
    by (simp add: Let_def split_def)
  with transfer_inv [OF assms(1)] show ?thesis by simp
next
  case False
  with assms(1,5) show ?thesis
    using dma_step_no_copy [of d malloc ic p m] by simp
qed

text \<open>A running transfer completes at its last tick and at no earlier one.\<close>

lemma transfer_run:
  assumes "inv m" and "dma_running d" and "0 < d_remaining d"
    and "d_reader d = Some rd" and "d_writer d = Some wr"
    and "malloc_sound malloc" and "malloc (dma_tmp_size d) \<noteq> None"
  shows "(dma_tick malloc ^^ nat (d_remaining d)) (d, ic, p, m) =
    (let (ok, m') = dma_transfer load store m (d_src d) (d_dst d) (d_length d)
     in (dma_finished (d\<lparr>d_remaining := 1\<rparr>) ok, dma_signal d ic,
         if ok \<and> d_perf d \<noteq> NullRef then soc_perf_count_dma p (d_length d) else p, m'))"
proof -
  let ?d = "d\<lparr>d_remaining := 1\<rparr>" and ?n = "nat (d_remaining d)"
  obtain tmp where tmp: "malloc (dma_tmp_size d) = Some tmp"
    using assms(7) by blast
  have "(dma_tick malloc ^^ ?n) (d, ic, p, m) = dma_tick malloc ((dma_tick malloc ^^ (?n - 1)) (d, ic, p, m))"
    using assms(3) by (cases ?n) simp_all
  also have "(dma_tick malloc ^^ (?n - 1)) (d, ic, p, m) = (?d, ic, p, m)"
    using dma_running_for [OF assms(2), of "?n - 1" malloc ic p m] assms(3) by simp
  also have "dma_tick malloc (?d, ic, p, m) =
      (let (ok, m') = dma_transfer load store m (d_src d) (d_dst d) (d_length d)
       in (dma_finished ?d ok, dma_signal d ic,
           if ok \<and> d_perf d \<noteq> NullRef then soc_perf_count_dma p (d_length d) else p, m'))"
    using last_step [of m ?d malloc tmp ic p] assms tmp
    by (simp add: dma_tick_def split: prod.splits)
  finally show ?thesis .
qed

end

section \<open>Preservation\<close>

text \<open>The fields only \<open>soc_dma_init\<close> writes.\<close>

definition dma_config ::
    "'m soc_dma_t \<Rightarrow> (u32 \<times> u32) \<times> (memory_region list option \<times> dma_periph_ep list option \<times> dma_caps) \<times>
      (int \<times> soc_ref \<times> soc_ref) \<times> 'm soc_dma_reader_t option \<times> 'm soc_dma_writer_t option" where
  "dma_config d = ((d_latency_per_word d, d_burst d), (d_regions d, d_periph_eps d, d_caps d),
     (d_irq_line d, d_intc d, d_perf d), d_reader d, d_writer d)"

lemma dma_start_config:
  assumes "soc_dma_start d ic p irq = (d', ic', p')"
  shows "dma_config d' = dma_config d"
proof (cases "d_busy d")
  case True
  with assms show ?thesis by (simp add: dma_start_busy)
next
  case False
  with assms show ?thesis
    by (auto simp: dma_start_idle dma_started_def dma_refused_def dma_config_def split: if_split_asm)
qed

lemma dma_write_config:
  assumes "soc_dma_write d ic p off v = (rc, d', ic', p')"
  shows "dma_config d' = dma_config d"
proof (cases "off = SOC_DMA_CTRL_OFF")
  case True
  obtain d1 ic1 p1 where r:
      "(if bit v 0 then soc_dma_start d ic p (bit v 1) else (d, ic, p)) = (d1, ic1, p1)"
    by (cases "if bit v 0 then soc_dma_start d ic p (bit v 1) else (d, ic, p)") auto
  then have "dma_config d1 = dma_config d"
    using dma_start_config [of d ic p "bit v 1" d1 ic1 p1] by (auto split: if_splits)
  then show ?thesis
    using assms r by (auto simp: True dma_write_ctrl [simplified] Let_def dma_config_def)
next
  case False
  have "dma_config (fst (snd (soc_dma_write d ic p off v))) = dma_config d"
    using False by (simp add: soc_dma_write_def dma_config_def)
  with assms show ?thesis by simp
qed

text \<open>The four things a tick can be for the engine.\<close>

lemma dma_step_cases:
  fixes d :: "'m soc_dma_t"
  obtains (idle) "\<not> dma_running d"
    | (count) "dma_running d" "1 < d_remaining d"
    | (retry) "dma_running d" "d_remaining d \<le> 1"
        "d_reader d = None \<or> d_writer d = None \<or> malloc (dma_tmp_size d) = None"
    | (last) rd wr tmp where "dma_running d" "d_remaining d \<le> 1" "d_reader d = Some rd" "d_writer d = Some wr"
        "malloc (dma_tmp_size d) = Some tmp"
  by force

lemma dma_step_outcomes:
  fixes d d' :: "'m soc_dma_t"
  assumes "soc_dma_step malloc d ic p m = (d', ic', p', m')"
  shows "d' \<in> {d, d\<lparr>d_remaining := d_remaining d - 1\<rparr>} \<and> p' = p \<or>
      d_busy d \<and> d' = dma_finished d True \<and>
        p' = (if d_perf d \<noteq> NullRef then soc_perf_count_dma p (d_length d) else p) \<or>
      d_busy d \<and> d' = dma_finished d False \<and> p' = p" (is ?outcome)
    and "ic' \<in> {ic, dma_signal d ic}" (is ?line)
proof -
  have "?outcome \<and> ?line"
  proof (cases rule: dma_step_cases [where d = d and malloc = malloc])
    case (last rd wr tmp)
    then show ?thesis
      using assms dma_step_last [where malloc = malloc and ic = ic and p = p and m = m, OF last]
      by (auto simp: Let_def dma_running_def split: prod.splits if_split_asm)
  qed (use assms in \<open>simp_all add: dma_step_idle dma_step_count dma_step_retry dma_running_def\<close>)
  then show ?outcome and ?line
    by blast+
qed

lemma dma_step_config:
  assumes "soc_dma_step malloc d ic p m = (d', ic', p', m')"
  shows "dma_config d' = dma_config d"
  using dma_step_outcomes(1) [OF assms] by (auto simp: dma_config_def dma_finished_def)

lemma dma_step_wf [wf_intros]:
  assumes "dma_wf d" and "intc_wf ic" and "perf_wf p"
    and "soc_dma_step malloc d ic p m = (d', ic', p', m')"
  shows "dma_wf d'" and "intc_wf ic'" and "perf_wf p'"
proof -
  have "dma_wf (d\<lparr>d_remaining := d_remaining d - 1\<rparr>)" "d_busy d \<Longrightarrow> dma_wf (dma_finished d b)" for b
    using assms(1) by (auto simp: dma_wf_def dma_finished_def)
  with dma_step_outcomes(1) [OF assms(4)] assms(1) show "dma_wf d'"
    by auto
  show "intc_wf ic'" "perf_wf p'"
    using dma_step_outcomes [OF assms(4)] assms(2,3) by (auto intro: wf_intros)
qed

section \<open>Duration\<close>

text \<open>
  The documented formula, as numbers: \<open>ceil (len / 4)\<close> words, \<open>ceil (words / burst)\<close> bursts.
\<close>

definition dma_words :: "u32 \<Rightarrow> nat" where
  "dma_words len = (unat len + 3) div 4"

definition dma_bursts :: "u32 \<Rightarrow> u32 \<Rightarrow> nat" where
  "dma_bursts burst len = (dma_words len + unat burst - 1) div unat burst"

text \<open>
  The duration for every latency and burst. The number of bursts is \<open>ceil (words / burst)\<close> unless
  \<open>words + burst - 1\<close> wraps, when it is 0; the sum is taken modulo 2^32, and is cut to one tick
  where it is 0 or reads as a negative \<open>int\<close>.
\<close>

lemma dma_bursts_word:
  assumes "unat w = dma_words len" and "0 < unat burst"
  shows "uint ((w + burst - 1) div burst) =
    (if dma_words len + unat burst \<le> 4294967296 then int (dma_bursts burst len) else 0)"
proof (cases "dma_words len + unat burst \<le> 4294967296")
  case True
  then have "unat (w + (burst - 1)) = dma_words len + (unat burst - 1)"
    using assms unat_pred [OF assms(2)] by (simp add: unat_word_ariths)
  then have "unat ((w + burst - 1) div burst) = dma_bursts burst len"
    using assms(2) unfolding dma_bursts_def unat_div_distrib add_diff_eq [symmetric] by simp
  with True show ?thesis
    by (simp add: uint_nat)
next
  case False
  have "unat (w + (burst - 1)) = dma_words len + (unat burst - 1) - 4294967296"
    using assms False unat_pred [OF assms(2)] unat_u32_bound [of w] unat_u32_bound [of burst]
    by (simp add: unat_word_ariths mod_nat_eqI)
  then have "unat (w + burst - 1) < unat burst"
    using assms unat_u32_bound [of w] unat_u32_bound [of burst] False unfolding add_diff_eq [symmetric] by linarith
  then have "unat ((w + burst - 1) div burst) = 0"
    by (simp add: unat_div_distrib)
  with False show ?thesis
    by (simp add: uint_nat)
qed

lemma dma_ticks_exact:
  fixes len burst lat :: u32
  assumes "unat len + 3 < 4294967296" and "0 < unat burst"
  defines "S \<equiv> (int (dma_words len) * uint lat +
    (if dma_words len + unat burst \<le> 4294967296 then int (dma_bursts burst len) else 0) - 1) mod 4294967296"
  shows "dma_ticks lat burst len = (if 1 \<le> S \<and> S < 2147483648 then S else 1)"
proof -
  let ?w = "(len + 3) div 4 :: u32"
  let ?x = "?w * lat + ((?w + burst - 1) div burst - 1)"
  have w: "unat ?w = dma_words len"
    using assms(1) by (simp add: dma_words_def unat_div_distrib unat_word_ariths)
  have "uint ?x = (uint ?w * uint lat + uint ((?w + burst - 1) div burst) - 1) mod 4294967296"
    by (simp add: uint_word_ariths mod_simps algebra_simps)
  also have "\<dots> = S"
    unfolding dma_bursts_word [OF w assms(2)] S_def by (simp only: uint_nat [of ?w] w)
  finally have S: "int (unat ?x) = S"
    by simp
  show ?thesis
  proof (cases "S < 2147483648")
    case True
    then have "unat ?x < 2147483648"
      using S by linarith
    then have "unat ?x < 2 ^ 31"
      by simp
    from sint_u32_small [OF this] S have "i32_of_u32 ?x = S"
      unfolding i32_of_u32_def by linarith
    with True show ?thesis
      by (auto simp: dma_ticks_def Let_def max_def)
  next
    case False
    then have "2147483648 \<le> unat ?x"
      using S by linarith
    then have "2 ^ 31 \<le> unat ?x"
      by simp
    from sint_u32_large [OF this] have "i32_of_u32 ?x < 0"
      unfolding i32_of_u32_def .
    with False show ?thesis
      by (auto simp: dma_ticks_def Let_def max_def)
  qed
qed

text \<open>Where nothing wraps it is the documented duration.\<close>

lemma dma_ticks_eq:
  assumes "0 < unat len" and "unat len + 3 < 4294967296" and "0 < unat burst"
    and "dma_words len + unat burst \<le> 4294967296"
    and "0 < unat lat" and "dma_words len * unat lat + (dma_bursts burst len - 1) < 2 ^ 31"
  shows "dma_ticks lat burst len = int (dma_words len * unat lat + (dma_bursts burst len - 1))"
proof -
  have pos: "0 < dma_bursts burst len" "0 < dma_words len * unat lat"
    using assms(1,3,5) by (simp_all add: dma_bursts_def dma_words_def div_greater_zero_iff)
  obtain n where n: "n = dma_words len * unat lat + (dma_bursts burst len - 1)" "1 \<le> n" "n < 2147483648"
    using assms(6) pos(2) by simp
  have "int (dma_words len) * uint lat + int (dma_bursts burst len) - 1 = int n"
    using pos(1) unfolding uint_nat n(1) by (simp only: of_nat_add of_nat_mult of_nat_diff Suc_leI of_nat_1 One_nat_def)
  then have "dma_ticks lat burst len = int n"
    unfolding dma_ticks_exact [OF assms(2,3)] if_P [OF assms(4)] using n(2,3) by simp
  then show ?thesis
    unfolding n(1) .
qed

text \<open>Where \<open>words + burst - 1\<close> wraps the burst is longer than the transfer: one tick is missing.\<close>

lemma dma_ticks_wrapped:
  assumes "0 < unat len" and "unat len + 3 < 4294967296" and "dma_words len \<le> 4096" and "0 < unat burst" and "0 < unat lat"
    and "4294967296 < dma_words len + unat burst"
    and "dma_words len * unat lat + (dma_bursts burst len - 1) < 2 ^ 31"
  shows "dma_ticks lat burst len = max 1 (int (dma_words len * unat lat + (dma_bursts burst len - 1)) - 1)"
proof -
  have w: "0 < dma_words len"
    using assms(1) by (simp add: dma_words_def)
  then have "dma_words len + unat burst - 1 = unat burst + (dma_words len - 1)" "dma_words len - 1 < unat burst"
    using assms(3,6) by linarith+
  then have b: "dma_bursts burst len = 1"
    unfolding dma_bursts_def using assms(4) by (simp only: div_add_self1) simp
  obtain n where n: "n = dma_words len * unat lat" "1 \<le> n" "n < 2147483648"
    using assms(5,7) w by (simp add: b)
  have "int (dma_words len) * uint lat + 0 - 1 = int n - 1"
    unfolding uint_nat n(1) by simp
  moreover have "\<not> dma_words len + unat burst \<le> 4294967296"
    using assms(6) by simp
  ultimately have "dma_ticks lat burst len = max 1 (int n - 1)"
    unfolding dma_ticks_exact [OF assms(2,4)] using n(2,3) by (simp only: if_False) auto
  then show ?thesis
    unfolding b n(1) by simp
qed

lemma dma_ticks_range: "1 \<le> dma_ticks lat burst len \<and> dma_ticks lat burst len < 2 ^ 31"
  using sint_less [where 'a = 32] by (simp add: dma_ticks_def Let_def i32_of_u32_def)

section \<open>Transfers of the VLAB platform\<close>

definition in_vlab_sram :: "u32 \<Rightarrow> u32 \<Rightarrow> bool" where
  "in_vlab_sram addr len \<longleftrightarrow> 0x10000000 \<le> unat addr \<and> unat addr + unat len \<le> 0x10010000 \<and> 0 < unat len"

text \<open>The three supported pairs: memory to memory, memory to \<open>uart-tx\<close>, \<open>uart-rx\<close> to memory.\<close>

definition vlab_transfer :: "u32 \<Rightarrow> u32 \<Rightarrow> u32 \<Rightarrow> bool" where
  "vlab_transfer src dst len \<longleftrightarrow>
     (in_vlab_sram src len \<and> (in_vlab_sram dst len \<or> dst = VLAB_UART_TXDATA)) \<or>
     (src = VLAB_UART_RXDATA \<and> in_vlab_sram dst len)"

definition vlab_aligned :: "u32 \<Rightarrow> u32 \<Rightarrow> u32 \<Rightarrow> bool" where
  "vlab_aligned src dst len \<longleftrightarrow> unat src mod 4 = 0 \<and> unat dst mod 4 = 0 \<and> unat len mod 4 = 0"

lemma vlab_class_mem:
  "soc_endpoint_class (Some vlab_memory_map) (Some vlab_dma_periph_eps) addr len = 0 \<longleftrightarrow>
     in_vlab_sram addr len"
proof
  assume h: "soc_endpoint_class (Some vlab_memory_map) (Some vlab_dma_periph_eps) addr len = 0"
  then obtain r where "find_region (Some vlab_memory_map) addr len = Some r"
      "r_type r = MEM_TYPE_SRAM \<or> r_type r = MEM_TYPE_DRAM"
    by (auto simp: soc_endpoint_class_def split: if_splits option.splits)
  from find_region_vlab_sram [OF this] show "in_vlab_sram addr len"
    by (simp add: in_vlab_sram_def)
next
  assume h: "in_vlab_sram addr len"
  then obtain r where r: "find_region (Some vlab_memory_map) addr len = Some r" "r_type r = MEM_TYPE_SRAM"
    using find_region_vlab_in_sram [of addr len] by (auto simp: in_vlab_sram_def)
  have "unat addr < 0x20000000"
    using h by (simp add: in_vlab_sram_def)
  then have "addr \<noteq> 0x20000000" "addr \<noteq> 0x20000004"
    by auto
  with r show "soc_endpoint_class (Some vlab_memory_map) (Some vlab_dma_periph_eps) addr len = 0"
    by (simp add: soc_endpoint_class_def dma_periph_find_def vlab_periph_defs)
qed

lemma vlab_class_fifo:
  "soc_endpoint_class (Some vlab_memory_map) (Some vlab_dma_periph_eps) addr len = 1 \<longleftrightarrow>
     addr = VLAB_UART_TXDATA \<or> addr = VLAB_UART_RXDATA"
  by (auto simp: soc_endpoint_class_def dma_periph_find_def vlab_periph_defs split: option.splits if_splits)

lemma vlab_class_range:
  "soc_endpoint_class (Some vlab_memory_map) (Some vlab_dma_periph_eps) addr len \<in> {- 2, - 1, 0, 1}"
  by (auto simp: soc_endpoint_class_def split: option.splits)

text \<open>
  On the VLAB platform the check is the arithmetic specification: nothing more and nothing
  less is accepted.
\<close>

lemma vlab_check_zero:
  "dma_check (Some vlab_memory_map) (Some vlab_dma_periph_eps) vlab_dma_caps src dst len = 0 \<longleftrightarrow>
     unat len \<le> 16384 \<and> vlab_aligned src dst len \<and> vlab_transfer src dst len"
proof -
  let ?c = "soc_endpoint_class (Some vlab_memory_map) (Some vlab_dma_periph_eps)"
  let ?role = "\<lambda>addr b. case dma_periph_find (Some vlab_dma_periph_eps) addr of
    None \<Rightarrow> True | Some e \<Rightarrow> bit (ep_roles e) b"
  have sram: "addr \<noteq> VLAB_UART_TXDATA \<and> addr \<noteq> VLAB_UART_RXDATA" if "in_vlab_sram addr len" for addr
    using that by (auto simp: in_vlab_sram_def)
  have role0: "?role src 0 \<longleftrightarrow> src \<noteq> VLAB_UART_TXDATA"
    by (simp add: dma_periph_find_def vlab_periph_defs bit_numeral_word_iff)
  have role1: "?role dst 1 \<longleftrightarrow> dst \<noteq> VLAB_UART_RXDATA"
    by (auto simp: dma_periph_find_def vlab_periph_defs bit_numeral_word_iff)
  have dir: "dma_direction_supported (Some vlab_dma_caps) (?c src len) (?c dst len) \<longleftrightarrow>
      ?c src len = 0 \<and> ?c dst len = 0 \<or> ?c src len = 0 \<and> ?c dst len = 1 \<or>
      ?c src len = 1 \<and> ?c dst len = 0"
    using vlab_class_range [of src len] vlab_class_range [of dst len]
    by (auto simp: dma_direction_supported_def vlab_caps_defs)
  have ok: "0 \<le> ?c src len \<and> 0 \<le> ?c dst len \<and> ?role src 0 \<and> ?role dst 1 \<and>
      dma_direction_supported (Some vlab_dma_caps) (?c src len) (?c dst len) \<longleftrightarrow>
      vlab_transfer src dst len"
    unfolding dir role0 role1 vlab_class_mem vlab_class_fifo vlab_transfer_def
    using sram [of src] sram [of dst] vlab_class_mem [of src len] vlab_class_mem [of dst len]
      vlab_class_fifo [of src len] vlab_class_fifo [of dst len] by force
  have caps: "cap_alignment vlab_dma_caps = 4" "cap_max_transfer vlab_dma_caps = 16384"
    by (simp_all add: vlab_caps_defs)
  have pos: "vlab_transfer src dst len \<Longrightarrow> len \<noteq> 0"
    by (auto simp: vlab_transfer_def in_vlab_sram_def)
  show ?thesis
    unfolding dma_check_def Let_def caps
    using ok pos by (auto simp: vlab_aligned_def word_mod_4_iff word_less_nat_alt not_less not_le)
qed

end
