(* ===== verification/Bus.thy ===== *)
theory Bus
  imports Platform
begin

text \<open>
  The address decoder of \<open>soc_c/src/bus.c\<close>. Two passes over the region table: the first probes
  with word width and decides for the ROM and SRAM images (entries 0 and 1), the second probes
  with one byte and decides for the register windows (entries from 2 on). The lemmas compute
  the decoder of the VLAB map as intervals of addresses.
\<close>

fun route_first :: "memory_region list \<Rightarrow> int \<Rightarrow> u32 \<Rightarrow> int" where
  "route_first [] i addr = - 1"
| "route_first (r # rs) i addr =
     (if memory_region_contains (Some r) addr 4 then i else route_first rs (i + 1) addr)"

fun route_window :: "memory_region list \<Rightarrow> int \<Rightarrow> u32 \<Rightarrow> int" where
  "route_window [] i addr = - 1"
| "route_window (r # rs) i addr =
     (if memory_region_contains (Some r) addr 1 \<and> i \<ge> 2 then i else route_window rs (i + 1) addr)"

definition soc_bus_route :: "memory_region list \<Rightarrow> u32 \<Rightarrow> int" where
  "soc_bus_route regions addr =
     (let first = route_first regions 0 addr in
      if first = 0 \<or> first = 1 then first else route_window regions 0 addr)"

section \<open>Decoding the VLAB map\<close>

definition vlab_route :: "nat \<Rightarrow> int" where
  "vlab_route a =
     (if a + 4 \<le> 0x4000 then 0
      else if 0x10000000 \<le> a \<and> a + 4 \<le> 0x10010000 then 1
      else if 0x20000000 \<le> a \<and> a < 0x20005000 then int ((a - 0x20000000) div 0x1000) + 2
      else - 1)"

lemma vlab_window_cases:
  assumes "0x20000000 \<le> a" and "a < (0x20005000 :: nat)"
  obtains k where "k < 5" and "0x20000000 + k * 0x1000 \<le> a" and "a < 0x20000000 + (k + 1) * 0x1000"
    and "(a - 0x20000000) div 0x1000 = k"
proof
  let ?k = "(a - 0x20000000) div 0x1000"
  show "?k < 5"
    using assms by (simp add: div_less_iff_less_mult)
  have "a - 0x20000000 = ?k * 0x1000 + (a - 0x20000000) mod 0x1000" "(a - 0x20000000) mod 0x1000 < 0x1000"
    by simp_all
  with assms(1) show "0x20000000 + ?k * 0x1000 \<le> a" and "a < 0x20000000 + (?k + 1) * 0x1000"
    unfolding distrib_right mult_1 by linarith+
  show "?k = ?k" ..
qed

lemma route_first_range: "route_first rs i addr = - 1 \<or> i \<le> route_first rs i addr"
proof (induction rs arbitrary: i)
  case (Cons r rs)
  from Cons.IH [of "i + 1"] show ?case by auto
qed simp

lemma route_first_images:
  "route_first (r0 # r1 # rs) 0 addr = 0 \<longleftrightarrow> memory_region_contains (Some r0) addr 4"
  "route_first (r0 # r1 # rs) 0 addr = 1 \<longleftrightarrow>
     \<not> memory_region_contains (Some r0) addr 4 \<and> memory_region_contains (Some r1) addr 4"
  using route_first_range [of rs 2 addr] by auto

lemma soc_bus_route_vlab: "soc_bus_route vlab_memory_map addr = vlab_route (unat addr)"
proof -
  let ?a = "unat addr"
  have f: "route_first vlab_memory_map 0 addr = 0 \<longleftrightarrow> ?a + 4 \<le> 0x4000"
      "route_first vlab_memory_map 0 addr = 1 \<longleftrightarrow> 0x10000000 \<le> ?a \<and> ?a + 4 \<le> 0x10010000"
    by (auto simp: vlab_map_defs route_first_images memory_region_contains_iff simp del: route_first.simps)
  have w: "route_window vlab_memory_map 0 addr =
      (if 0x20000000 \<le> ?a \<and> ?a < 0x20005000 then int ((?a - 0x20000000) div 0x1000) + 2 else - 1)"
  proof (cases "0x20000000 \<le> ?a \<and> ?a < 0x20005000")
    case True
    then obtain k where k: "k < 5" "0x20000000 + k * 0x1000 \<le> ?a" "?a < 0x20000000 + (k + 1) * 0x1000"
        "(?a - 0x20000000) div 0x1000 = k"
      using vlab_window_cases by blast
    from k(1) consider "k = 0" | "k = 1" | "k = 2" | "k = 3" | "k = 4"
      by linarith
    then show ?thesis
      using k True by cases (simp_all add: vlab_map_defs memory_region_contains_iff)
  next
    case False
    then show ?thesis
      by (auto simp: vlab_map_defs memory_region_contains_iff)
  qed
  show ?thesis
    using f by (simp add: soc_bus_route_def Let_def vlab_route_def w)
qed

lemma vlab_route_range: "vlab_route a \<in> {- 1, 0, 1, 2, 3, 4, 5, 6}"
proof (cases "0x20000000 \<le> a \<and> a < 0x20005000")
  case True
  then show ?thesis
    by (elim conjE vlab_window_cases) (auto simp: vlab_route_def)
qed (auto simp: vlab_route_def)

text \<open>The window of each peripheral, as the driver addresses it.\<close>

lemma vlab_route_window:
  "off < 0x1000 \<Longrightarrow> k < 5 \<Longrightarrow> vlab_route (0x20000000 + k * 0x1000 + off) = int k + 2"
  by (simp add: vlab_route_def)

end
