(* ===== verification/Soc.thy ===== *)
theory Soc
  imports Memory Uart Timer Dma Bus
begin

text \<open>
  The integrated SoC of \<open>soc_c/src/soc.c\<close> with the CPU marker of \<open>soc_c/src/soc_cpu.c\<close>: the
  state record \<open>soc_t\<close>, the DMA bridges, bus reads and writes, the tick, the bounded wait and the
  boot sequence. Each operation calls the component operations in the order of the code and
  threads the shared interrupt controller and counters through them. The static stores
  \<open>_rom_store\<close> and \<open>_sram_store\<close> are the byte lists inside \<open>s_rom\<close> and \<open>s_sram\<close>.
\<close>

definition SOC_ROM_BASE :: u32 where [simp]: "SOC_ROM_BASE = 0x00000000"
definition SOC_SRAM_BASE :: u32 where [simp]: "SOC_SRAM_BASE = 0x10000000"
definition SOC_UART_BASE :: u32 where [simp]: "SOC_UART_BASE = 0x20000000"
definition SOC_TIMER_BASE :: u32 where [simp]: "SOC_TIMER_BASE = 0x20001000"
definition SOC_DMA_BASE :: u32 where [simp]: "SOC_DMA_BASE = 0x20002000"
definition SOC_INTC_BASE :: u32 where [simp]: "SOC_INTC_BASE = 0x20003000"
definition SOC_PERF_BASE :: u32 where [simp]: "SOC_PERF_BASE = 0x20004000"
definition SOC_BOOT_TICKS :: u32 where [simp]: "SOC_BOOT_TICKS = 5"

section \<open>The CPU\<close>

record soc_cpu_t =
  c_rom_base :: u32
  c_sram_top :: u32
  c_pc :: u32
  c_sp :: u32
  c_running :: bool
  c_boot_ticks :: u32

definition soc_cpu_init :: "soc_cpu_t \<Rightarrow> u32 \<Rightarrow> u32 \<Rightarrow> soc_cpu_t" where
  "soc_cpu_init c rom_base sram_top =
     c\<lparr>c_rom_base := rom_base, c_sram_top := sram_top, c_pc := rom_base, c_sp := sram_top,
       c_running := False, c_boot_ticks := 0\<rparr>"

definition soc_cpu_reset :: "soc_cpu_t \<Rightarrow> soc_cpu_t" where
  "soc_cpu_reset c =
     c\<lparr>c_pc := c_rom_base c, c_sp := c_sram_top c, c_running := False, c_boot_ticks := 0\<rparr>"

definition soc_cpu_enter_main :: "soc_cpu_t \<Rightarrow> soc_cpu_t" where
  "soc_cpu_enter_main c = c\<lparr>c_running := True\<rparr>"

section \<open>State and configuration\<close>

record soc_config_t =
  cfg_cpu_frequency_mhz :: u32
  cfg_uart_latency_ticks :: u32
  cfg_dma_latency_per_word_ticks :: u32
  cfg_dma_burst :: u32

definition soc_config_default :: soc_config_t where
  "soc_config_default = \<lparr>cfg_cpu_frequency_mhz = 100, cfg_uart_latency_ticks = 5,
     cfg_dma_latency_per_word_ticks = 1, cfg_dma_burst = 4\<rparr>"

text \<open>What the DMA bridges reach through the context pointer: the UART and the SRAM.\<close>

type_synonym dma_mem = "soc_uart_t \<times> soc_mem_t"

record soc_t =
  s_config :: soc_config_t
  s_rom :: soc_mem_t
  s_sram :: soc_mem_t
  s_regions :: "memory_region list"
  s_perf :: soc_perf_t
  s_intc :: soc_intc_t
  s_uart :: soc_uart_t
  s_timer :: soc_timer_t
  s_dma :: "dma_mem soc_dma_t"
  s_cpu :: soc_cpu_t
  s_ticks :: u32

section \<open>Operations\<close>

definition soc_dma_reader_bridge :: "dma_mem soc_dma_reader_t" where
  "soc_dma_reader_bridge m addr len out =
     (case m of (uart, sram) \<Rightarrow>
        if addr = SOC_UART_BASE + SOC_UART_RXDATA_OFF then
          (case soc_uart_dma_rx_drain uart (Some out) len of
             (uart', Some out') \<Rightarrow> (Inr (), out', (uart', sram))
           | (uart', None) \<Rightarrow> (Inr (), out, (uart', sram)))
        else case soc_mem_read_bytes sram addr len out of (rc, out') \<Rightarrow> (rc, out', (uart, sram)))"

definition soc_dma_writer_bridge :: "dma_mem soc_dma_writer_t" where
  "soc_dma_writer_bridge m addr payload len =
     (case m of (uart, sram) \<Rightarrow>
        if addr = SOC_UART_BASE + SOC_UART_TXDATA_OFF then
          (Inr (), (soc_uart_dma_tx_append uart (Some payload) len, sram))
        else case soc_mem_write_bytes sram addr payload len of (rc, sram') \<Rightarrow> (rc, (uart, sram')))"

definition soc_init :: "soc_t \<Rightarrow> soc_config_t option \<Rightarrow> soc_t" where
  "soc_init s cfg =
     (let config = (case cfg of None \<Rightarrow> soc_config_default | Some c \<Rightarrow> c);
          map = vlab_memory_map;
          caps = vlab_dma_caps;
          eps = vlab_dma_periph_eps
      in s\<lparr>s_config := config, s_regions := map,
           s_rom := soc_mem_init (s_rom s) (r_base (map ! 0)) (r_size (map ! 0)) True ''ROM''
             (m_data (s_rom s)),
           s_sram := soc_mem_init (s_sram s) (r_base (map ! 1)) (r_size (map ! 1)) False ''SRAM''
             (m_data (s_sram s)),
           s_perf := soc_perf_init (s_perf s),
           s_intc := soc_intc_init (s_intc s) SocRef,
           s_uart := soc_uart_init (s_uart s) (cfg_uart_latency_ticks config) SocRef SocRef,
           s_timer := soc_timer_init (s_timer s) SocRef,
           s_dma := soc_dma_init (s_dma s) (cfg_dma_latency_per_word_ticks config)
             (cfg_dma_burst config) (Some map) (Some eps) (Some caps) SOC_IRQ_DMA SocRef SocRef
             (Some soc_dma_reader_bridge) (Some soc_dma_writer_bridge),
           s_cpu := soc_cpu_init (s_cpu s) SOC_ROM_BASE (r_base (map ! 1) + r_size (map ! 1)),
           s_ticks := 0\<rparr>)"

definition soc_reset_peripherals :: "soc_t \<Rightarrow> soc_t" where
  "soc_reset_peripherals s =
     s\<lparr>s_uart := soc_uart_reset (s_uart s), s_timer := soc_timer_reset (s_timer s),
       s_dma := soc_dma_reset (s_dma s), s_intc := soc_intc_reset (s_intc s)\<rparr>"

definition soc_route :: "soc_t \<Rightarrow> u32 \<Rightarrow> int" where
  "soc_route s addr = soc_bus_route (s_regions s) addr"

definition soc_stall :: "soc_t \<Rightarrow> soc_t" where
  "soc_stall s = s\<lparr>s_perf := soc_perf_count_stall (s_perf s) 1\<rparr>"

text \<open>The switch over the device kinds of a read: the status, the value and the new state.\<close>

definition soc_read_device :: "soc_t \<Rightarrow> int \<Rightarrow> u32 \<Rightarrow> (soc_err + u32) \<times> soc_t" where
  "soc_read_device s kind addr =
     (if kind = 0 then (soc_mem_read_word (s_rom s) addr, s)
      else if kind = 1 then (soc_mem_read_word (s_sram s) addr, s)
      else if kind = 2 then
        (case soc_uart_read (s_uart s) (addr - SOC_UART_BASE) of (rc, u) \<Rightarrow> (rc, s\<lparr>s_uart := u\<rparr>))
      else if kind = 3 then
        (case soc_timer_read (s_timer s) (addr - SOC_TIMER_BASE) of (rc, t) \<Rightarrow> (rc, s\<lparr>s_timer := t\<rparr>))
      else if kind = 4 then
        (case soc_dma_read (s_dma s) (addr - SOC_DMA_BASE) of (rc, d) \<Rightarrow> (rc, s\<lparr>s_dma := d\<rparr>))
      else if kind = 5 then
        (case soc_intc_read (s_intc s) (s_perf s) (addr - SOC_INTC_BASE) of
           (rc, ic, p) \<Rightarrow> (rc, s\<lparr>s_intc := ic, s_perf := p\<rparr>))
      else if kind = 6 then
        (case soc_perf_read (s_perf s) (addr - SOC_PERF_BASE) of (rc, p) \<Rightarrow> (rc, s\<lparr>s_perf := p\<rparr>))
      else (Inl SOC_ERR_BUS, s))"

definition soc_read :: "soc_t \<Rightarrow> u32 \<Rightarrow> (soc_err + u32) \<times> soc_t" where
  "soc_read s addr =
     (if addr mod 4 \<noteq> 0 then (Inl SOC_ERR_BUS, soc_stall s)
      else
        let s1 = s\<lparr>s_perf := soc_perf_count_mem (s_perf s)\<rparr>;
            (rc, s2) = soc_read_device s1 (soc_route s1 addr) addr
        in case rc of
            Inl e \<Rightarrow> (Inl SOC_ERR_BUS, soc_stall s2)
          | Inr v \<Rightarrow> (Inr v, s2))"

definition soc_write_device :: "soc_t \<Rightarrow> int \<Rightarrow> u32 \<Rightarrow> u32 \<Rightarrow> (soc_err + unit) \<times> soc_t" where
  "soc_write_device s kind addr value =
     (if kind = 0 then
        (case soc_mem_write_word (s_rom s) addr value of (rc, m) \<Rightarrow> (rc, s\<lparr>s_rom := m\<rparr>))
      else if kind = 1 then
        (case soc_mem_write_word (s_sram s) addr value of (rc, m) \<Rightarrow> (rc, s\<lparr>s_sram := m\<rparr>))
      else if kind = 2 then
        (case soc_uart_write (s_uart s) (s_perf s) (addr - SOC_UART_BASE) value of
           (rc, u, p) \<Rightarrow> (rc, s\<lparr>s_uart := u, s_perf := p\<rparr>))
      else if kind = 3 then
        (case soc_timer_write (s_timer s) (addr - SOC_TIMER_BASE) value of
           (rc, t) \<Rightarrow> (rc, s\<lparr>s_timer := t\<rparr>))
      else if kind = 4 then
        (case soc_dma_write (s_dma s) (s_intc s) (s_perf s) (addr - SOC_DMA_BASE) value of
           (rc, d, ic, p) \<Rightarrow> (rc, s\<lparr>s_dma := d, s_intc := ic, s_perf := p\<rparr>))
      else if kind = 5 then
        (case soc_intc_write (s_intc s) (addr - SOC_INTC_BASE) value of
           (rc, ic) \<Rightarrow> (rc, s\<lparr>s_intc := ic\<rparr>))
      else if kind = 6 then
        (case soc_perf_write (s_perf s) (addr - SOC_PERF_BASE) value of
           (rc, p) \<Rightarrow> (rc, s\<lparr>s_perf := p\<rparr>))
      else (Inl SOC_ERR_BUS, s))"

definition soc_write :: "soc_t \<Rightarrow> u32 \<Rightarrow> u32 \<Rightarrow> (soc_err + unit) \<times> soc_t" where
  "soc_write s addr value =
     (if addr mod 4 \<noteq> 0 then (Inl SOC_ERR_BUS, soc_stall s)
      else
        let s1 = s\<lparr>s_perf := soc_perf_count_mem (s_perf s)\<rparr>;
            (rc, s2) = soc_write_device s1 (soc_route s1 addr) addr value
        in case rc of
            Inl e \<Rightarrow> (Inl e, if e = SOC_ERR_BUS then soc_stall s2 else s2)
          | Inr _ \<Rightarrow> (Inr (), s2))"

definition soc_tick :: "(nat \<Rightarrow> u8 list option) \<Rightarrow> soc_t \<Rightarrow> soc_t" where
  "soc_tick malloc s =
     (let s1 = s\<lparr>s_ticks := s_ticks s + 1\<rparr>;
          s2 = s1\<lparr>s_perf := soc_perf_tick (s_perf s1)\<rparr>;
          (u, ic1) = soc_uart_step (s_uart s2) (s_intc s2);
          (t, ic2) = soc_timer_step (s_timer s2) ic1;
          (d, ic3, p, (u', sram)) = soc_dma_step malloc (s_dma s2) ic2 (s_perf s2) (u, s_sram s2)
      in s2\<lparr>s_uart := u', s_timer := t, s_dma := d, s_intc := ic3, s_perf := p, s_sram := sram\<rparr>)"

definition soc_step :: "(nat \<Rightarrow> u8 list option) \<Rightarrow> soc_t \<Rightarrow> u32 \<Rightarrow> soc_t" where
  "soc_step malloc s n = (soc_tick malloc ^^ unat n) s"

text \<open>
  The predicate of the bounded wait may itself access the SoC, so it returns the state; \<open>None\<close>
  is the null function pointer.
\<close>

type_synonym soc_pred_t = "soc_t \<Rightarrow> bool \<times> soc_t"

definition pred_holds :: "soc_pred_t option \<Rightarrow> soc_pred_t" where
  "pred_holds pred s = (case pred of None \<Rightarrow> (False, s) | Some f \<Rightarrow> f s)"

function soc_run_until_loop ::
    "(nat \<Rightarrow> u8 list option) \<Rightarrow> soc_pred_t option \<Rightarrow> u32 \<Rightarrow> u32 \<Rightarrow> soc_t \<Rightarrow> int \<times> soc_t" where
  "soc_run_until_loop malloc pred max_ticks elapsed s =
     (if elapsed < max_ticks then
        (case pred_holds pred s of (hit, s1) \<Rightarrow>
           if hit then (i32_of_u32 elapsed, s1)
           else soc_run_until_loop malloc pred max_ticks (elapsed + 1) (soc_step malloc s1 1))
      else
        (case pred_holds pred s of (hit, s1) \<Rightarrow>
           if hit then (i32_of_u32 elapsed, s1) else (- 1, s1)))"
  by pat_completeness auto

termination
proof (relation "measure (\<lambda>(malloc, pred, max_ticks, elapsed, s). unat max_ticks - unat elapsed)")
  fix malloc :: "nat \<Rightarrow> u8 list option" and pred max_ticks elapsed s q hit s1
  assume "(elapsed :: u32) < max_ticks"
  then have "unat elapsed < unat max_ticks" "unat (elapsed + 1) = unat elapsed + 1"
    using unat_u32_bound [of max_ticks] by (simp_all add: word_less_nat_alt unat_word_ariths)
  then show "((malloc, pred, max_ticks, elapsed + 1, soc_step malloc s1 1),
      (malloc, pred, max_ticks, elapsed, s)) \<in>
      measure (\<lambda>(malloc, pred, max_ticks, elapsed, s). unat max_ticks - unat elapsed)"
    by simp
qed simp

declare soc_run_until_loop.simps [simp del]

definition soc_run_until ::
    "(nat \<Rightarrow> u8 list option) \<Rightarrow> soc_t \<Rightarrow> soc_pred_t option \<Rightarrow> u32 \<Rightarrow> int \<times> soc_t" where
  "soc_run_until malloc s pred max_ticks = soc_run_until_loop malloc pred max_ticks 0 s"

record soc_boot_info_t =
  bi_boot_ticks :: u32
  bi_cpu_frequency_mhz :: u32
  bi_boot_ns :: u32

text \<open>
  The boot sequence up to and after its five ticks. The image is a pointer and a word count;
  \<open>None\<close> is the null pointer.
\<close>

definition soc_boot_prepare :: "soc_t \<Rightarrow> u32 list option \<Rightarrow> soc_t" where
  "soc_boot_prepare s rom_words =
     (let s1 = s\<lparr>s_ticks := 0, s_cpu := soc_cpu_reset (s_cpu s)\<rparr>;
          top = r_base (s_regions s1 ! 1) + r_size (s_regions s1 ! 1);
          s2 = s1\<lparr>s_cpu := (s_cpu s1)\<lparr>c_sram_top := top, c_sp := top\<rparr>\<rparr>;
          s3 = soc_reset_peripherals s2;
          s4 = s3\<lparr>s_perf := (soc_perf_reset_counters (s_perf s3))\<lparr>pf_enabled := True, pf_ctrl := 1\<rparr>\<rparr>;
          s5 = (case rom_words of
              None \<Rightarrow> s4
            | Some [] \<Rightarrow> s4
            | Some ws \<Rightarrow>
                let rom = (s_rom s4)\<lparr>m_data := map_option
                      (\<lambda>d. memset_at d 0 0 (unat (r_size (s_regions s4 ! 0)))) (m_data (s_rom s4))\<rparr>
                in s4\<lparr>s_rom := snd (soc_mem_load_words rom ws)\<rparr>)
      in s5\<lparr>s_sram := soc_mem_zero (s_sram s5)\<rparr>)"

definition soc_boot ::
    "(nat \<Rightarrow> u8 list option) \<Rightarrow> soc_t \<Rightarrow> u32 list option \<Rightarrow> soc_boot_info_t \<times> soc_t" where
  "soc_boot malloc s rom_words =
     (let s7 = soc_step malloc (soc_boot_prepare s rom_words) SOC_BOOT_TICKS;
          s8 = s7\<lparr>s_cpu := soc_cpu_enter_main (s_cpu s7)\<rparr>;
          freq = (if cfg_cpu_frequency_mhz (s_config s8) \<noteq> 0 then cfg_cpu_frequency_mhz (s_config s8)
                  else 100)
      in (\<lparr>bi_boot_ticks = s_ticks s8, bi_cpu_frequency_mhz = freq,
           bi_boot_ns = s_ticks s8 * 1000 div freq\<rparr>, s8))"

definition soc_sram_write_word :: "soc_t \<Rightarrow> u32 \<Rightarrow> u32 \<Rightarrow> (soc_err + unit) \<times> soc_t" where
  "soc_sram_write_word s addr value = soc_write s addr value"

definition soc_sram_read_word :: "soc_t \<Rightarrow> u32 \<Rightarrow> (soc_err + u32) \<times> soc_t" where
  "soc_sram_read_word s addr = soc_read s addr"

end
