(* ===== verification/Soc_Inv.thy ===== *)
theory Soc_Inv
  imports Soc
begin

text \<open>
  The invariant of the integrated SoC and its preservation. \<open>soc_wf\<close> collects the component
  invariants, the shape \<open>soc_init\<close> gives the memories and the configuration of the DMA engine.
  Every operation of \<open>soc.c\<close> keeps it: bus reads and writes, ticks, the bounded wait and the boot
  sequence. The DMA bridges are an instance of \<open>dma_port\<close>, which is where the engine's laws meet
  the memory and the UART.
\<close>

section \<open>The invariant\<close>

definition rom_ok :: "soc_mem_t \<Rightarrow> bool" where
  "rom_ok m \<longleftrightarrow> mem_wf m \<and> m_base m = 0 \<and> m_size m = 16384 \<and> m_readonly m"

definition sram_ok :: "soc_mem_t \<Rightarrow> bool" where
  "sram_ok m \<longleftrightarrow> mem_wf m \<and> m_base m = 0x10000000 \<and> m_size m = 65536 \<and> \<not> m_readonly m"

definition dma_bound :: "dma_mem soc_dma_t \<Rightarrow> bool" where
  "dma_bound d \<longleftrightarrow> d_regions d = Some vlab_memory_map \<and> d_periph_eps d = Some vlab_dma_periph_eps \<and>
     d_caps d = vlab_dma_caps \<and> d_irq_line d = 2 \<and>
     d_reader d = Some soc_dma_reader_bridge \<and> d_writer d = Some soc_dma_writer_bridge"

definition soc_wf :: "soc_t \<Rightarrow> bool" where
  "soc_wf s \<longleftrightarrow> rom_ok (s_rom s) \<and> sram_ok (s_sram s) \<and> s_regions s = vlab_memory_map \<and>
     perf_wf (s_perf s) \<and> intc_wf (s_intc s) \<and> uart_wf (s_uart s) \<and> timer_wf (s_timer s) \<and>
     dma_wf (s_dma s) \<and> dma_bound (s_dma s)"

lemma dma_bound_config: "dma_config d' = dma_config d \<Longrightarrow> dma_bound d' = dma_bound d"
  by (simp add: dma_bound_def dma_config_def)

text \<open>The sizes of the arrays inside an object of type \<open>soc_t\<close>.\<close>

definition soc_storage :: "soc_t \<Rightarrow> bool" where
  "soc_storage s \<longleftrightarrow> (\<exists>rom sram. m_data (s_rom s) = Some rom \<and> length rom = 65536 \<and>
       m_data (s_sram s) = Some sram \<and> length sram = 262144) \<and>
     length (u_dma_tx_fifo (s_uart s)) = 16384 \<and> length (u_dma_rx_fifo (s_uart s)) = 16384"

lemma soc_init_wf [wf_intros]:
  assumes "soc_storage s"
  shows "soc_wf (soc_init s cfg)"
proof -
  obtain rom sram where "m_data (s_rom s) = Some rom" "length rom = 65536"
      "m_data (s_sram s) = Some sram" "length sram = 262144"
      "length (u_dma_tx_fifo (s_uart s)) = 16384" "length (u_dma_rx_fifo (s_uart s)) = 16384"
    using assms by (auto simp: soc_storage_def)
  then show ?thesis
    unfolding soc_wf_def soc_init_def Let_def rom_ok_def sram_ok_def
    by (simp add: vlab_map_nth [simplified] soc_mem_init_wf perf_init_wf intc_reset_wf uart_init_wf timer_init_wf
        dma_init_wf dma_bound_def) (simp add: soc_dma_init_def)
qed

section \<open>Bus accesses\<close>

lemma soc_stall_wf [wf_intros]: "soc_wf s \<Longrightarrow> soc_wf (soc_stall s)"
  by (simp add: soc_stall_def soc_wf_def perf_count_wf)

lemma count_mem_wf [wf_intros]:
  "soc_wf s \<Longrightarrow> soc_wf (s\<lparr>s_perf := soc_perf_count_mem (s_perf s)\<rparr>)"
  by (simp add: soc_wf_def perf_count_wf)

lemma intc_read_perf_wf: "perf_wf p \<Longrightarrow> perf_wf (snd (snd (soc_intc_read ic p off)))"
  by (simp add: soc_intc_read_def Let_def perf_count_wf)

lemma soc_read_device_wf [wf_intros]:
  assumes "soc_wf s"
  shows "soc_wf (snd (soc_read_device s kind addr))"
  using assms uart_access_wf(1) [of "s_uart s" "addr - SOC_UART_BASE"]
    timer_access_wf(1) [of "s_timer s" "addr - SOC_TIMER_BASE"]
    intc_read_wf [of "s_intc s" "s_perf s" "addr - SOC_INTC_BASE"]
    intc_read_perf_wf [of "s_perf s" "s_intc s" "addr - SOC_INTC_BASE"]
    perf_access_wf(1) [of "s_perf s" "addr - SOC_PERF_BASE"]
    dma_read_pure [of "s_dma s" "addr - SOC_DMA_BASE"]
  by (simp add: soc_read_device_def split_def soc_wf_def)

lemma mem_write_word_ok_wf [wf_intros]:
  "rom_ok m \<Longrightarrow> rom_ok (snd (soc_mem_write_word m a v))"
  "sram_ok m \<Longrightarrow> sram_ok (snd (soc_mem_write_word m a v))"
  by (simp_all add: rom_ok_def sram_ok_def soc_mem_write_word_wf)

lemma soc_write_device_dma_wf:
  assumes "soc_wf s" and "soc_dma_write (s_dma s) (s_intc s) (s_perf s) off v = (rc, d, ic, p)"
  shows "soc_wf (s\<lparr>s_dma := d, s_intc := ic, s_perf := p\<rparr>)"
  using assms(1) dma_write_wf [OF _ _ _ assms(2)] dma_bound_config [OF dma_write_config [OF assms(2)]]
  by (simp add: soc_wf_def)

lemma soc_write_device_wf [wf_intros]:
  assumes "soc_wf s"
  shows "soc_wf (snd (soc_write_device s kind addr v))"
proof (cases "kind = 4")
  case True
  then show ?thesis
    using soc_write_device_dma_wf [OF assms] by (simp add: soc_write_device_def split: prod.split)
next
  case False
  then show ?thesis
    using assms mem_write_word_ok_wf(1) [of "s_rom s" addr v] mem_write_word_ok_wf(2) [of "s_sram s" addr v]
      uart_access_wf(2) [of "s_uart s" "s_perf s" "addr - SOC_UART_BASE" v]
      uart_write_perf_wf [of "s_perf s" "s_uart s" "addr - SOC_UART_BASE" v]
      timer_access_wf(2) [of "s_timer s" "addr - SOC_TIMER_BASE" v]
      intc_write_wf [of "s_intc s" "addr - SOC_INTC_BASE" v]
      perf_access_wf(2) [of "s_perf s" "addr - SOC_PERF_BASE" v]
    by (simp add: soc_write_device_def split_def soc_wf_def)
qed

lemma soc_read_wf [wf_intros]: "soc_wf s \<Longrightarrow> soc_wf (snd (soc_read s addr))"
  using soc_read_device_wf [OF count_mem_wf [of s]]
  by (auto simp: soc_read_def Let_def split_def soc_stall_wf split: sum.split)

lemma soc_write_wf [wf_intros]: "soc_wf s \<Longrightarrow> soc_wf (snd (soc_write s addr v))"
  using soc_write_device_wf [OF count_mem_wf [of s]]
  by (auto simp: soc_write_def Let_def split_def soc_stall_wf split: sum.split)

section \<open>The bridges as a DMA port\<close>

definition port_inv :: "dma_mem \<Rightarrow> bool" where
  "port_inv m = (case m of (u, sram) \<Rightarrow> uart_wf u \<and> sram_ok sram)"

definition port_load :: "dma_mem \<Rightarrow> u32 \<Rightarrow> u32 \<Rightarrow> (u8 list \<times> dma_mem) option" where
  "port_load m a n = (case m of (u, sram) \<Rightarrow>
     if a = 0x20000004 then
       Some (take (unat n) (uart_rx_stream u @ replicate (unat n) 0),
             (fst (soc_uart_dma_rx_drain u (Some (replicate (unat n) 0)) n), sram))
     else if soc_mem_contains sram a n
       then Some (bytes_at (m_bytes sram) (unat (a - m_base sram)) (unat n), m)
     else None)"

definition port_store :: "dma_mem \<Rightarrow> u32 \<Rightarrow> u8 list \<Rightarrow> dma_mem option" where
  "port_store m a xs = (case m of (u, sram) \<Rightarrow>
     if a = 0x20000000 then Some (soc_uart_dma_tx_append u (Some xs) (of_nat (length xs)), sram)
     else if soc_mem_contains sram a (of_nat (length xs)) \<and> length xs < 4294967296
       then Some (u, m_store sram (unat (a - m_base sram)) xs)
     else None)"

lemma rx_drain_buffer_irrelevant:
  "fst (soc_uart_dma_rx_drain u (Some b) n) = fst (soc_uart_dma_rx_drain u (Some c) n)"
  by (simp add: soc_uart_dma_rx_drain_def Let_def)

lemma tx_append_take:
  assumes "unat n \<le> length xs"
  shows "soc_uart_dma_tx_append u (Some (take (unat n) xs)) (of_nat (length (take (unat n) xs))) =
    soc_uart_dma_tx_append u (Some xs) n"
proof -
  have "length (take (unat n) xs) = unat n"
    using assms by simp
  moreover have "take (unat (fifo_room n l)) (take (unat n) xs) = take (unat (fifo_room n l)) xs" for l
    by (simp add: unat_fifo_room)
  ultimately show ?thesis
    by (simp add: soc_uart_dma_tx_append_eq Let_def del: length_take take_take)
qed

lemma sram_store_ok [wf_intros]:
  assumes "sram_ok m" and "soc_mem_contains m a (of_nat (length xs))" and "length xs < 4294967296"
  shows "sram_ok (m_store m (unat (a - m_base m)) xs)"
  using assms contains_off(2) [OF assms(2)]
  by (simp add: sram_ok_def m_store_wf unat_of_nat_u32)

lemma reader_bridge_load:
  assumes "port_inv m" and "unat n \<le> length out"
  shows "soc_dma_reader_bridge m a n out =
    (case port_load m a n of None \<Rightarrow> (Inl SOC_ERR_BUS, out, m)
     | Some (xs, m1) \<Rightarrow> (Inr (), blit out 0 xs, m1))"
proof -
  obtain u sram where m: "m = (u, sram)"
    by (cases m)
  have u: "uart_wf u"
    using assms(1) by (simp add: m port_inv_def)
  show ?thesis
  proof (cases "a = 0x20000004")
    case True
    have "blit out 0 (take (unat n) (uart_rx_stream u @ replicate (unat n) 0)) =
        take (unat n) (uart_rx_stream u @ replicate (unat n) 0) @ drop (unat n) out"
      by (auto simp: blit_def min_def)
    then show ?thesis
      using True uart_drain_streams(1) [OF u assms(2)]
        rx_drain_buffer_irrelevant [of u out n "replicate (unat n) 0"]
      by (auto simp: soc_dma_reader_bridge_def port_load_def m prod_eq_iff split: prod.splits option.splits)
  next
    case False
    then show ?thesis
      by (simp add: soc_dma_reader_bridge_def port_load_def m soc_mem_read_bytes_def soc_mem_offset_eq)
  qed
qed

lemma writer_bridge_store:
  assumes "port_inv m" and "unat n \<le> length xs"
  shows "soc_dma_writer_bridge m a xs n =
    (case port_store m a (take (unat n) xs) of None \<Rightarrow> (Inl SOC_ERR_BUS, m) | Some m1 \<Rightarrow> (Inr (), m1))"
proof -
  obtain u sram where m: "m = (u, sram)"
    by (cases m)
  show ?thesis
  proof (cases "a = 0x20000000")
    case True
    then show ?thesis
      using tx_append_take [OF assms(2), of u] by (simp add: soc_dma_writer_bridge_def port_store_def m)
  next
    case False
    have "length (take (unat n) xs) = unat n" "\<not> m_readonly sram"
      using assms by (simp_all add: m port_inv_def sram_ok_def)
    then show ?thesis
      using False unat_u32_bound [of n]
      by (simp add: soc_dma_writer_bridge_def port_store_def m soc_mem_write_bytes_def soc_mem_offset_eq
          del: length_take)
  qed
qed

lemma port_load_inv:
  assumes "port_inv m" and l: "port_load m a n = Some (xs, m1)"
  shows "port_inv m1 \<and> length xs = unat n"
proof -
  obtain u sram where m: "m = (u, sram)"
    by (cases m)
  have u: "uart_wf u" and s: "sram_ok sram"
    using assms(1) by (simp_all add: m port_inv_def)
  show ?thesis
  proof (cases "a = 0x20000004")
    case True
    then show ?thesis
      using l s uart_drain_streams(4) [OF u, of n "replicate (unat n) 0"]
      by (auto simp: port_load_def m port_inv_def)
  next
    case False
    with l have c: "soc_mem_contains sram a n"
      by (simp add: port_load_def m split: if_splits)
    with contains_off(2) [OF c] s False l show ?thesis
      by (auto simp: port_load_def m port_inv_def u sram_ok_def mem_wf_def)
  qed
qed

lemma port_store_inv:
  assumes "port_inv m" and l: "port_store m a xs = Some m1"
  shows "port_inv m1"
proof -
  obtain u sram where m: "m = (u, sram)"
    by (cases m)
  have u: "uart_wf u" and s: "sram_ok sram"
    using assms(1) by (simp_all add: m port_inv_def)
  show ?thesis
  proof (cases "a = 0x20000000")
    case True
    have "unat (of_nat (length xs) :: u32) \<le> length xs"
      by (simp add: unat_of_nat)
    with True l s uart_append_streams(3) [OF u, of "of_nat (length xs)" xs] show ?thesis
      by (auto simp: port_store_def m port_inv_def)
  next
    case False
    with l s u show ?thesis
      by (auto simp: port_store_def m port_inv_def sram_store_ok split: if_splits)
  qed
qed

interpretation soc_port: dma_port soc_dma_reader_bridge soc_dma_writer_bridge port_inv port_load port_store
  by unfold_locales (fact reader_bridge_load writer_bridge_store port_load_inv port_store_inv)+

section \<open>Ticks\<close>

lemma soc_tick_parts:
  assumes "soc_uart_step (s_uart s) (s_intc s) = (u, ic1)"
    and "soc_timer_step (s_timer s) ic1 = (t, ic2)"
    and "soc_dma_step malloc (s_dma s) ic2 (soc_perf_tick (s_perf s)) (u, s_sram s) = (d, ic3, p, (u', sram))"
  shows "soc_tick malloc s = s\<lparr>s_ticks := s_ticks s + 1, s_perf := p, s_uart := u', s_timer := t,
     s_dma := d, s_intc := ic3, s_sram := sram\<rparr>"
  using assms by (simp add: soc_tick_def Let_def)

lemma soc_tick_cases:
  obtains u ic1 t ic2 d ic3 p u' sram
  where "soc_uart_step (s_uart s) (s_intc s) = (u, ic1)"
    and "soc_timer_step (s_timer s) ic1 = (t, ic2)"
    and "soc_dma_step malloc (s_dma s) ic2 (soc_perf_tick (s_perf s)) (u, s_sram s) = (d, ic3, p, (u', sram))"
    and "soc_tick malloc s = s\<lparr>s_ticks := s_ticks s + 1, s_perf := p, s_uart := u', s_timer := t,
       s_dma := d, s_intc := ic3, s_sram := sram\<rparr>"
  using soc_tick_parts [of s _ _ _ _ malloc] by (metis prod.exhaust)

lemma soc_tick_wf [wf_intros]:
  assumes "soc_wf s" and "malloc_sound malloc"
  shows "soc_wf (soc_tick malloc s)"
proof (rule soc_tick_cases [of s malloc])
  fix u ic1 t ic2 d ic3 p u' sram
  assume h: "soc_uart_step (s_uart s) (s_intc s) = (u, ic1)"
    "soc_timer_step (s_timer s) ic1 = (t, ic2)"
    "soc_dma_step malloc (s_dma s) ic2 (soc_perf_tick (s_perf s)) (u, s_sram s) = (d, ic3, p, (u', sram))"
    "soc_tick malloc s = s\<lparr>s_ticks := s_ticks s + 1, s_perf := p, s_uart := u', s_timer := t,
       s_dma := d, s_intc := ic3, s_sram := sram\<rparr>"
  note w = assms(1) [unfolded soc_wf_def]
  have u: "uart_wf u" "intc_wf ic1"
    using w uart_step_wf [of "s_uart s" "s_intc s"] h(1) by simp_all
  have t: "timer_wf t" "intc_wf ic2"
    using w timer_step_wf [of "s_timer s" ic1] h(2) u(2) by simp_all
  have d: "dma_wf d" "intc_wf ic3" "perf_wf p"
    using w dma_step_wf [OF _ t(2) _ h(3)] perf_count_wf(1) [of "s_perf s"] by simp_all
  have b: "dma_bound d"
    using w dma_bound_config [OF dma_step_config [OF h(3)]] by simp
  have "port_inv (u', sram)"
    by (rule soc_port.step_inv [OF _ _ _ assms(2) h(3)])
      (use w u in \<open>simp_all add: port_inv_def dma_bound_def\<close>)
  with w t d b h(4) show ?thesis
    by (simp add: soc_wf_def port_inv_def)
qed

lemma soc_ticks_wf [wf_intros]:
  "soc_wf s \<Longrightarrow> malloc_sound malloc \<Longrightarrow> soc_wf ((soc_tick malloc ^^ n) s)"
  by (induction n) (simp_all add: soc_tick_wf)

lemma soc_step_wf [wf_intros]: "soc_wf s \<Longrightarrow> malloc_sound malloc \<Longrightarrow> soc_wf (soc_step malloc s n)"
  by (simp add: soc_step_def soc_ticks_wf)

end
