(* ===== verification/Soc_Run.thy ===== *)
theory Soc_Run
  imports Soc_Inv
begin

text \<open>
  Time on the SoC: what a tick leaves alone, the bounded wait \<open>soc_run_until\<close> as a search for the
  first tick at which the predicate holds, and the boot sequence.
\<close>

section \<open>Frames of a tick\<close>

lemma soc_tick_frame [simp]:
  "s_config (soc_tick malloc s) = s_config s" "s_rom (soc_tick malloc s) = s_rom s"
  "s_regions (soc_tick malloc s) = s_regions s" "s_cpu (soc_tick malloc s) = s_cpu s"
  "s_ticks (soc_tick malloc s) = s_ticks s + 1"
  by (rule soc_tick_cases [of s malloc]; simp)+

lemma soc_ticks_frame [simp]:
  "s_config ((soc_tick malloc ^^ n) s) = s_config s" "s_rom ((soc_tick malloc ^^ n) s) = s_rom s"
  "s_regions ((soc_tick malloc ^^ n) s) = s_regions s" "s_cpu ((soc_tick malloc ^^ n) s) = s_cpu s"
  "s_ticks ((soc_tick malloc ^^ n) s) = s_ticks s + of_nat n"
  by (induction n) simp_all

lemma soc_tick_perf:
  "s_perf (soc_tick malloc s) = soc_perf_tick (s_perf s) \<or>
   s_perf (soc_tick malloc s) = soc_perf_count_dma (soc_perf_tick (s_perf s)) (d_length (s_dma s))"
proof (rule soc_tick_cases [of s malloc])
  fix u ic1 t ic2 d ic3 p u' sram
  assume h: "soc_dma_step malloc (s_dma s) ic2 (soc_perf_tick (s_perf s)) (u, s_sram s) =
      (d, ic3, p, (u', sram))"
    "soc_tick malloc s = s\<lparr>s_ticks := s_ticks s + 1, s_perf := p, s_uart := u', s_timer := t,
       s_dma := d, s_intc := ic3, s_sram := sram\<rparr>"
  show ?thesis
    using dma_step_outcomes(1) [OF h(1)] by (auto simp: h(2))
qed

lemma soc_ticks_cycles:
  "pf_enabled (s_perf ((soc_tick malloc ^^ n) s)) = pf_enabled (s_perf s) \<and>
   pf_cycles (s_perf ((soc_tick malloc ^^ n) s)) =
     (if pf_enabled (s_perf s) then pf_cycles (s_perf s) + of_nat n else pf_cycles (s_perf s))"
proof (induction n)
  case (Suc n)
  let ?s = "(soc_tick malloc ^^ n) s"
  have "pf_enabled (s_perf (soc_tick malloc ?s)) = pf_enabled (s_perf ?s)"
      "pf_cycles (s_perf (soc_tick malloc ?s)) =
        (if pf_enabled (s_perf ?s) then pf_cycles (s_perf ?s) + 1 else pf_cycles (s_perf ?s))"
    using soc_tick_perf [of malloc ?s] by (elim disjE; simp)+
  with Suc show ?case by simp
qed simp

text \<open>The UART and the timer of the SoC, apart from the interrupt controller they share.\<close>

lemma uart_step_independent: "fst (soc_uart_step u ic) = fst (soc_uart_step u ic')"
  by (simp add: soc_uart_step_def Let_def)

lemma timer_step_independent: "fst (soc_timer_step t ic) = fst (soc_timer_step t ic')"
  by (simp add: soc_timer_step_def Let_def)

text \<open>Nothing runs: only the tick counters move.\<close>

definition soc_idle :: "soc_t \<Rightarrow> bool" where
  "soc_idle s \<longleftrightarrow> \<not> uart_armed (s_uart s) \<and> \<not> timer_armed (s_timer s) \<and> \<not> dma_running (s_dma s)"

lemma soc_tick_idle:
  "soc_idle s \<Longrightarrow> soc_tick malloc s = s\<lparr>s_ticks := s_ticks s + 1, s_perf := soc_perf_tick (s_perf s)\<rparr>"
  by (simp add: soc_idle_def soc_tick_def uart_step_idle timer_step_idle dma_step_idle)

lemma soc_ticks_idle:
  assumes "soc_idle s"
  shows "(soc_tick malloc ^^ n) s =
    s\<lparr>s_ticks := s_ticks s + of_nat n, s_perf := (soc_perf_tick ^^ n) (s_perf s)\<rparr>"
proof (induction n)
  case (Suc n)
  have "soc_idle (s\<lparr>s_ticks := s_ticks s + of_nat n, s_perf := (soc_perf_tick ^^ n) (s_perf s)\<rparr>)"
    using assms by (simp add: soc_idle_def)
  with Suc show ?case
    by (simp add: soc_tick_idle ac_simps)
qed simp

section \<open>The bounded wait\<close>

text \<open>One round of the wait: evaluate the predicate, then tick.\<close>

definition wait_round :: "(nat \<Rightarrow> u8 list option) \<Rightarrow> soc_pred_t option \<Rightarrow> soc_t \<Rightarrow> soc_t" where
  "wait_round malloc pred s = soc_tick malloc (snd (pred_holds pred s))"

lemma soc_step_1: "soc_step malloc s 1 = soc_tick malloc s"
  by (simp add: soc_step_def)

lemma run_until_loop_hit:
  assumes "unat elapsed + k \<le> unat max_ticks"
    and "\<forall>j < k. \<not> fst (pred_holds pred ((wait_round malloc pred ^^ j) s))"
    and "fst (pred_holds pred ((wait_round malloc pred ^^ k) s))"
  shows "soc_run_until_loop malloc pred max_ticks elapsed s =
    (i32_of_u32 (elapsed + of_nat k), snd (pred_holds pred ((wait_round malloc pred ^^ k) s)))"
  using assms
proof (induction k arbitrary: elapsed s)
  case 0
  then show ?case
    by (subst soc_run_until_loop.simps) (simp add: split_def)
next
  case (Suc k)
  have lt: "elapsed < max_ticks" and inc: "unat (elapsed + 1) = unat elapsed + 1"
    using Suc.prems(1) unat_u32_bound [of max_ticks]
    by (simp_all add: word_less_nat_alt unat_word_ariths)
  have shift: "(wait_round malloc pred ^^ j) (wait_round malloc pred s) =
      (wait_round malloc pred ^^ Suc j) s" for j
    by (simp add: funpow_swap1)
  have miss: "\<not> fst (pred_holds pred s)"
    using Suc.prems(2) by (auto dest: spec [of _ 0])
  have "soc_run_until_loop malloc pred max_ticks (elapsed + 1) (wait_round malloc pred s) =
      (i32_of_u32 (elapsed + 1 + of_nat k),
       snd (pred_holds pred ((wait_round malloc pred ^^ k) (wait_round malloc pred s))))"
    by (rule Suc.IH) (use Suc.prems inc in \<open>auto simp: shift simp del: funpow.simps\<close>)
  with lt miss show ?case
    by (subst soc_run_until_loop.simps)
      (simp add: split_def soc_step_1 wait_round_def [symmetric] shift ac_simps del: funpow.simps)
qed

lemma run_until_loop_timeout:
  assumes "unat elapsed + k = unat max_ticks"
    and "\<forall>j \<le> k. \<not> fst (pred_holds pred ((wait_round malloc pred ^^ j) s))"
  shows "soc_run_until_loop malloc pred max_ticks elapsed s =
    (- 1, snd (pred_holds pred ((wait_round malloc pred ^^ k) s)))"
  using assms
proof (induction k arbitrary: elapsed s)
  case 0
  then show ?case
    by (subst soc_run_until_loop.simps) (simp add: split_def word_less_nat_alt)
next
  case (Suc k)
  have lt: "elapsed < max_ticks" and inc: "unat (elapsed + 1) = unat elapsed + 1"
    using Suc.prems(1) unat_u32_bound [of max_ticks]
    by (simp_all add: word_less_nat_alt unat_word_ariths)
  have shift: "(wait_round malloc pred ^^ j) (wait_round malloc pred s) =
      (wait_round malloc pred ^^ Suc j) s" for j
    by (simp add: funpow_swap1)
  have miss: "\<not> fst (pred_holds pred s)"
    using Suc.prems(2) by (auto dest: spec [of _ 0])
  have "soc_run_until_loop malloc pred max_ticks (elapsed + 1) (wait_round malloc pred s) =
      (- 1, snd (pred_holds pred ((wait_round malloc pred ^^ k) (wait_round malloc pred s))))"
    by (rule Suc.IH) (use Suc.prems inc in \<open>auto simp: shift simp del: funpow.simps\<close>)
  with lt miss show ?case
    by (subst soc_run_until_loop.simps)
      (simp add: split_def soc_step_1 wait_round_def [symmetric] shift del: funpow.simps)
qed

text \<open>The cast of the number of rounds.\<close>

lemma i32_of_nat:
  assumes "k < 2 ^ 32"
  shows "i32_of_u32 (of_nat k) = (if k < 2 ^ 31 then int k else int k - 2 ^ 32)"
proof -
  have u: "unat (of_nat k :: u32) = k"
    using assms by (simp add: unat_of_nat_u32)
  show ?thesis
    unfolding i32_of_u32_def using u sint_u32_small [of "of_nat k"] sint_u32_high [of "of_nat k"] by auto
qed

lemma soc_run_until_hit:
  assumes "unat max_ticks < 2 ^ 31" and "k \<le> unat max_ticks"
    and "fst (pred_holds pred ((wait_round malloc pred ^^ k) s))"
    and "\<forall>j < k. \<not> fst (pred_holds pred ((wait_round malloc pred ^^ j) s))"
  shows "soc_run_until malloc s pred max_ticks = (int k, snd (pred_holds pred ((wait_round malloc pred ^^ k) s)))"
proof -
  have "i32_of_u32 (of_nat k) = int k"
    using assms(1,2) by (simp add: i32_of_nat)
  with run_until_loop_hit [of 0 k max_ticks pred malloc s] assms(2-4) show ?thesis
    by (simp add: soc_run_until_def)
qed

text \<open>
  C28. The bounded wait terminates and is a search for the first hit, for every 32-bit budget: if
  the predicate first holds before tick \<open>k\<close> and \<open>k\<close> is within the budget, the wait ends in the state
  after exactly \<open>k\<close> ticks (and the predicate evaluations of the code, which may access registers)
  and returns \<open>k\<close> read as an \<open>int\<close>, which is \<open>k\<close> below 2^31 and \<open>k - 2^32\<close> from there on; if it does not
  hold within the budget, the wait returns -1 after exactly the budget. So a hit at 2^31 or later
  is returned as a negative number, and one at 2^32 - 1 cannot be told from a timeout. A null
  predicate is a plain delay that reports a timeout.
\<close>

theorem soc_run_until_first_hit:
  shows "(k \<le> unat max_ticks \<and> fst (pred_holds pred ((wait_round malloc pred ^^ k) s)) \<and>
      (\<forall>j < k. \<not> fst (pred_holds pred ((wait_round malloc pred ^^ j) s))) \<longrightarrow>
      soc_run_until malloc s pred max_ticks =
        (if k < 2 ^ 31 then int k else int k - 2 ^ 32, snd (pred_holds pred ((wait_round malloc pred ^^ k) s)))) \<and>
    ((\<forall>j \<le> unat max_ticks. \<not> fst (pred_holds pred ((wait_round malloc pred ^^ j) s))) \<longrightarrow>
      soc_run_until malloc s pred max_ticks =
        (- 1, snd (pred_holds pred ((wait_round malloc pred ^^ unat max_ticks) s))))"
proof (intro conjI impI; (elim conjE)?)
  assume h: "k \<le> unat max_ticks" "fst (pred_holds pred ((wait_round malloc pred ^^ k) s))"
    "\<forall>j < k. \<not> fst (pred_holds pred ((wait_round malloc pred ^^ j) s))"
  then have "k < 2 ^ 32"
    using unat_u32_bound [of max_ticks] by simp
  with run_until_loop_hit [of 0 k max_ticks pred malloc s] h
  show "soc_run_until malloc s pred max_ticks =
      (if k < 2 ^ 31 then int k else int k - 2 ^ 32, snd (pred_holds pred ((wait_round malloc pred ^^ k) s)))"
    by (simp add: soc_run_until_def i32_of_nat)
next
  assume "\<forall>j \<le> unat max_ticks. \<not> fst (pred_holds pred ((wait_round malloc pred ^^ j) s))"
  with run_until_loop_timeout [of 0 "unat max_ticks" max_ticks pred malloc s]
  show "soc_run_until malloc s pred max_ticks =
      (- 1, snd (pred_holds pred ((wait_round malloc pred ^^ unat max_ticks) s)))"
    by (simp add: soc_run_until_def)
qed

text \<open>A SoC in zero-initialised static storage, as \<open>g_soc\<close> is before its initialisation.\<close>

definition soc_static :: soc_t where
  "soc_static =
     \<lparr>s_config = \<lparr>cfg_cpu_frequency_mhz = 0, cfg_uart_latency_ticks = 0,
        cfg_dma_latency_per_word_ticks = 0, cfg_dma_burst = 0\<rparr>,
      s_rom = \<lparr>m_base = 0, m_size = 0, m_readonly = False, m_name = [], m_data = Some (replicate 65536 0)\<rparr>,
      s_sram = \<lparr>m_base = 0, m_size = 0, m_readonly = False, m_name = [], m_data = Some (replicate 262144 0)\<rparr>,
      s_regions = [], s_perf = perf_static, s_intc = intc_static, s_uart = uart_static,
      s_timer = timer_static,
      s_dma = \<lparr>d_latency_per_word = 0, d_burst = 0, d_regions = None, d_periph_eps = None,
        d_caps = \<lparr>cap_alignment = 0, cap_max_transfer = 0, cap_ram_to_ram = False,
          cap_mem_to_periph = False, cap_periph_to_mem = False, cap_interrupts = False,
          cap_cancel = False\<rparr>,
        d_irq_line = 0, d_intc = NullRef, d_perf = NullRef, d_reader = None, d_writer = None,
        d_src = 0, d_dst = 0, d_length = 0, d_ctrl = 0, d_busy = False, d_done = False,
        d_error = False, d_err_code = 0, d_remaining = 0, d_irq_enable_latched = False,
        d_fault_stuck_busy = False\<rparr>,
      s_cpu = \<lparr>c_rom_base = 0, c_sram_top = 0, c_pc = 0, c_sp = 0, c_running = False, c_boot_ticks = 0\<rparr>,
      s_ticks = 0\<rparr>"

lemma soc_static_storage: "soc_storage soc_static"
  by (simp add: soc_storage_def soc_static_def uart_static_def)

theorem soc_run_until_first_hit_witness:
  "fst (soc_run_until (\<lambda>n. None) (soc_init soc_static None) (Some (\<lambda>s. (s_ticks s = 3, s))) 0xFFFFFFFF) = 3"
proof -
  let ?p = "Some (\<lambda>s. (s_ticks s = 3, s)) :: soc_pred_t option"
  let ?s = "soc_init soc_static None" and ?m = "\<lambda>n. None :: u8 list option"
  have r: "wait_round ?m ?p = soc_tick ?m"
    by (rule ext) (simp add: wait_round_def pred_holds_def)
  have t: "s_ticks ?s = 0"
    by (simp add: soc_init_def Let_def)
  have j: "(of_nat j :: u32) \<noteq> 3" if "j < 3" for j :: nat
  proof -
    from that have "j = 0 \<or> j = 1 \<or> j = 2"
      by linarith
    then show ?thesis by auto
  qed
  from soc_run_until_first_hit [of 3 "0xFFFFFFFF" ?p ?m ?s] show ?thesis
    by (simp add: r t j pred_holds_def)
qed

section \<open>Boot\<close>

lemma soc_reset_idle: "soc_idle (soc_reset_peripherals s)"
  by (simp add: soc_idle_def soc_reset_peripherals_def uart_armed_def timer_armed_def dma_running_def
      soc_uart_reset_def soc_timer_reset_def soc_dma_reset_def)

lemma soc_reset_wf [wf_intros]: "soc_wf s \<Longrightarrow> soc_wf (soc_reset_peripherals s)"
  using timer_init_wf(2) [of "s_timer s"] intc_reset_wf(1) [of "s_intc s"]
  by (simp add: soc_wf_def soc_reset_peripherals_def uart_init_wf dma_init_wf timer_wf_def intc_wf_def)
    (simp add: dma_bound_def soc_dma_reset_def)

text \<open>The ROM after the image, if there is one, has been loaded.\<close>

definition boot_rom :: "soc_mem_t \<Rightarrow> u32 list option \<Rightarrow> soc_mem_t" where
  "boot_rom m rom_words =
     (case rom_words of
        None \<Rightarrow> m | Some [] \<Rightarrow> m
      | Some ws \<Rightarrow> snd (soc_mem_load_words
          (m\<lparr>m_data := map_option (\<lambda>d. memset_at d 0 0 16384) (m_data m)\<rparr>) ws))"

text \<open>The counters after five ticks of an otherwise idle SoC.\<close>

definition boot_perf :: soc_perf_t where
  "boot_perf = \<lparr>pf_cycles = 5, pf_mem_acc = 0, pf_dma_bytes = 0, pf_irq_count = 0, pf_stalls = 0,
     pf_enabled = True, pf_ctrl = 1\<rparr>"

definition boot_ready :: "soc_t \<Rightarrow> u32 list option \<Rightarrow> bool \<Rightarrow> u32 \<Rightarrow> soc_perf_t \<Rightarrow> soc_t" where
  "boot_ready s rom_words run n p =
     (soc_reset_peripherals s)\<lparr>s_ticks := n, s_perf := p,
        s_cpu := (s_cpu s)\<lparr>c_sram_top := 0x10010000, c_pc := c_rom_base (s_cpu s),
          c_sp := 0x10010000, c_running := run, c_boot_ticks := 0\<rparr>,
        s_rom := boot_rom (s_rom s) rom_words, s_sram := soc_mem_zero (s_sram s)\<rparr>"

lemma boot_prepare_eq:
  assumes "s_regions s = vlab_memory_map"
  shows "soc_boot_prepare s rom_words = boot_ready s rom_words False 0
    ((soc_perf_reset_counters (s_perf s))\<lparr>pf_enabled := True, pf_ctrl := 1\<rparr>)"
proof -
  have eq: "soc_boot_prepare s rom_words = boot_ready s rom_words False 0
      ((soc_perf_reset_counters (s_perf s))\<lparr>pf_enabled := True, pf_ctrl := 1\<rparr>)"
    if "rom_words = None \<or> rom_words = Some [] \<or> rom_words = Some (w # ws)" for w ws
    using that assms
    by (cases s; elim disjE) (simp_all add: soc_boot_prepare_def boot_ready_def Let_def vlab_map_nth [simplified]
      boot_rom_def soc_reset_peripherals_def soc_cpu_reset_def)
  show ?thesis
  proof (cases rom_words)
    case (Some ws)
    then show ?thesis
      by (cases ws) (use eq in simp_all)
  qed (use eq in simp)
qed

lemma soc_boot_eq:
  assumes "soc_wf s"
  shows "soc_boot malloc s rom_words =
    (let f = (if cfg_cpu_frequency_mhz (s_config s) \<noteq> 0 then cfg_cpu_frequency_mhz (s_config s) else 100)
     in (\<lparr>bi_boot_ticks = 5, bi_cpu_frequency_mhz = f, bi_boot_ns = 5000 div f\<rparr>,
         boot_ready s rom_words True 5 boot_perf))"
proof -
  let ?p = "(soc_perf_reset_counters (s_perf s))\<lparr>pf_enabled := True, pf_ctrl := 1\<rparr>"
  let ?s6 = "boot_ready s rom_words False 0 ?p"
  have prep: "soc_boot_prepare s rom_words = ?s6"
    using assms boot_prepare_eq by (simp add: soc_wf_def)
  have cnt: "(soc_perf_tick ^^ 5) ?p = boot_perf"
    by (simp add: eval_nat_numeral soc_perf_tick_def soc_perf_reset_counters_def boot_perf_def)
  have "soc_idle ?s6"
    using soc_reset_idle [of s] by (simp add: soc_idle_def boot_ready_def)
  from soc_ticks_idle [OF this, of 5 malloc]
  have "soc_step malloc ?s6 5 = boot_ready s rom_words False 5 boot_perf"
    by (simp add: soc_step_def boot_ready_def cnt)
  then show ?thesis
    by (simp add: soc_boot_def prep Let_def boot_ready_def soc_cpu_enter_main_def soc_reset_peripherals_def)
qed

lemma rom_cleared_ok:
  assumes "rom_ok m"
  shows "rom_ok (m\<lparr>m_data := map_option (\<lambda>d. memset_at d 0 0 16384) (m_data m)\<rparr>)"
  using assms by (auto simp: rom_ok_def mem_wf_def m_bytes_def)

lemma rom_load_ok:
  assumes "rom_ok m"
  shows "rom_ok (snd (soc_mem_load_words m ws))"
  using assms load_words_keeps [of m ws] by (simp add: rom_ok_def)

lemma boot_rom_ok:
  assumes "rom_ok m"
  shows "rom_ok (boot_rom m rom_words)"
  using assms rom_load_ok [OF rom_cleared_ok [OF assms]]
  by (simp add: boot_rom_def split: option.split list.split)

lemma boot_rom_image:
  assumes "rom_ok m" and "4 * length ws \<le> 16384" and "ws \<noteq> []"
  shows "(\<forall>k < length ws. soc_mem_read_word (boot_rom m (Some ws)) (of_nat (4 * k)) = Inr (ws ! k)) \<and>
    (\<forall>i. 4 * length ws \<le> i \<and> i < 16384 \<longrightarrow> m_bytes (boot_rom m (Some ws)) ! i = 0)"
proof -
  let ?m = "m\<lparr>m_data := map_option (\<lambda>d. memset_at d 0 0 16384) (m_data m)\<rparr>"
  have ok: "rom_ok ?m"
    by (rule rom_cleared_ok [OF assms(1)])
  have "boot_rom m (Some ws) = snd (soc_mem_load_words ?m ws)"
    using assms(3) by (cases ws) (simp_all add: boot_rom_def)
  moreover have "\<exists>m'. soc_mem_load_words ?m ws = (Inr (), m') \<and> mem_wf m' \<and>
      (\<forall>k < length ws. soc_mem_read_word m' (m_base ?m + of_nat (4 * k)) = Inr (ws ! k)) \<and>
      (\<forall>i. 4 * length ws \<le> i \<and> i < length (m_bytes ?m) \<longrightarrow> m_bytes m' ! i = m_bytes ?m ! i)"
    using load_words_image [of ?m ws] ok assms(2) by (simp add: rom_ok_def)
  moreover have "16384 \<le> length (m_bytes ?m)" "\<forall>i < 16384. m_bytes ?m ! i = 0"
    using assms(1) by (auto simp: rom_ok_def mem_wf_def m_bytes_def nth_memset_at)
  ultimately show ?thesis
    using assms(1) by (auto simp: rom_ok_def)
qed

lemma sram_zero_ok: "sram_ok m \<Longrightarrow> sram_ok (soc_mem_zero m)"
  by (simp add: sram_ok_def soc_mem_zero_wf)

lemma boot_ready_wf [wf_intros]:
  assumes "soc_wf s" and "perf_wf p"
  shows "soc_wf (boot_ready s rom_words run n p)"
  using soc_reset_wf [OF assms(1)] assms boot_rom_ok [of "s_rom s" rom_words] sram_zero_ok [of "s_sram s"]
  by (simp add: soc_wf_def boot_ready_def)

lemma soc_boot_wf [wf_intros]: "soc_wf s \<Longrightarrow> soc_wf (snd (soc_boot malloc s rom_words))"
  using boot_ready_wf [of s boot_perf] by (simp add: soc_boot_eq Let_def boot_perf_def perf_wf_def)

text \<open>
  C5. Boot. From any well-formed state (whatever ran before, whatever faults were injected) the
  boot sequence takes exactly five ticks and reports them, with the nanoseconds of the
  configured clock. It leaves the CPU running at the ROM base with the stack pointer at the top
  of SRAM, the counters enabled and showing only the five boot cycles, no interrupt enabled,
  pending or active, and every register of the timer, the UART and the DMA engine at 0: no
  timer running and no FIRED flag, no byte in flight, received or queued, no transfer, flag,
  error code or latched interrupt enable, no injected fault. Every byte of SRAM is zero, an image
  that fits the ROM is readable word by word with zeros behind it, without an image the ROM is as
  it was, and the configuration and the wiring of the peripherals are unchanged.
\<close>

theorem soc_boot_state:
  assumes "soc_wf s" and "soc_boot malloc s rom_words = (info, s')"
    and "f = (if cfg_cpu_frequency_mhz (s_config s) = 0 then 100 else cfg_cpu_frequency_mhz (s_config s))"
  shows "info = \<lparr>bi_boot_ticks = 5, bi_cpu_frequency_mhz = f, bi_boot_ns = 5000 div f\<rparr> \<and>
    soc_wf s' \<and> soc_idle s' \<and> s_ticks s' = 5 \<and>
    c_pc (s_cpu s') = c_rom_base (s_cpu s) \<and> c_sp (s_cpu s') = 0x10010000 \<and>
    c_sram_top (s_cpu s') = 0x10010000 \<and> c_running (s_cpu s') \<and>
    s_perf s' = boot_perf \<and>
    s_intc s' = (s_intc s)\<lparr>ic_enable := 0, ic_pending := 0, ic_active := 0\<rparr> \<and>
    s_timer s' = (s_timer s)\<lparr>t_ctrl := 0, t_load := 0, t_value := 0, t_irq_status := 0\<rparr> \<and>
    s_uart s' = (s_uart s)\<lparr>u_ctrl := 0, u_bauddiv := 0, u_txdata := 0, u_rxdata := 0, u_busy := 0,
      u_rx_valid := False, u_fault_stuck_busy := False, u_dma_tx_len := 0, u_dma_rx_len := 0\<rparr> \<and>
    s_dma s' = (s_dma s)\<lparr>d_src := 0, d_dst := 0, d_length := 0, d_ctrl := 0, d_busy := False, d_done := False,
      d_error := False, d_err_code := 0, d_remaining := 0, d_irq_enable_latched := False,
      d_fault_stuck_busy := False\<rparr> \<and>
    soc_dma_status (s_dma s') = 0 \<and> soc_uart_status (s_uart s') = SOC_UART_STATUS_TX_EMPTY \<and>
    s_config s' = s_config s \<and> s_regions s' = s_regions s \<and>
    (\<forall>i < 65536. m_bytes (s_sram s') ! i = 0) \<and>
    (rom_words = None \<longrightarrow> s_rom s' = s_rom s) \<and>
    (\<forall>ws. rom_words = Some ws \<and> ws \<noteq> [] \<and> 4 * length ws \<le> 16384 \<longrightarrow>
       (\<forall>k < length ws. soc_mem_read_word (s_rom s') (of_nat (4 * k)) = Inr (ws ! k)) \<and>
       (\<forall>i. 4 * length ws \<le> i \<and> i < 16384 \<longrightarrow> m_bytes (s_rom s') ! i = 0))"
proof -
  have eq: "info = \<lparr>bi_boot_ticks = 5, bi_cpu_frequency_mhz = f, bi_boot_ns = 5000 div f\<rparr>"
      "s' = boot_ready s rom_words True 5 boot_perf"
    using assms(2,3) by (auto simp: soc_boot_eq [OF assms(1)] Let_def)
  have "soc_wf s'" "soc_idle s'"
    using boot_ready_wf [OF assms(1), of boot_perf] soc_reset_idle [of s]
    by (simp_all add: eq boot_perf_def perf_wf_def soc_idle_def boot_ready_def)
  moreover have "\<forall>i < 65536. m_bytes (s_sram s') ! i = 0"
    using assms(1)
    by (auto simp: eq boot_ready_def m_bytes_zero soc_wf_def sram_ok_def mem_wf_def nth_memset_at)
  moreover have "(\<forall>k < length ws. soc_mem_read_word (s_rom s') (of_nat (4 * k)) = Inr (ws ! k)) \<and>
      (\<forall>i. 4 * length ws \<le> i \<and> i < 16384 \<longrightarrow> m_bytes (s_rom s') ! i = 0)"
    if "rom_words = Some ws" "ws \<noteq> []" "4 * length ws \<le> 16384" for ws
    using that assms(1) boot_rom_image [of "s_rom s" ws] by (simp add: eq boot_ready_def soc_wf_def)
  moreover have "s_intc s' = (s_intc s)\<lparr>ic_enable := 0, ic_pending := 0, ic_active := 0\<rparr>"
      "s_timer s' = (s_timer s)\<lparr>t_ctrl := 0, t_load := 0, t_value := 0, t_irq_status := 0\<rparr>"
      "s_uart s' = soc_uart_reset (s_uart s)" "s_dma s' = soc_dma_reset (s_dma s)"
      "s_config s' = s_config s" "s_regions s' = s_regions s" "rom_words = None \<longrightarrow> s_rom s' = s_rom s"
    by (simp_all add: eq boot_ready_def boot_rom_def soc_reset_peripherals_def soc_timer_reset_def soc_intc_reset_def)
  ultimately show ?thesis
    by (simp add: eq(1) soc_uart_reset_def soc_dma_reset_def soc_dma_status_def soc_uart_status_def)
      (simp add: eq(2) boot_ready_def)
qed

theorem soc_boot_state_witness:
  "fst (soc_boot (\<lambda>n. None) (soc_init soc_static None) (Some [7, 9])) =
     \<lparr>bi_boot_ticks = 5, bi_cpu_frequency_mhz = 100, bi_boot_ns = 50\<rparr> \<and>
   soc_mem_read_word (s_rom (snd (soc_boot (\<lambda>n. None) (soc_init soc_static None) (Some [7, 9])))) 4 = Inr 9 \<and>
   t_irq_status (s_timer (snd (soc_boot (\<lambda>n. None) (soc_init soc_static None) (Some [7, 9])))) = 0"
proof -
  let ?s = "soc_init soc_static None"
  obtain info s' where r: "soc_boot (\<lambda>n. None) ?s (Some [7, 9]) = (info, s')"
    by (cases "soc_boot (\<lambda>n. None) ?s (Some [7, 9])")
  have f: "(100 :: u32) = (if cfg_cpu_frequency_mhz (s_config ?s) = 0 then 100
      else cfg_cpu_frequency_mhz (s_config ?s))"
    by (simp add: soc_init_def Let_def soc_config_default_def)
  note b = soc_boot_state [OF soc_init_wf [OF soc_static_storage] r f]
  then have "\<forall>k < length [7, 9 :: u32]. soc_mem_read_word (s_rom s') (of_nat (4 * k)) = Inr ([7, 9] ! k)"
    by simp
  from spec [OF this, of 1] b r show ?thesis by simp
qed

end
