(* ===== verification/Soc_Bus.thy ===== *)
theory Soc_Bus
  imports Soc_Run
begin

text \<open>
  The contract of the bus, \<open>soc_read\<close> and \<open>soc_write\<close>: which addresses are readable and which are
  writable, that a fault costs one stall and changes nothing else, and that an accepted access
  reaches the one device that owns the address. The SRAM as the bus sees it is a word memory.
\<close>

section \<open>The register windows\<close>

definition readable_registers :: "u32 set" where
  "readable_registers =
     {0x20000004, 0x20000008, 0x2000000C, 0x20000010,
      0x20001000, 0x20001004, 0x20001008, 0x2000100C,
      0x20002000, 0x20002004, 0x20002008, 0x2000200C, 0x20002010, 0x20002018,
      0x20003000, 0x20003004, 0x20003008, 0x20003010,
      0x20004000, 0x20004004, 0x20004008, 0x2000400C, 0x20004010, 0x20004014}"

definition writable_registers :: "u32 set" where
  "writable_registers =
     {0x20000000, 0x2000000C, 0x20000010,
      0x20001000, 0x20001004, 0x2000100C, 0x20001010,
      0x20002000, 0x20002004, 0x20002008, 0x2000200C, 0x20002014,
      0x20003000, 0x2000300C,
      0x20004000, 0x20004004, 0x20004008, 0x2000400C, 0x20004010, 0x20004014}"

definition is_Inr :: "'a + 'b \<Rightarrow> bool" where
  "is_Inr x = (case x of Inl _ \<Rightarrow> False | Inr _ \<Rightarrow> True)"

lemma is_Inr_simps [simp]: "\<not> is_Inr (Inl e)" "is_Inr (Inr v)"
  by (simp_all add: is_Inr_def)

lemma is_Inr_ex: "is_Inr x \<longleftrightarrow> (\<exists>v. x = Inr v)"
  by (cases x) simp_all

lemma is_Inr_unit: "is_Inr (x :: 'a + unit) \<longleftrightarrow> x = Inr ()"
  by (cases x) simp_all

lemma is_Inr_if [simp]: "is_Inr (if c then a else b) = (if c then is_Inr a else is_Inr b)"
  by simp

text \<open>Which offsets each register file reads and writes.\<close>

lemma register_reads:
  "is_Inr (fst (soc_uart_read u off)) \<longleftrightarrow> off \<in> {4, 8, 12, 16}"
  "is_Inr (fst (soc_timer_read t off)) \<longleftrightarrow> off \<in> {0, 4, 8, 12}"
  "is_Inr (fst (soc_dma_read d off)) \<longleftrightarrow> off \<in> {0, 4, 8, 12, 16, 24}"
  "is_Inr (fst (soc_intc_read ic p off)) \<longleftrightarrow> off \<in> {0, 4, 8, 16}"
  "is_Inr (fst (soc_perf_read p off)) \<longleftrightarrow> off \<in> {0, 4, 8, 12, 16, 20}"
  by (simp_all add: soc_uart_read_def soc_timer_read_def soc_dma_read_def soc_intc_read_def
      soc_perf_read_def Let_def)

lemma register_writes:
  "is_Inr (fst (soc_uart_write u p off v)) \<longleftrightarrow> off \<in> {12, 16} \<or> off = 0 \<and> bit (u_ctrl u) 0"
  "is_Inr (fst (soc_timer_write t off v)) \<longleftrightarrow> off \<in> {0, 4, 12, 16}"
  "is_Inr (fst (soc_intc_write ic off v)) \<longleftrightarrow> off \<in> {0, 12}"
  "is_Inr (fst (soc_perf_write p off v)) \<longleftrightarrow> off \<in> {0, 4, 8, 12, 16, 20}"
  by (auto simp: soc_uart_write_def soc_timer_write_def soc_intc_write_def soc_perf_write_def Let_def)

lemma register_writes_dma: "is_Inr (fst (soc_dma_write d ic p off v)) \<longleftrightarrow> off \<in> {0, 4, 8, 12, 20}"
  using dma_write_accepted [of off d ic p v] dma_write_rejected [of off d ic p v]
  by (cases "off \<in> {0, 4, 8, 12, 20}") simp_all

lemma mem_read_word_ok: "is_Inr (soc_mem_read_word m a) \<longleftrightarrow> a mod 4 = 0 \<and> soc_mem_contains m a 4"
  by (simp add: soc_mem_read_word_def soc_mem_offset_eq Let_def)

lemma mem_write_word_ok:
  "is_Inr (fst (soc_mem_write_word m a v)) \<longleftrightarrow> a mod 4 = 0 \<and> \<not> m_readonly m \<and> soc_mem_contains m a 4"
  by (simp add: soc_mem_write_word_def soc_mem_offset_eq)

text \<open>A register offset within its window fixes the route.\<close>

lemma offset_eq: "(a :: u32) - b = c \<longleftrightarrow> a = b + c"
  by (auto simp: diff_eq_eq add.commute)

lemma soc_route_wf: "soc_wf s \<Longrightarrow> soc_route s a = vlab_route (unat a)"
  by (simp add: soc_route_def soc_wf_def soc_bus_route_vlab)

definition in_image :: "u32 \<Rightarrow> bool" where
  "in_image a \<longleftrightarrow> unat a + 4 \<le> 0x4000"

definition in_sram_word :: "u32 \<Rightarrow> bool" where
  "in_sram_word a \<longleftrightarrow> 0x10000000 \<le> unat a \<and> unat a + 4 \<le> 0x10010000"

lemma route_images:
  "vlab_route (unat a) = 0 \<longleftrightarrow> in_image a" "vlab_route (unat a) = 1 \<longleftrightarrow> in_sram_word a"
  by (auto simp: vlab_route_def in_image_def in_sram_word_def)

lemma sram_contains:
  "sram_ok m \<Longrightarrow> soc_mem_contains m a n \<longleftrightarrow>
     0 < unat n \<and> 0x10000000 \<le> unat a \<and> unat a + unat n \<le> 0x10010000"
  by (auto simp: sram_ok_def soc_mem_contains_iff)

lemma image_contains:
  "rom_ok m \<Longrightarrow> soc_mem_contains m a 4 = in_image a" "sram_ok m \<Longrightarrow> soc_mem_contains m a 4 = in_sram_word a"
  by (auto simp: rom_ok_def sram_ok_def soc_mem_contains_iff in_image_def in_sram_word_def)

lemma window_route:
  assumes "unat (a - b) < 0x1000" and "unat b = 0x20000000 + k * 0x1000" and "k < 5"
  shows "vlab_route (unat (a :: u32)) = int k + 2"
proof -
  have "unat a = unat (b + (a - b))"
    by simp
  also have "\<dots> = unat b + unat (a - b)"
    using assms unfolding unat_word_ariths by simp
  finally show ?thesis
    using assms vlab_route_window [of "unat (a - b)" k] by (simp add: ac_simps)
qed

lemma routed_offset:
  "list_all (\<lambda>c. unat c < 0x1000) cs \<Longrightarrow> unat b = 0x20000000 + k * 0x1000 \<Longrightarrow> k < 5 \<Longrightarrow>
     (vlab_route (unat (a :: u32)) = int k + 2 \<and> a - b \<in> set cs) = (a - b \<in> set cs)"
  using window_route [of a b k] by (auto simp: list_all_iff)

lemmas routed_offsets =
  routed_offset [of _ "0x20000000" 0, simplified] routed_offset [of _ "0x20001000" 1, simplified]
  routed_offset [of _ "0x20002000" 2, simplified] routed_offset [of _ "0x20003000" 3, simplified]
  routed_offset [of _ "0x20004000" 4, simplified]

lemma readable_routes:
  "a \<in> readable_registers \<longleftrightarrow>
     vlab_route (unat a) = 2 \<and> a - 0x20000000 \<in> {4, 8, 12, 16} \<or>
     vlab_route (unat a) = 3 \<and> a - 0x20001000 \<in> {0, 4, 8, 12} \<or>
     vlab_route (unat a) = 4 \<and> a - 0x20002000 \<in> {0, 4, 8, 12, 16, 24} \<or>
     vlab_route (unat a) = 5 \<and> a - 0x20003000 \<in> {0, 4, 8, 16} \<or>
     vlab_route (unat a) = 6 \<and> a - 0x20004000 \<in> {0, 4, 8, 12, 16, 20}"
proof -
  have "a \<in> readable_registers \<longleftrightarrow>
      a - 0x20000000 \<in> {4, 8, 12, 16} \<or> a - 0x20001000 \<in> {0, 4, 8, 12} \<or>
      a - 0x20002000 \<in> {0, 4, 8, 12, 16, 24} \<or> a - 0x20003000 \<in> {0, 4, 8, 16} \<or>
      a - 0x20004000 \<in> {0, 4, 8, 12, 16, 20}"
    by (simp add: readable_registers_def offset_eq disj_assoc)
  then show ?thesis
    using routed_offsets(1) [of "[4, 8, 12, 16]" a] routed_offsets(2) [of "[0, 4, 8, 12]" a]
      routed_offsets(3) [of "[0, 4, 8, 12, 16, 24]" a] routed_offsets(4) [of "[0, 4, 8, 16]" a]
      routed_offsets(5) [of "[0, 4, 8, 12, 16, 20]" a]
    by simp
qed

lemma writable_routes:
  "a \<in> writable_registers \<longleftrightarrow>
     vlab_route (unat a) = 2 \<and> a - 0x20000000 \<in> {0, 12, 16} \<or>
     vlab_route (unat a) = 3 \<and> a - 0x20001000 \<in> {0, 4, 12, 16} \<or>
     vlab_route (unat a) = 4 \<and> a - 0x20002000 \<in> {0, 4, 8, 12, 20} \<or>
     vlab_route (unat a) = 5 \<and> a - 0x20003000 \<in> {0, 12} \<or>
     vlab_route (unat a) = 6 \<and> a - 0x20004000 \<in> {0, 4, 8, 12, 16, 20}"
proof -
  have "a \<in> writable_registers \<longleftrightarrow>
      a - 0x20000000 \<in> {0, 12, 16} \<or> a - 0x20001000 \<in> {0, 4, 12, 16} \<or>
      a - 0x20002000 \<in> {0, 4, 8, 12, 20} \<or> a - 0x20003000 \<in> {0, 12} \<or>
      a - 0x20004000 \<in> {0, 4, 8, 12, 16, 20}"
    by (simp add: writable_registers_def offset_eq disj_assoc)
  then show ?thesis
    using routed_offsets(1) [of "[0, 12, 16]" a] routed_offsets(2) [of "[0, 4, 12, 16]" a]
      routed_offsets(3) [of "[0, 4, 8, 12, 20]" a] routed_offsets(4) [of "[0, 12]" a]
      routed_offsets(5) [of "[0, 4, 8, 12, 16, 20]" a]
    by simp
qed

section \<open>Accepted accesses\<close>

lemma fst_case: "fst (case x of (a, b) \<Rightarrow> (a, f b)) = fst x"
  "fst (case y of (a, b, c) \<Rightarrow> (a, g b c)) = fst y"
  "fst (case z of (a, b, c, d) \<Rightarrow> (a, h b c d)) = fst z"
  by (simp_all split: prod.split)

lemma read_device_ok:
  "is_Inr (fst (soc_read_device s kind a)) \<longleftrightarrow>
     kind = 0 \<and> a mod 4 = 0 \<and> soc_mem_contains (s_rom s) a 4 \<or>
     kind = 1 \<and> a mod 4 = 0 \<and> soc_mem_contains (s_sram s) a 4 \<or>
     kind = 2 \<and> a - 0x20000000 \<in> {4, 8, 12, 16} \<or>
     kind = 3 \<and> a - 0x20001000 \<in> {0, 4, 8, 12} \<or>
     kind = 4 \<and> a - 0x20002000 \<in> {0, 4, 8, 12, 16, 24} \<or>
     kind = 5 \<and> a - 0x20003000 \<in> {0, 4, 8, 16} \<or>
     kind = 6 \<and> a - 0x20004000 \<in> {0, 4, 8, 12, 16, 20}"
  unfolding soc_read_device_def
  by (auto simp: fst_case register_reads mem_read_word_ok simp del: insert_iff)

lemma write_device_ok:
  "is_Inr (fst (soc_write_device s kind a v)) \<longleftrightarrow>
     kind = 0 \<and> a mod 4 = 0 \<and> \<not> m_readonly (s_rom s) \<and> soc_mem_contains (s_rom s) a 4 \<or>
     kind = 1 \<and> a mod 4 = 0 \<and> \<not> m_readonly (s_sram s) \<and> soc_mem_contains (s_sram s) a 4 \<or>
     kind = 2 \<and> (a - 0x20000000 \<in> {12, 16} \<or> a - 0x20000000 = 0 \<and> bit (u_ctrl (s_uart s)) 0) \<or>
     kind = 3 \<and> a - 0x20001000 \<in> {0, 4, 12, 16} \<or>
     kind = 4 \<and> a - 0x20002000 \<in> {0, 4, 8, 12, 20} \<or>
     kind = 5 \<and> a - 0x20003000 \<in> {0, 12} \<or>
     kind = 6 \<and> a - 0x20004000 \<in> {0, 4, 8, 12, 16, 20}"
  unfolding soc_write_device_def
  by (auto simp: fst_case register_writes register_writes_dma mem_write_word_ok simp del: insert_iff)

lemma soc_read_ok:
  "is_Inr (fst (soc_read s a)) \<longleftrightarrow> a mod 4 = 0 \<and> is_Inr (fst (soc_read_device s (soc_route s a) a))"
proof -
  let ?s = "s\<lparr>s_perf := soc_perf_count_mem (s_perf s)\<rparr>"
  have "is_Inr (fst (soc_read s a)) \<longleftrightarrow> a mod 4 = 0 \<and> is_Inr (fst (soc_read_device ?s (soc_route s a) a))"
    by (auto simp: soc_read_def Let_def split_def soc_route_def split: sum.split)
  then show ?thesis
    by (simp add: read_device_ok del: insert_iff)
qed

lemma soc_write_ok:
  "is_Inr (fst (soc_write s a v)) \<longleftrightarrow> a mod 4 = 0 \<and> is_Inr (fst (soc_write_device s (soc_route s a) a v))"
proof -
  let ?s = "s\<lparr>s_perf := soc_perf_count_mem (s_perf s)\<rparr>"
  have "is_Inr (fst (soc_write s a v)) \<longleftrightarrow>
      a mod 4 = 0 \<and> is_Inr (fst (soc_write_device ?s (soc_route s a) a v))"
    by (auto simp: soc_write_def Let_def split_def soc_route_def split: sum.split)
  then show ?thesis
    by (simp add: write_device_ok del: insert_iff)
qed

text \<open>
  C4. The access map of the bus. A read succeeds exactly at the aligned words of ROM and SRAM
  and at the readable registers; a write succeeds exactly at the aligned words of SRAM and at
  the writable registers, \<open>TXDATA\<close> only while the UART is enabled. Everything else (unaligned
  or unmapped addresses, write-only and read-only registers, ROM writes) is refused.
\<close>

theorem soc_access_map:
  assumes "soc_wf s"
  shows "((\<exists>v. fst (soc_read s a) = Inr v) \<longleftrightarrow>
      a mod 4 = 0 \<and> (in_image a \<or> in_sram_word a \<or> a \<in> readable_registers)) \<and>
    (fst (soc_write s a w) = Inr () \<longleftrightarrow>
      a mod 4 = 0 \<and> (in_sram_word a \<or> a \<in> writable_registers \<and>
        (a = VLAB_UART_TXDATA \<longrightarrow> bit (u_ctrl (s_uart s)) 0)))"
proof -
  have ok: "rom_ok (s_rom s)" "sram_ok (s_sram s)"
    using assms by (simp_all add: soc_wf_def)
  have perms: "m_readonly (s_rom s)" "\<not> m_readonly (s_sram s)"
    using ok by (simp_all add: rom_ok_def sram_ok_def)
  have "is_Inr (fst (soc_read s a)) \<longleftrightarrow>
      a mod 4 = 0 \<and> (in_image a \<or> in_sram_word a \<or> a \<in> readable_registers)"
    unfolding soc_read_ok read_device_ok readable_routes soc_route_wf [OF assms] route_images
      image_contains(1) [OF ok(1)] image_contains(2) [OF ok(2)] by argo
  moreover have "is_Inr (fst (soc_write s a w)) \<longleftrightarrow>
      a mod 4 = 0 \<and> (in_sram_word a \<or> a \<in> writable_registers \<and>
        (a = VLAB_UART_TXDATA \<longrightarrow> bit (u_ctrl (s_uart s)) 0))"
  proof (cases "a = VLAB_UART_TXDATA")
    case True
    then have "vlab_route (unat a) = 2"
      by (simp add: vlab_route_def)
    with True show ?thesis
      unfolding soc_write_ok write_device_ok soc_route_wf [OF assms] in_sram_word_def
      by (simp add: writable_registers_def)
  next
    case False
    then have "a - 0x20000000 \<noteq> 0" "(a - 0x20000000 \<in> {0, 12, 16}) = (a - 0x20000000 \<in> {12, 16})"
      by (simp_all add: offset_eq)
    with False perms show ?thesis
      unfolding soc_write_ok write_device_ok writable_routes soc_route_wf [OF assms] route_images
        image_contains(1) [OF ok(1)] image_contains(2) [OF ok(2)] by argo
  qed
  ultimately show ?thesis
    by (simp only: is_Inr_ex [symmetric] is_Inr_unit [symmetric])
qed

theorem soc_access_map_witness:
  "fst (soc_write (soc_init soc_static None) 0x4 1) \<noteq> Inr () \<and>
   fst (soc_write (soc_init soc_static None) 0x10000004 1) = Inr () \<and>
   \<not> (\<exists>v. fst (soc_read (soc_init soc_static None) 0x20000000) = Inr v)"
proof -
  have "soc_wf (soc_init soc_static None)"
    by (rule soc_init_wf [OF soc_static_storage])
  note m = soc_access_map [OF this]
  show ?thesis
    using m [of "0x4" 1] m [of "0x10000004" 1] m [of "0x20000000" 1]
    by (simp add: in_image_def in_sram_word_def readable_registers_def writable_registers_def)
qed

section \<open>Faults\<close>

lemma soc_update_same [simp]:
  "s\<lparr>s_rom := s_rom s\<rparr> = s" "s\<lparr>s_sram := s_sram s\<rparr> = s" "s\<lparr>s_uart := s_uart s\<rparr> = s"
  "s\<lparr>s_timer := s_timer s\<rparr> = s" "s\<lparr>s_dma := s_dma s\<rparr> = s" "s\<lparr>s_perf := s_perf s\<rparr> = s"
  "s\<lparr>s_intc := s_intc s\<rparr> = s" "s\<lparr>s_intc := s_intc s, s_perf := s_perf s\<rparr> = s"
  "s\<lparr>s_uart := s_uart s, s_perf := s_perf s\<rparr> = s"
  "s\<lparr>s_dma := s_dma s, s_intc := s_intc s, s_perf := s_perf s\<rparr> = s"
  by (cases s; simp)+

lemma device_kinds:
  obtains "kind = 0" | "kind = 1" | "kind = 2" | "kind = 3" | "kind = 4" | "kind = 5" | "kind = (6 :: int)"
  | "kind \<notin> {0, 1, 2, 3, 4, 5, 6}"
  by blast

lemma read_device_refused:
  assumes "fst (soc_read_device s kind a) = Inl e"
  shows "snd (soc_read_device s kind a) = s"
  using assms uart_read_refused [of "s_uart s" "a - SOC_UART_BASE" e]
    timer_read_refused [of "s_timer s" "a - SOC_TIMER_BASE" e]
    intc_read_refused [of "s_intc s" "s_perf s" "a - SOC_INTC_BASE" e]
    perf_read_refused [of "s_perf s" "a - SOC_PERF_BASE" e] dma_read_pure [of "s_dma s" "a - SOC_DMA_BASE"]
  by (cases kind rule: device_kinds) (simp_all add: soc_read_device_def split_def)

lemma write_device_refused:
  assumes "fst (soc_write_device s kind a v) = Inl SOC_ERR_BUS"
  shows "snd (soc_write_device s kind a v) = s"
  using assms soc_mem_write_word_refused [of "s_rom s" a v SOC_ERR_BUS]
    soc_mem_write_word_refused [of "s_sram s" a v SOC_ERR_BUS]
    uart_write_refused [of "s_uart s" "s_perf s" "a - SOC_UART_BASE" v]
    timer_write_refused [of "s_timer s" "a - SOC_TIMER_BASE" v SOC_ERR_BUS]
    intc_write_refused [of "s_intc s" "a - SOC_INTC_BASE" v SOC_ERR_BUS]
    perf_write_refused [of "s_perf s" "a - SOC_PERF_BASE" v]
    dma_write_refused [of "s_dma s" "s_intc s" "s_perf s" "a - SOC_DMA_BASE" v SOC_ERR_BUS]
  by (cases kind rule: device_kinds) (simp_all add: soc_write_device_def split_def)

lemma disabled_is_uart:
  assumes "fst (soc_write_device s kind a v) = Inl SOC_UART_ERR_DISABLED"
  shows "kind = 2 \<and> fst (soc_uart_write (s_uart s) (s_perf s) (a - 0x20000000) v) = Inl SOC_UART_ERR_DISABLED"
  using assms soc_mem_write_word_refused [of "s_rom s" a v SOC_UART_ERR_DISABLED]
    soc_mem_write_word_refused [of "s_sram s" a v SOC_UART_ERR_DISABLED]
    timer_write_refused [of "s_timer s" "a - SOC_TIMER_BASE" v SOC_UART_ERR_DISABLED]
    intc_write_refused [of "s_intc s" "a - SOC_INTC_BASE" v SOC_UART_ERR_DISABLED]
    perf_write_error [of "s_perf s" "a - SOC_PERF_BASE" v SOC_UART_ERR_DISABLED]
    dma_write_refused [of "s_dma s" "s_intc s" "s_perf s" "a - SOC_DMA_BASE" v SOC_UART_ERR_DISABLED]
  by (cases kind rule: device_kinds) (simp_all add: soc_write_device_def split_def)

lemma uart_write_off:
  assumes "fst (soc_uart_write u p off v) = Inl SOC_UART_ERR_DISABLED" and "u_perf u = SocRef"
  shows "off = 0 \<and> \<not> bit (u_ctrl u) 0 \<and>
    soc_uart_write u p off v = (Inl SOC_UART_ERR_DISABLED, u, soc_perf_count_stall p 1)"
  using uart_write_disabled [of u p off v] assms
  by (cases "soc_uart_write u p off v") auto

text \<open>The counters after a refused access: the access itself if it was aligned, and one stall.\<close>

definition fault_perf :: "soc_perf_t \<Rightarrow> u32 \<Rightarrow> soc_perf_t" where
  "fault_perf p a = soc_perf_count_stall (if a mod 4 = 0 then soc_perf_count_mem p else p) 1"

lemma soc_route_counted:
  "soc_wf s \<Longrightarrow> soc_route (s\<lparr>s_perf := p\<rparr>) a = vlab_route (unat a)"
  using soc_route_wf [of s] by (simp add: soc_route_def)

lemma soc_read_fault:
  assumes "soc_wf s" and "fst (soc_read s a) = Inl e"
  shows "e = SOC_ERR_BUS \<and> snd (soc_read s a) = s\<lparr>s_perf := fault_perf (s_perf s) a\<rparr>"
proof (cases "a mod 4 = 0")
  case False
  with assms(2) show ?thesis by (simp add: soc_read_def soc_stall_def fault_perf_def)
next
  case True
  note rt = soc_route_counted [OF assms(1)]
  from True assms(2) obtain e' where
    "fst (soc_read_device (s\<lparr>s_perf := soc_perf_count_mem (s_perf s)\<rparr>) (vlab_route (unat a)) a) = Inl e'"
    by (auto simp: soc_read_def Let_def split_def rt split: sum.splits)
  with read_device_refused [OF this] True assms(2) show ?thesis
    by (simp add: soc_read_def Let_def split_def rt soc_stall_def fault_perf_def)
qed

lemma soc_write_fault_disabled:
  fixes s p
  defines "p \<equiv> soc_perf_count_mem (s_perf s)"
  assumes wf: "soc_wf s" and k: "a mod 4 = 0"
    and e: "fst (soc_write_device (s\<lparr>s_perf := p\<rparr>) (vlab_route (unat a)) a v) = Inl SOC_UART_ERR_DISABLED"
  shows "snd (soc_write s a v) = s\<lparr>s_perf := fault_perf (s_perf s) a\<rparr> \<and>
    a = VLAB_UART_TXDATA \<and> \<not> bit (u_ctrl (s_uart s)) 0"
proof -
  have d: "vlab_route (unat a) = 2"
      "fst (soc_uart_write (s_uart s) p (a - 0x20000000) v) = Inl SOC_UART_ERR_DISABLED"
    using disabled_is_uart [OF e] by simp_all
  have "u_perf (s_uart s) = SocRef"
    using wf by (simp add: soc_wf_def uart_wf_def)
  note uoff = uart_write_off [OF d(2) this]
  have u: "a - 0x20000000 = 0" "\<not> bit (u_ctrl (s_uart s)) 0"
      "soc_uart_write (s_uart s) p (a - 0x20000000) v =
        (Inl SOC_UART_ERR_DISABLED, s_uart s, soc_perf_count_stall p 1)"
    using uoff by blast+
  have "soc_write s a v = (Inl SOC_UART_ERR_DISABLED,
      s\<lparr>s_perf := p, s_uart := s_uart s, s_perf := soc_perf_count_stall p 1\<rparr>)"
    using k soc_route_counted [OF wf, of p a] d(1) u(3)
    by (simp add: soc_write_def Let_def soc_write_device_def p_def)
  then have "snd (soc_write s a v) = s\<lparr>s_perf := fault_perf (s_perf s) a\<rparr>"
    using k by (cases s) (simp add: fault_perf_def p_def)
  with u(1,2) show ?thesis
    by (simp only: offset_eq) simp
qed

lemma soc_write_fault:
  assumes "soc_wf s" and "fst (soc_write s a v) = Inl e"
  shows "snd (soc_write s a v) = s\<lparr>s_perf := fault_perf (s_perf s) a\<rparr> \<and>
    (e = SOC_ERR_BUS \<or> e = SOC_UART_ERR_DISABLED \<and> a = VLAB_UART_TXDATA \<and> \<not> bit (u_ctrl (s_uart s)) 0)"
proof (cases "a mod 4 = 0")
  case False
  with assms(2) show ?thesis by (simp add: soc_write_def soc_stall_def fault_perf_def)
next
  case True
  let ?s = "s\<lparr>s_perf := soc_perf_count_mem (s_perf s)\<rparr>"
  note rt = soc_route_counted [OF assms(1)]
  from True assms(2) have e: "fst (soc_write_device ?s (vlab_route (unat a)) a v) = Inl e"
    by (auto simp: soc_write_def Let_def split_def rt split: sum.splits)
  show ?thesis
  proof (cases e)
    case SOC_ERR_BUS
    with write_device_refused [of ?s "vlab_route (unat a)" a v] e True show ?thesis
      by (simp add: soc_write_def Let_def split_def rt soc_stall_def fault_perf_def)
  next
    case SOC_UART_ERR_DISABLED
    with soc_write_fault_disabled [OF assms(1) True] e show ?thesis by blast
  qed
qed

lemma soc_write_disabled:
  assumes "soc_wf s" and "\<not> bit (u_ctrl (s_uart s)) 0"
  shows "fst (soc_write s 0x20000000 v) = Inl SOC_UART_ERR_DISABLED"
proof -
  have "u_ctrl (s_uart s) AND 1 = 0"
    using assms(2) by (simp add: and_one_eq bit_0 odd_iff_mod_2_eq_one)
  then show ?thesis
    using assms(1) by (simp add: soc_write_def Let_def split_def soc_route_def soc_wf_def soc_bus_route_vlab
        vlab_route_def soc_write_device_def soc_uart_write_def)
qed

text \<open>
  C17. Bus faults are contained. A refused read reports \<open>SOC_ERR_BUS\<close>; a refused write reports
  \<open>SOC_UART_ERR_DISABLED\<close> if it was to \<open>TXDATA\<close> while the UART is off, and \<open>SOC_ERR_BUS\<close> otherwise. Either way exactly one
  stall is counted, the access is counted iff it was aligned, and no other part of the SoC
  changes: no register, no memory byte, no pending interrupt, no running transfer.
\<close>

theorem soc_fault_contained:
  assumes "soc_wf s"
  shows "(\<forall>e. fst (soc_read s a) = Inl e \<longrightarrow>
      e = SOC_ERR_BUS \<and> snd (soc_read s a) = s\<lparr>s_perf := fault_perf (s_perf s) a\<rparr>) \<and>
    (\<forall>e. fst (soc_write s a v) = Inl e \<longrightarrow>
      snd (soc_write s a v) = s\<lparr>s_perf := fault_perf (s_perf s) a\<rparr> \<and>
      e = (if a = VLAB_UART_TXDATA \<and> \<not> bit (u_ctrl (s_uart s)) 0 then SOC_UART_ERR_DISABLED else SOC_ERR_BUS))"
proof -
  have "e = (if a = VLAB_UART_TXDATA \<and> \<not> bit (u_ctrl (s_uart s)) 0 then SOC_UART_ERR_DISABLED else SOC_ERR_BUS)"
    if "fst (soc_write s a v) = Inl e" for e
    using soc_write_disabled [OF assms, of v] soc_write_fault [OF assms that] that by auto
  then show ?thesis
    using soc_read_fault [OF assms] soc_write_fault [OF assms] by blast
qed

theorem soc_fault_contained_witness:
  "soc_write (soc_init soc_static None) 0x20000000 65 =
     (Inl SOC_UART_ERR_DISABLED,
      (soc_init soc_static None)\<lparr>s_perf := fault_perf (s_perf (soc_init soc_static None)) 0x20000000\<rparr>)"
proof -
  let ?s = "soc_init soc_static None"
  have wf: "soc_wf ?s"
    by (rule soc_init_wf [OF soc_static_storage])
  have "fst (soc_write ?s 0x20000000 65) = Inl SOC_UART_ERR_DISABLED"
    using wf by (simp add: soc_write_def Let_def split_def soc_route_def soc_wf_def soc_bus_route_vlab
        vlab_route_def soc_write_device_def soc_uart_write_def)
      (simp add: soc_init_def Let_def soc_uart_init_def)
  with soc_fault_contained [OF wf, of "0x20000000" 65] show ?thesis
    by (simp add: prod_eq_iff)
qed

section \<open>SRAM through the bus\<close>

lemma soc_read_sram:
  assumes "soc_wf s" and "a mod 4 = 0" and "in_sram_word a"
  shows "soc_read s a = (soc_mem_read_word (s_sram s) a, s\<lparr>s_perf := soc_perf_count_mem (s_perf s)\<rparr>)"
proof -
  have "is_Inr (soc_mem_read_word (s_sram s) a)"
    using assms by (simp add: mem_read_word_ok image_contains soc_wf_def)
  then obtain v where v: "soc_mem_read_word (s_sram s) a = Inr v"
    by (auto simp: is_Inr_ex)
  have "soc_route (s\<lparr>s_perf := p\<rparr>) a = 1" for p
    using soc_route_wf [OF assms(1), of a] route_images(2) [of a] assms(3) by (simp add: soc_route_def)
  with assms(2) v show ?thesis
    by (simp add: soc_read_def Let_def soc_read_device_def)
qed

lemma soc_write_sram:
  assumes "soc_wf s" and "a mod 4 = 0" and "in_sram_word a"
  shows "soc_write s a v = (Inr (), s\<lparr>s_perf := soc_perf_count_mem (s_perf s),
    s_sram := snd (soc_mem_write_word (s_sram s) a v)\<rparr>)"
proof -
  have "fst (soc_mem_write_word (s_sram s) a v) = Inr ()"
    using assms mem_write_word_ok [of "s_sram s" a v]
    by (simp add: image_contains soc_wf_def is_Inr_unit sram_ok_def)
  moreover have "soc_route (s\<lparr>s_perf := p\<rparr>) a = 1" for p
    using soc_route_wf [OF assms(1), of a] route_images(2) [of a] assms(3) by (simp add: soc_route_def)
  ultimately show ?thesis
    using assms(2) by (simp add: soc_write_def Let_def soc_write_device_def split_def)
qed

end
