(* ===== verification/Dma_Rules.thy ===== *)
theory Dma_Rules
  imports Dma
begin

text \<open>
  The documented rules of a DMA request on the VLAB platform, and the order in which they are
  checked. The comments of \<open>soc_dma.c\<close> and \<open>drivers/dma.c\<close> give the order LEN, ALIGN, MAX, ADDR,
  DIRECTION; here the rules are a linearly ordered type, each rule is arithmetic on addresses, and
  the code that a START reports is shown to be that of the least rule the request violates.
\<close>

datatype dma_rule = Rule_Len | Rule_Align | Rule_Max | Rule_Addr | Rule_Pair

fun rule_rank :: "dma_rule \<Rightarrow> nat" where
  "rule_rank Rule_Len = 0"
| "rule_rank Rule_Align = 1"
| "rule_rank Rule_Max = 2"
| "rule_rank Rule_Addr = 3"
| "rule_rank Rule_Pair = 4"

lemma rule_rank_inject [simp]: "rule_rank r = rule_rank q \<longleftrightarrow> r = q"
  by (cases r; cases q) simp_all

instantiation dma_rule :: linorder
begin

definition less_eq_dma_rule :: "dma_rule \<Rightarrow> dma_rule \<Rightarrow> bool" where
  "less_eq_dma_rule r q \<longleftrightarrow> rule_rank r \<le> rule_rank q"

definition less_dma_rule :: "dma_rule \<Rightarrow> dma_rule \<Rightarrow> bool" where
  "less_dma_rule r q \<longleftrightarrow> rule_rank r < rule_rank q"

instance
  by standard (auto simp: less_eq_dma_rule_def less_dma_rule_def)

end

instance dma_rule :: finite
proof
  have all: "(UNIV :: dma_rule set) = {Rule_Len, Rule_Align, Rule_Max, Rule_Addr, Rule_Pair}"
    using dma_rule.exhaust by blast
  show "finite (UNIV :: dma_rule set)"
    unfolding all by simp
qed

text \<open>A range the bus knows: inside one region of the map, or at one of the two stream registers.\<close>

definition vlab_mapped :: "u32 \<Rightarrow> u32 \<Rightarrow> bool" where
  "vlab_mapped a n \<longleftrightarrow> a = VLAB_UART_TXDATA \<or> a = VLAB_UART_RXDATA \<or>
     (0 < unat n \<and> list_ex (\<lambda>(lo, hi). lo \<le> unat a \<and> unat a + unat n \<le> hi) vlab_region_bounds)"

fun vlab_violates :: "u32 \<Rightarrow> u32 \<Rightarrow> u32 \<Rightarrow> dma_rule \<Rightarrow> bool" where
  "vlab_violates src dst len Rule_Len \<longleftrightarrow> unat len = 0 \<or> unat len mod 4 \<noteq> 0"
| "vlab_violates src dst len Rule_Align \<longleftrightarrow> unat src mod 4 \<noteq> 0 \<or> unat dst mod 4 \<noteq> 0"
| "vlab_violates src dst len Rule_Max \<longleftrightarrow> 16384 < unat len"
| "vlab_violates src dst len Rule_Addr \<longleftrightarrow> \<not> vlab_mapped src len \<or> \<not> vlab_mapped dst len"
| "vlab_violates src dst len Rule_Pair \<longleftrightarrow> \<not> vlab_transfer src dst len"

fun rule_code :: "dma_rule \<Rightarrow> u32" where
  "rule_code Rule_Len = SOC_DMA_ERR_LEN"
| "rule_code Rule_Align = SOC_DMA_ERR_ALIGN"
| "rule_code Rule_Max = SOC_DMA_ERR_UNSUPPORTED"
| "rule_code Rule_Addr = SOC_DMA_ERR_ADDR"
| "rule_code Rule_Pair = SOC_DMA_ERR_UNSUPPORTED"

lemma rule_code_nonzero [simp]: "rule_code r \<noteq> 0"
  by (cases r) simp_all

lemma vlab_bounds_contains:
  "list_ex (\<lambda>(lo, hi). lo \<le> unat a \<and> unat a + unat n \<le> hi) vlab_region_bounds \<longleftrightarrow>
     (\<exists>r \<in> set vlab_memory_map. unat (r_base r) \<le> unat a \<and> unat a + unat n \<le> unat (r_base r) + unat (r_size r))"
  unfolding vlab_map_bounds [symmetric] list_ex_iff by auto

lemma vlab_map_below: "r \<in> set vlab_memory_map \<Longrightarrow> unat (r_base r) + unat (r_size r) \<le> 4294967296"
  by (auto simp: vlab_map_defs)

lemma vlab_class_unmapped:
  "soc_endpoint_class (Some vlab_memory_map) (Some vlab_dma_periph_eps) a n = - 1 \<longleftrightarrow> \<not> vlab_mapped a n"
proof -
  have inside: "memory_region_contains (Some r) a n \<longleftrightarrow>
      0 < unat n \<and> unat (r_base r) \<le> unat a \<and> unat a + unat n \<le> unat (r_base r) + unat (r_size r)"
    if "r \<in> set vlab_memory_map" for r
    using vlab_map_below [OF that] by (auto simp: memory_region_contains_iff)
  have "find_region (Some vlab_memory_map) a n = None \<longleftrightarrow>
      \<not> (0 < unat n \<and> list_ex (\<lambda>(lo, hi). lo \<le> unat a \<and> unat a + unat n \<le> hi) vlab_region_bounds)"
    unfolding vlab_bounds_contains by (auto simp: find_region_def find_region_loop_None inside)
  moreover have "dma_periph_find (Some vlab_dma_periph_eps) a = None \<longleftrightarrow>
      a \<noteq> VLAB_UART_TXDATA \<and> a \<noteq> VLAB_UART_RXDATA"
    by (auto simp: dma_periph_find_def vlab_periph_defs)
  ultimately show ?thesis
    by (auto simp: soc_endpoint_class_def vlab_mapped_def split: option.split)
qed

text \<open>The cascade of the check, rule by rule.\<close>

lemma vlab_check_cascade:
  "dma_check (Some vlab_memory_map) (Some vlab_dma_periph_eps) vlab_dma_caps src dst len =
     (if vlab_violates src dst len Rule_Len then 3
      else if vlab_violates src dst len Rule_Align then 2
      else if vlab_violates src dst len Rule_Max then 4
      else if vlab_violates src dst len Rule_Addr then 1
      else if vlab_violates src dst len Rule_Pair then 4 else 0)" (is "?chk = _")
proof -
  have caps: "cap_alignment vlab_dma_caps = 4" "cap_max_transfer vlab_dma_caps = 16384"
    by (simp_all add: vlab_caps_defs)
  have rules: "vlab_violates src dst len Rule_Len \<longleftrightarrow> len = 0 \<or> len mod 4 \<noteq> 0"
      "vlab_violates src dst len Rule_Align \<longleftrightarrow> src mod 4 \<noteq> 0 \<or> dst mod 4 \<noteq> 0"
      "vlab_violates src dst len Rule_Max \<longleftrightarrow> 16384 < len"
      "vlab_violates src dst len Rule_Addr \<longleftrightarrow>
        soc_endpoint_class (Some vlab_memory_map) (Some vlab_dma_periph_eps) src len = - 1 \<or>
        soc_endpoint_class (Some vlab_memory_map) (Some vlab_dma_periph_eps) dst len = - 1"
    by (simp_all add: word_mod_4_iff unat_eq_0 word_less_nat_alt vlab_class_unmapped)
  show ?thesis
  proof (cases "\<exists>r \<in> {Rule_Len, Rule_Align, Rule_Max, Rule_Addr}. vlab_violates src dst len r")
    case True
    then show ?thesis
      by (auto simp: dma_check_def Let_def caps rules simp del: vlab_violates.simps)
  next
    case False
    then have none: "\<not> vlab_violates src dst len Rule_Len" "\<not> vlab_violates src dst len Rule_Align"
        "\<not> vlab_violates src dst len Rule_Max" "\<not> vlab_violates src dst len Rule_Addr"
      by simp_all
    then have "?chk \<in> {0, 4}"
      unfolding rules by (simp add: dma_check_def Let_def caps)
    moreover have "?chk = 0 \<longleftrightarrow> \<not> vlab_violates src dst len Rule_Pair"
      using none by (simp add: vlab_check_zero vlab_aligned_def)
    ultimately show ?thesis
      using none by (simp del: vlab_violates.simps)
  qed
qed

text \<open>The least violated rule decides, and a request that violates none is accepted.\<close>

lemma vlab_check_least:
  assumes "vlab_violates src dst len r"
  shows "dma_check (Some vlab_memory_map) (Some vlab_dma_periph_eps) vlab_dma_caps src dst len =
    rule_code (Min {r. vlab_violates src dst len r})"
proof -
  let ?V = "{r. vlab_violates src dst len r}"
  define m where "m = Min ?V"
  have "m \<in> ?V" and least: "q < m \<Longrightarrow> \<not> vlab_violates src dst len q" for q
    unfolding m_def using assms Min_in [of ?V] Min_le [of ?V q] by (auto simp: not_le [symmetric])
  then show ?thesis
    using least [of Rule_Len] least [of Rule_Align] least [of Rule_Max] least [of Rule_Addr]
    unfolding m_def [symmetric]
    by (cases m) (simp_all add: vlab_check_cascade less_dma_rule_def del: vlab_violates.simps)
qed

lemma vlab_check_accepts:
  "dma_check (Some vlab_memory_map) (Some vlab_dma_periph_eps) vlab_dma_caps src dst len = 0 \<longleftrightarrow>
     (\<forall>r. \<not> vlab_violates src dst len r)"
proof
  assume "dma_check (Some vlab_memory_map) (Some vlab_dma_periph_eps) vlab_dma_caps src dst len = 0"
  then show "\<forall>r. \<not> vlab_violates src dst len r"
    by (metis vlab_check_least rule_code_nonzero)
qed (simp add: vlab_check_cascade del: vlab_violates.simps)

end
