(* ===== verification/Soc_Dma.thy ===== *)
theory Soc_Dma
  imports Soc_Bus Dma_Rules
begin

text \<open>
  Transfers on the integrated SoC. The SoC tick is an instance of \<open>countdown\<close> for the running
  transfer, whatever the UART and the timer do meanwhile; the DMA port gives the effect of the
  last tick. From these follow the end-to-end theorems: what a programmed transfer does to the
  memory, the streams, the counters and the interrupt controller, and exactly when.
\<close>

section \<open>While a transfer runs\<close>

lemma uart_step_line2:
  "2 \<in> lines_of (ic_pending (snd (soc_uart_step u ic))) \<longleftrightarrow> 2 \<in> lines_of (ic_pending ic)"
  by (simp add: soc_uart_step_def Let_def soc_intc_raise_def)

lemma timer_step_line2:
  "2 \<in> lines_of (ic_pending (snd (soc_timer_step t ic))) \<longleftrightarrow> 2 \<in> lines_of (ic_pending ic)"
  by (simp add: soc_timer_step_def Let_def soc_intc_raise_def)

lemma soc_tick_running:
  assumes "dma_running (s_dma s)" and "1 < d_remaining (s_dma s)"
  shows "s_dma (soc_tick malloc s) = (s_dma s)\<lparr>d_remaining := d_remaining (s_dma s) - 1\<rparr>"
    and "s_sram (soc_tick malloc s) = s_sram s"
    and "s_perf (soc_tick malloc s) = soc_perf_tick (s_perf s)"
    and "2 \<in> lines_of (ic_pending (s_intc (soc_tick malloc s))) \<longleftrightarrow> 2 \<in> lines_of (ic_pending (s_intc s))"
    and "s_uart (soc_tick malloc s) = fst (soc_uart_step (s_uart s) (s_intc s))"
  using assms uart_step_line2 [of "s_uart s" "s_intc s"]
    timer_step_line2 [of "s_timer s" "snd (soc_uart_step (s_uart s) (s_intc s))"]
  by (simp_all add: soc_tick_def Let_def split_def dma_step_count)

interpretation soc_cd: countdown "soc_tick malloc"
  "\<lambda>s. dma_running (s_dma s)" "\<lambda>s. nat (d_remaining (s_dma s))"
  "\<lambda>s. ((s_dma s)\<lparr>d_remaining := 0\<rparr>, s_sram s, (s_perf s)\<lparr>pf_cycles := 0\<rparr>,
        2 \<in> lines_of (ic_pending (s_intc s)))" for malloc
proof unfold_locales
  fix s :: soc_t
  assume h: "dma_running (s_dma s)" "1 < nat (d_remaining (s_dma s))"
  then have r: "1 < d_remaining (s_dma s)"
    by simp
  note t = soc_tick_running [OF h(1) r, of malloc]
  show "dma_running (s_dma (soc_tick malloc s))"
    using h(1) by (simp add: t)
  show "nat (d_remaining (s_dma (soc_tick malloc s))) = nat (d_remaining (s_dma s)) - 1"
    by (simp add: t nat_diff_distrib)
  show "((s_dma (soc_tick malloc s))\<lparr>d_remaining := 0\<rparr>, s_sram (soc_tick malloc s),
        (s_perf (soc_tick malloc s))\<lparr>pf_cycles := 0\<rparr>,
        2 \<in> lines_of (ic_pending (s_intc (soc_tick malloc s)))) =
      ((s_dma s)\<lparr>d_remaining := 0\<rparr>, s_sram s, (s_perf s)\<lparr>pf_cycles := 0\<rparr>,
        2 \<in> lines_of (ic_pending (s_intc s)))"
    by (simp add: t soc_perf_tick_def)
qed

section \<open>The last tick\<close>

text \<open>What an accepted VLAB transfer does to the UART and the SRAM.\<close>

definition vlab_moved :: "u32 \<Rightarrow> u32 \<Rightarrow> u32 \<Rightarrow> dma_mem \<Rightarrow> dma_mem" where
  "vlab_moved src dst len m = (case m of (u, sram) \<Rightarrow>
     let xs = (if src = 0x20000004 then take (unat len) (uart_rx_stream u @ replicate (unat len) 0)
               else bytes_at (m_bytes sram) (unat src - 0x10000000) (unat len));
         u1 = (if src = 0x20000004
               then fst (soc_uart_dma_rx_drain u (Some (replicate (unat len) 0)) len) else u)
     in if dst = 0x20000000 then (soc_uart_dma_tx_append u1 (Some xs) len, sram)
        else (u1, m_store sram (unat dst - 0x10000000) xs))"

lemma in_vlab_sram_off:
  assumes "sram_ok m" and "in_vlab_sram a n"
  shows "soc_mem_contains m a n" and "unat (a - m_base m) = unat a - 0x10000000"
    and "a \<noteq> 0x20000000" and "a \<noteq> 0x20000004"
proof -
  show c: "soc_mem_contains m a n"
    using assms by (simp add: sram_contains in_vlab_sram_def)
  show "unat (a - m_base m) = unat a - 0x10000000"
    using contains_off(1) [OF c] assms(1) by (simp add: sram_ok_def)
  show "a \<noteq> 0x20000000" and "a \<noteq> 0x20000004"
    using assms(2) by (auto simp: in_vlab_sram_def)
qed

lemma vlab_transfer_moves:
  assumes "port_inv m" and "vlab_transfer src dst len"
  shows "dma_transfer port_load port_store m src dst len = (True, vlab_moved src dst len m)"
proof -
  obtain u sram where m: "m = (u, sram)"
    by (cases m)
  then have s: "sram_ok sram"
    using assms(1) by (simp add: port_inv_def)
  let ?xs = "if src = 0x20000004 then take (unat len) (uart_rx_stream u @ replicate (unat len) 0)
    else bytes_at (m_bytes sram) (unat src - 0x10000000) (unat len)"
  let ?u1 = "if src = 0x20000004
    then fst (soc_uart_dma_rx_drain u (Some (replicate (unat len) 0)) len) else u"
  have "src = 0x20000004 \<or> in_vlab_sram src len"
    using assms(2) by (auto simp: vlab_transfer_def)
  then have load: "port_load m src len = Some (?xs, (?u1, sram))"
    using in_vlab_sram_off [OF s, of src len] by (auto simp: port_load_def m)
  then have xs: "length ?xs = unat len"
    using soc_port.load_inv [OF assms(1)] by blast
  have "dst = 0x20000000 \<or> in_vlab_sram dst len"
    using assms(2) by (auto simp: vlab_transfer_def)
  then have store: "port_store (?u1, sram) dst ?xs =
      Some (if dst = 0x20000000 then (soc_uart_dma_tx_append ?u1 (Some ?xs) len, sram)
            else (?u1, m_store sram (unat dst - 0x10000000) ?xs))"
    using in_vlab_sram_off [OF s, of dst len] unat_u32_bound [of len]
    unfolding port_store_def prod.case xs by auto
  show ?thesis
    unfolding dma_transfer_def load option.case prod.case store
    by (simp add: vlab_moved_def m Let_def)
qed

text \<open>
  The tick that ends a transfer, whatever the request registers hold by then: the port decides
  between DONE and ERROR.
\<close>

lemma soc_tick_end:
  fixes s :: soc_t
  assumes "soc_wf s" and "dma_running (s_dma s)" and "d_remaining (s_dma s) \<le> 1"
    and "malloc_sound malloc" and "malloc (dma_tmp_size (s_dma s)) \<noteq> None"
  defines "q \<equiv> dma_transfer port_load port_store (fst (soc_uart_step (s_uart s) (s_intc s)), s_sram s)
    (d_src (s_dma s)) (d_dst (s_dma s)) (d_length (s_dma s))"
  shows "s_dma (soc_tick malloc s) = dma_finished (s_dma s) (fst q)"
    and "(s_uart (soc_tick malloc s), s_sram (soc_tick malloc s)) = snd q"
    and "s_perf (soc_tick malloc s) = (if fst q
      then soc_perf_count_dma (soc_perf_tick (s_perf s)) (d_length (s_dma s)) else soc_perf_tick (s_perf s))"
    and "2 \<in> lines_of (ic_pending (s_intc (soc_tick malloc s))) \<longleftrightarrow>
      d_irq_enable_latched (s_dma s) \<or> 2 \<in> lines_of (ic_pending (s_intc s))"
proof -
  note w = assms(1) [unfolded soc_wf_def]
  let ?u = "fst (soc_uart_step (s_uart s) (s_intc s))"
  let ?ic1 = "snd (soc_uart_step (s_uart s) (s_intc s))"
  let ?ic2 = "snd (soc_timer_step (s_timer s) ?ic1)"
  obtain tmp where tmp: "malloc (dma_tmp_size (s_dma s)) = Some tmp"
    using assms(5) by blast
  have inv: "port_inv (?u, s_sram s)"
    using w uart_step_wf(1) [of "s_uart s" "s_intc s"] by (simp add: port_inv_def)
  have b: "d_reader (s_dma s) = Some soc_dma_reader_bridge" "d_writer (s_dma s) = Some soc_dma_writer_bridge"
      "d_perf (s_dma s) = SocRef" "d_intc (s_dma s) = SocRef" "d_irq_line (s_dma s) = 2"
    using w by (simp_all add: dma_bound_def dma_wf_def)
  have step: "soc_dma_step malloc (s_dma s) ?ic2 (soc_perf_tick (s_perf s)) (?u, s_sram s) =
      (dma_finished (s_dma s) (fst q), dma_signal (s_dma s) ?ic2,
       if fst q then soc_perf_count_dma (soc_perf_tick (s_perf s)) (d_length (s_dma s))
       else soc_perf_tick (s_perf s), snd q)"
    using soc_port.last_step [OF inv assms(2,3) b(1,2) assms(4) tmp, of ?ic2 "soc_perf_tick (s_perf s)"] b(3)
    by (simp add: q_def split_def Let_def)
  have line2: "2 \<in> lines_of (ic_pending (dma_signal (s_dma s) ?ic2)) \<longleftrightarrow>
      d_irq_enable_latched (s_dma s) \<or> 2 \<in> lines_of (ic_pending (s_intc s))"
    using b uart_step_line2 [of "s_uart s" "s_intc s"] timer_step_line2 [of "s_timer s" ?ic1]
    by (simp add: dma_signal_def soc_intc_raise_def)
  show "s_dma (soc_tick malloc s) = dma_finished (s_dma s) (fst q)"
    and "(s_uart (soc_tick malloc s), s_sram (soc_tick malloc s)) = snd q"
    and "s_perf (soc_tick malloc s) = (if fst q
      then soc_perf_count_dma (soc_perf_tick (s_perf s)) (d_length (s_dma s)) else soc_perf_tick (s_perf s))"
    and "2 \<in> lines_of (ic_pending (s_intc (soc_tick malloc s))) \<longleftrightarrow>
      d_irq_enable_latched (s_dma s) \<or> 2 \<in> lines_of (ic_pending (s_intc s))"
    using line2 by (simp_all add: soc_tick_def Let_def split_def step split del: if_split)
qed

lemma soc_tick_last:
  assumes "soc_wf s" and "dma_running (s_dma s)" and "d_remaining (s_dma s) \<le> 1"
    and "vlab_transfer (d_src (s_dma s)) (d_dst (s_dma s)) (d_length (s_dma s))"
    and "malloc_sound malloc" and "malloc (unat (d_length (s_dma s))) \<noteq> None"
  shows "s_dma (soc_tick malloc s) = dma_finished (s_dma s) True"
    and "(s_uart (soc_tick malloc s), s_sram (soc_tick malloc s)) =
      vlab_moved (d_src (s_dma s)) (d_dst (s_dma s)) (d_length (s_dma s))
        (fst (soc_uart_step (s_uart s) (s_intc s)), s_sram s)"
    and "s_perf (soc_tick malloc s) = soc_perf_count_dma (soc_perf_tick (s_perf s)) (d_length (s_dma s))"
    and "2 \<in> lines_of (ic_pending (s_intc (soc_tick malloc s))) \<longleftrightarrow>
      d_irq_enable_latched (s_dma s) \<or> 2 \<in> lines_of (ic_pending (s_intc s))"
proof -
  have inv: "port_inv (fst (soc_uart_step (s_uart s) (s_intc s)), s_sram s)"
    using assms(1) uart_step_wf(1) [of "s_uart s" "s_intc s"] by (simp add: soc_wf_def port_inv_def)
  have "d_length (s_dma s) \<noteq> 0"
    using assms(4) by (auto simp: vlab_transfer_def in_vlab_sram_def)
  then have tmp: "malloc (dma_tmp_size (s_dma s)) \<noteq> None"
    using assms(6) by (simp add: dma_tmp_size_def)
  note E = soc_tick_end [OF assms(1-3,5) tmp, unfolded vlab_transfer_moves [OF inv assms(4)] fst_conv snd_conv if_True]
  show "s_dma (soc_tick malloc s) = dma_finished (s_dma s) True"
    and "(s_uart (soc_tick malloc s), s_sram (soc_tick malloc s)) =
      vlab_moved (d_src (s_dma s)) (d_dst (s_dma s)) (d_length (s_dma s))
        (fst (soc_uart_step (s_uart s) (s_intc s)), s_sram s)"
    and "s_perf (soc_tick malloc s) = soc_perf_count_dma (soc_perf_tick (s_perf s)) (d_length (s_dma s))"
    and "2 \<in> lines_of (ic_pending (s_intc (soc_tick malloc s))) \<longleftrightarrow>
      d_irq_enable_latched (s_dma s) \<or> 2 \<in> lines_of (ic_pending (s_intc s))"
    by (rule E)+
qed

text \<open>The tick at which the temporary buffer cannot be allocated: the engine stays busy and retries.\<close>

lemma soc_tick_retry:
  assumes "dma_running (s_dma s)" and "d_remaining (s_dma s) \<le> 1" and "malloc (dma_tmp_size (s_dma s)) = None"
  shows "s_dma (soc_tick malloc s) = (s_dma s)\<lparr>d_remaining := d_remaining (s_dma s) - 1\<rparr>"
    and "s_sram (soc_tick malloc s) = s_sram s"
    and "s_perf (soc_tick malloc s) = soc_perf_tick (s_perf s)"
    and "2 \<in> lines_of (ic_pending (s_intc (soc_tick malloc s))) \<longleftrightarrow> 2 \<in> lines_of (ic_pending (s_intc s))"
  using assms uart_step_line2 [of "s_uart s" "s_intc s"]
    timer_step_line2 [of "s_timer s" "snd (soc_uart_step (s_uart s) (s_intc s))"]
  by (simp_all add: soc_tick_def Let_def split_def dma_step_retry)

section \<open>Running a transfer to its end\<close>

lemma dma_check_bound:
  assumes "soc_wf s" and "dma_req_check (s_dma s) = 0"
  shows "vlab_transfer (d_src (s_dma s)) (d_dst (s_dma s)) (d_length (s_dma s))"
    and "unat (d_length (s_dma s)) \<le> 16384"
  using assms vlab_check_zero [of "d_src (s_dma s)" "d_dst (s_dma s)" "d_length (s_dma s)"]
  by (simp_all add: soc_wf_def dma_bound_def dma_req_check_def)

lemma soc_transfer_end:
  assumes "soc_wf s" and "dma_running (s_dma s)" and "0 < d_remaining (s_dma s)"
    and "vlab_transfer (d_src (s_dma s)) (d_dst (s_dma s)) (d_length (s_dma s))" and "malloc_sound malloc"
    and "malloc (unat (d_length (s_dma s))) \<noteq> None"
  defines "T \<equiv> nat (d_remaining (s_dma s))"
  defines "s' \<equiv> (soc_tick malloc ^^ T) s" and "u \<equiv> s_uart ((soc_tick malloc ^^ (T - 1)) s)"
  shows "s_dma s' = (s_dma s)\<lparr>d_remaining := 0, d_busy := False, d_done := True, d_error := False\<rparr>"
    and "(s_uart s', s_sram s') = vlab_moved (d_src (s_dma s)) (d_dst (s_dma s)) (d_length (s_dma s))
      (fst (soc_uart_step u intc_static), s_sram s)"
    and "pf_dma_bytes (s_perf s') = (if pf_enabled (s_perf s)
      then pf_dma_bytes (s_perf s) + d_length (s_dma s) else pf_dma_bytes (s_perf s))"
    and "2 \<in> lines_of (ic_pending (s_intc s')) \<longleftrightarrow>
      d_irq_enable_latched (s_dma s) \<or> 2 \<in> lines_of (ic_pending (s_intc s))"
    and "soc_wf s'"
proof -
  let ?t = "(soc_tick malloc ^^ (T - 1)) s"
  have T: "0 < T"
    using assms(3) by (simp add: T_def)
  have run: "dma_running (s_dma ?t)" "nat (d_remaining (s_dma ?t)) = 1"
    and fr: "(s_dma ?t)\<lparr>d_remaining := 0\<rparr> = (s_dma s)\<lparr>d_remaining := 0\<rparr>" "s_sram ?t = s_sram s"
      "(s_perf ?t)\<lparr>pf_cycles := 0\<rparr> = (s_perf s)\<lparr>pf_cycles := 0\<rparr>"
      "(2 \<in> lines_of (ic_pending (s_intc ?t))) = (2 \<in> lines_of (ic_pending (s_intc s)))"
    using soc_cd.running [of s "T - 1" malloc] assms(2) T by (simp_all add: T_def)
  have rem: "d_remaining (s_dma ?t) = 1"
    using run(2) by linarith
  then have le: "d_remaining (s_dma ?t) \<le> 1"
    by simp
  have t: "s_dma ?t = (s_dma s)\<lparr>d_remaining := 1\<rparr>"
    using fr(1) rem by (cases "s_dma ?t"; cases "s_dma s") simp
  have pf: "pf_enabled (s_perf ?t) = pf_enabled (s_perf s)" "pf_dma_bytes (s_perf ?t) = pf_dma_bytes (s_perf s)"
    using fr(3) by (cases "s_perf ?t"; cases "s_perf s"; simp)+
  have s': "s' = soc_tick malloc ?t"
    using T by (cases T) (simp_all add: s'_def)
  have wf: "soc_wf ?t"
    by (rule soc_ticks_wf [OF assms(1,5)])
  note L = soc_tick_last [OF wf run(1) le _ assms(5), unfolded t, simplified,
      OF assms(4) assms(6) [unfolded not_None_eq]]
  show "s_dma s' = (s_dma s)\<lparr>d_remaining := 0, d_busy := False, d_done := True, d_error := False\<rparr>"
    using L(1) by (simp add: s' dma_finished_def)
  show "(s_uart s', s_sram s') = vlab_moved (d_src (s_dma s)) (d_dst (s_dma s)) (d_length (s_dma s))
      (fst (soc_uart_step u intc_static), s_sram s)"
    using L(2) fr(2) uart_step_independent [of u "s_intc ?t" intc_static] by (simp add: s' u_def)
  show "pf_dma_bytes (s_perf s') = (if pf_enabled (s_perf s)
      then pf_dma_bytes (s_perf s) + d_length (s_dma s) else pf_dma_bytes (s_perf s))"
    using L(3) pf by (simp add: s' soc_perf_count_dma_def soc_perf_tick_def)
  show "2 \<in> lines_of (ic_pending (s_intc s')) \<longleftrightarrow>
      d_irq_enable_latched (s_dma s) \<or> 2 \<in> lines_of (ic_pending (s_intc s))"
    using L(4) fr(4) by (simp add: s')
  show "soc_wf s'"
    unfolding s'_def by (rule soc_ticks_wf [OF assms(1,5)])
qed

lemma soc_transfer_busy:
  assumes "dma_running (s_dma s)" and "k < nat (d_remaining (s_dma s))"
  shows "s_dma ((soc_tick malloc ^^ k) s) = (s_dma s)\<lparr>d_remaining := d_remaining (s_dma s) - int k\<rparr>"
    and "s_sram ((soc_tick malloc ^^ k) s) = s_sram s"
proof -
  let ?t = "(soc_tick malloc ^^ k) s"
  have u: "nat (d_remaining (s_dma ?t)) = nat (d_remaining (s_dma s)) - k"
    and f: "(s_dma ?t)\<lparr>d_remaining := 0\<rparr> = (s_dma s)\<lparr>d_remaining := 0\<rparr>"
    and "s_sram ?t = s_sram s"
    using soc_cd.running [of s k malloc] assms by simp_all
  then show "s_sram ?t = s_sram s"
    by simp
  have "d_remaining (s_dma ?t) = d_remaining (s_dma s) - int k"
    using u assms(2) by linarith
  with f show "s_dma ?t = (s_dma s)\<lparr>d_remaining := d_remaining (s_dma s) - int k\<rparr>"
    by (cases "s_dma ?t"; cases "s_dma s") simp
qed

lemma soc_tick_no_dma:
  assumes "\<not> dma_running (s_dma s)"
  shows "s_dma (soc_tick malloc s) = s_dma s" and "s_sram (soc_tick malloc s) = s_sram s"
    and "s_uart (soc_tick malloc s) = fst (soc_uart_step (s_uart s) (s_intc s))"
    and "s_timer (soc_tick malloc s) = fst (soc_timer_step (s_timer s) (snd (soc_uart_step (s_uart s) (s_intc s))))"
    and "s_perf (soc_tick malloc s) = soc_perf_tick (s_perf s)"
  using assms by (simp_all add: soc_tick_def Let_def split_def dma_step_idle)

lemma soc_ticks_no_dma:
  assumes "\<not> dma_running (s_dma s)"
  shows "s_dma ((soc_tick malloc ^^ k) s) = s_dma s \<and> s_sram ((soc_tick malloc ^^ k) s) = s_sram s"
  by (induction k) (use assms in \<open>simp_all add: soc_tick_no_dma\<close>)

section \<open>Programming a transfer\<close>

text \<open>The four register writes that program a transfer, in the order of \<open>dma_start\<close>.\<close>

definition dma_program :: "soc_t \<Rightarrow> u32 \<Rightarrow> u32 \<Rightarrow> u32 \<Rightarrow> bool \<Rightarrow> soc_t" where
  "dma_program s src dst len irq =
     (let s1 = snd (soc_write s VLAB_DMA_SRC src);
          s2 = snd (soc_write s1 VLAB_DMA_DST dst);
          s3 = snd (soc_write s2 VLAB_DMA_LEN len)
      in snd (soc_write s3 VLAB_DMA_CTRL (VLAB_DMA_CTRL_START OR (if irq then VLAB_DMA_CTRL_IRQ_ENABLE else 0))))"

lemma dma_program_wf [wf_intros]: "soc_wf s \<Longrightarrow> soc_wf (dma_program s src dst len irq)"
  unfolding dma_program_def Let_def by (intro soc_write_wf)

lemma soc_write_dma:
  assumes "soc_wf s" and "off \<in> {0, 4, 8, 12, 20}"
  shows "soc_write s (0x20002000 + off) v =
    (case soc_dma_write (s_dma s) (s_intc s) (soc_perf_count_mem (s_perf s)) off v of
       (rc, d, ic, p) \<Rightarrow> (Inr (), s\<lparr>s_dma := d, s_intc := ic, s_perf := p\<rparr>))"
proof -
  let ?p = "soc_perf_count_mem (s_perf s)"
  have route: "vlab_route (unat (0x20002000 + off)) = 4" "(0x20002000 + off) mod 4 = 0"
    using assms(2) by (auto simp: vlab_route_def)
  then have r: "soc_route (s\<lparr>s_perf := ?p\<rparr>) (0x20002000 + off) = 4"
    using soc_route_wf [OF assms(1)] by (simp add: soc_route_def)
  obtain d ic p where w: "soc_dma_write (s_dma s) (s_intc s) ?p off v = (Inr (), d, ic, p)"
    using dma_write_accepted [OF assms(2), of "s_dma s" "s_intc s" ?p v]
    by (cases "soc_dma_write (s_dma s) (s_intc s) ?p off v") auto
  then have "soc_write_device (s\<lparr>s_perf := ?p\<rparr>) 4 (0x20002000 + off) v =
      (Inr (), s\<lparr>s_dma := d, s_intc := ic, s_perf := p\<rparr>)"
    by (cases s) (simp add: soc_write_device_def)
  with r w route(2) show ?thesis
    by (simp add: soc_write_def)
qed

text \<open>The engine after the request registers are set, before the decision.\<close>

definition dma_request :: "'m soc_dma_t \<Rightarrow> u32 \<Rightarrow> u32 \<Rightarrow> u32 \<Rightarrow> 'm soc_dma_t" where
  "dma_request d src dst len = d\<lparr>d_src := src, d_dst := dst, d_length := len\<rparr>"

definition ctrl_word :: "bool \<Rightarrow> u32" where
  "ctrl_word irq = (if irq then 2 else 0)"

lemma dma_write_start:
  assumes "\<not> d_busy d"
  shows "soc_dma_write d ic p 12 (1 OR (if irq then 2 else 0)) =
    (if dma_req_check d = 0 then (Inr (), (dma_started d irq)\<lparr>d_ctrl := ctrl_word irq\<rparr>, ic, p)
     else (Inr (), (dma_refused d irq (dma_req_check d))\<lparr>d_ctrl := ctrl_word irq\<rparr>,
       dma_signal (d\<lparr>d_irq_enable_latched := irq\<rparr>) ic, p))"
proof -
  have bits: "bit (1 OR (if irq then 2 else 0) :: u32) 0" "bit (1 OR (if irq then 2 else 0) :: u32) 1 = irq"
      "((1 OR (if irq then 2 else 0)) AND NOT 1) OR (if irq then 2 else 0) = ctrl_word irq"
    by (simp_all add: bit_simps ctrl_word_def)
  show ?thesis
    using dma_write_ctrl [of d ic p "1 OR (if irq then 2 else 0)"] dma_start_idle [OF assms, of ic p irq]
    unfolding bits by (simp split del: if_split) (simp add: Let_def)
qed

text \<open>The request registers are plain storage: they take a value at any time, also while BUSY.\<close>

definition dma_retarget :: "soc_t \<Rightarrow> u32 \<Rightarrow> u32 \<Rightarrow> u32 \<Rightarrow> soc_t" where
  "dma_retarget s src dst len =
     (let s1 = snd (soc_write s VLAB_DMA_SRC src);
          s2 = snd (soc_write s1 VLAB_DMA_DST dst)
      in snd (soc_write s2 VLAB_DMA_LEN len))"

lemma dma_retarget_wf [wf_intros]: "soc_wf s \<Longrightarrow> soc_wf (dma_retarget s src dst len)"
  unfolding dma_retarget_def Let_def by (intro soc_write_wf)

lemma dma_retarget_eq:
  assumes "soc_wf s"
  shows "dma_retarget s src dst len =
    s\<lparr>s_dma := dma_request (s_dma s) src dst len, s_perf := (soc_perf_count_mem ^^ 3) (s_perf s)\<rparr>"
proof -
  let ?c = "soc_perf_count_mem"
  let ?s1 = "s\<lparr>s_dma := (s_dma s)\<lparr>d_src := src\<rparr>, s_intc := s_intc s, s_perf := ?c (s_perf s)\<rparr>"
  let ?s2 = "?s1\<lparr>s_dma := (s_dma ?s1)\<lparr>d_dst := dst\<rparr>, s_intc := s_intc ?s1, s_perf := ?c (s_perf ?s1)\<rparr>"
  have three: "(?c ^^ 3) p = ?c (?c (?c p))" for p
    by (simp add: eval_nat_numeral)
  have w1: "soc_write s 0x20002000 src = (Inr (), ?s1)"
    using soc_write_dma [OF assms(1), of 0 src] by (simp add: soc_dma_write_def)
  have wf1: "soc_wf ?s1"
    using soc_write_wf [OF assms(1), of "0x20002000" src] w1 by simp
  have w2: "soc_write ?s1 0x20002004 dst = (Inr (), ?s2)"
    using soc_write_dma [OF wf1, of 4 dst] by (simp add: soc_dma_write_def)
  have wf2: "soc_wf ?s2"
    using soc_write_wf [OF wf1, of "0x20002004" dst] w2 by simp
  have "soc_write ?s2 0x20002008 len = (Inr (), s\<lparr>s_dma := dma_request (s_dma s) src dst len,
      s_perf := (?c ^^ 3) (s_perf s)\<rparr>)"
    using soc_write_dma [OF wf2, of 8 len] by (cases s) (simp add: soc_dma_write_def dma_request_def three)
  then show ?thesis
    unfolding dma_retarget_def Let_def VLAB_DMA_SRC_def VLAB_DMA_DST_def VLAB_DMA_LEN_def w1 snd_conv w2
    by simp
qed

lemma dma_program_eq:
  fixes s :: soc_t and src dst len :: u32 and irq :: bool
  assumes "soc_wf s" and "\<not> d_busy (s_dma s)"
  defines "d \<equiv> dma_request (s_dma s) src dst len"
  shows "dma_program s src dst len irq =
    s\<lparr>s_dma := (if dma_req_check d = 0 then dma_started d irq else dma_refused d irq (dma_req_check d))
         \<lparr>d_ctrl := ctrl_word irq\<rparr>,
      s_intc := (if dma_req_check d = 0 then s_intc s else dma_signal (d\<lparr>d_irq_enable_latched := irq\<rparr>) (s_intc s)),
      s_perf := (soc_perf_count_mem ^^ 4) (s_perf s)\<rparr>"
proof -
  let ?s3 = "s\<lparr>s_dma := d, s_perf := (soc_perf_count_mem ^^ 3) (s_perf s)\<rparr>"
  let ?v = "1 OR (if irq then 2 else 0) :: u32"
  have s3: "dma_retarget s src dst len = ?s3" and wf: "soc_wf ?s3"
    using dma_retarget_eq [OF assms(1)] dma_retarget_wf [OF assms(1), of src dst len] by (simp_all add: d_def)
  have prog: "dma_program s src dst len irq = snd (soc_write ?s3 0x2000200C ?v)"
    unfolding s3 [symmetric] by (simp add: dma_program_def dma_retarget_def Let_def)
  have idle: "\<not> d_busy d"
    using assms(2) by (simp add: d_def dma_request_def)
  have "soc_perf_count_mem (s_perf ?s3) = (soc_perf_count_mem ^^ 4) (s_perf s)"
    by (simp add: eval_nat_numeral)
  then have w: "soc_write ?s3 0x2000200C ?v =
      (case soc_dma_write d (s_intc s) ((soc_perf_count_mem ^^ 4) (s_perf s)) 12 ?v of
         (rc, d, ic, p) \<Rightarrow> (Inr (), ?s3\<lparr>s_dma := d, s_intc := ic, s_perf := p\<rparr>))"
    using soc_write_dma [OF wf, of 12 ?v] by simp
  show ?thesis
    unfolding prog w dma_write_start [OF idle] by (cases s) simp
qed

text \<open>
  An accepted request: the SoC right after the START, and the number of ticks it will take.
\<close>

lemma dma_program_accepted:
  fixes s :: soc_t and src dst len :: u32 and irq :: bool
  assumes "soc_wf s" and "\<not> d_busy (s_dma s)" and "\<not> d_fault_stuck_busy (s_dma s)"
    and "unat len \<le> 16384" and "vlab_aligned src dst len" and "vlab_transfer src dst len"
    and "dma_words len + unat (d_burst (s_dma s)) \<le> 2 ^ 32"
    and "dma_words len * unat (d_latency_per_word (s_dma s)) + (dma_bursts (d_burst (s_dma s)) len - 1) < 2 ^ 31"
  defines "s0 \<equiv> dma_program s src dst len irq"
  shows "s0 = s\<lparr>s_dma := (dma_started (dma_request (s_dma s) src dst len) irq)\<lparr>d_ctrl := ctrl_word irq\<rparr>,
      s_perf := (soc_perf_count_mem ^^ 4) (s_perf s)\<rparr>"
    and "dma_running (s_dma s0)" and "dma_req_check (s_dma s0) = 0"
    and "d_remaining (s_dma s0) =
      int (dma_words len * unat (d_latency_per_word (s_dma s)) + (dma_bursts (d_burst (s_dma s)) len - 1))"
    and "0 < d_remaining (s_dma s0)" and "soc_wf s0"
proof -
  let ?d = "dma_request (s_dma s) src dst len"
  have chk: "dma_req_check ?d = 0"
    using assms(1,4-6) vlab_check_zero [of src dst len]
    by (simp add: dma_req_check_def dma_request_def soc_wf_def dma_bound_def)
  show eq: "s0 = s\<lparr>s_dma := (dma_started ?d irq)\<lparr>d_ctrl := ctrl_word irq\<rparr>,
      s_perf := (soc_perf_count_mem ^^ 4) (s_perf s)\<rparr>"
    unfolding s0_def dma_program_eq [OF assms(1,2)] using chk by (cases s) simp
  show "dma_running (s_dma s0)"
    using assms(3) by (simp add: eq dma_running_def dma_started_def dma_request_def)
  show "dma_req_check (s_dma s0) = 0"
    using chk by (simp add: eq dma_req_check_def dma_started_def)
  have pos: "0 < unat len" "0 < unat (d_latency_per_word (s_dma s))" "0 < unat (d_burst (s_dma s))"
    using assms(1,6) by (auto simp: soc_wf_def dma_wf_def vlab_transfer_def in_vlab_sram_def)
  have "dma_words len \<le> 4096"
    using assms(4) by (simp add: dma_words_def)
  then have "dma_ticks (d_latency_per_word (s_dma s)) (d_burst (s_dma s)) len =
      int (dma_words len * unat (d_latency_per_word (s_dma s)) + (dma_bursts (d_burst (s_dma s)) len - 1))"
    by (intro dma_ticks_eq) (use assms(4,7,8) pos in simp_all)
  then show "d_remaining (s_dma s0) =
      int (dma_words len * unat (d_latency_per_word (s_dma s)) + (dma_bursts (d_burst (s_dma s)) len - 1))"
    by (simp add: eq dma_started_def dma_request_def)
  show "0 < d_remaining (s_dma s0)"
    by (simp add: eq dma_started_def dma_ticks_def Let_def)
  show "soc_wf s0"
    unfolding s0_def by (rule dma_program_wf [OF assms(1)])
qed

lemma count_mem_4 [simp]:
  "pf_enabled ((soc_perf_count_mem ^^ n) p) = pf_enabled p"
  "pf_dma_bytes ((soc_perf_count_mem ^^ n) p) = pf_dma_bytes p"
  by (induction n) (simp_all add: soc_perf_count_mem_def)

lemma dma_status_values:
  "d_busy d \<Longrightarrow> \<not> d_done d \<Longrightarrow> \<not> d_error d \<Longrightarrow> soc_dma_status d = 1"
  "\<not> d_busy d \<Longrightarrow> d_done d \<Longrightarrow> \<not> d_error d \<Longrightarrow> soc_dma_status d = 2"
  "\<not> d_busy d \<Longrightarrow> \<not> d_done d \<Longrightarrow> d_error d \<Longrightarrow> soc_dma_status d = 4"
  by (simp_all add: soc_dma_status_def)

section \<open>Properties\<close>

text \<open>A memory-to-memory transfer from the START to the tick that completes it.\<close>

lemma ram_transfer_run:
  assumes "soc_wf s" and "\<not> d_busy (s_dma s)" and "\<not> d_fault_stuck_busy (s_dma s)"
    and "in_vlab_sram src len" and "in_vlab_sram dst len" and "vlab_aligned src dst len"
    and "unat len \<le> 16384"
    and "T = dma_words len * unat (d_latency_per_word (s_dma s)) + (dma_bursts (d_burst (s_dma s)) len - 1)"
    and "T < 2 ^ 31" and "dma_words len + unat (d_burst (s_dma s)) \<le> 2 ^ 32"
    and "malloc_sound malloc" and "malloc (unat len) \<noteq> None"
    and "run = (\<lambda>k. (soc_tick malloc ^^ k) (dma_program s src dst len irq))"
  shows "(\<forall>k < T. soc_dma_status (s_dma (run k)) = SOC_DMA_STATUS_BUSY \<and> m_bytes (s_sram (run k)) = m_bytes (s_sram s)) \<and>
    soc_dma_status (s_dma (run T)) = SOC_DMA_STATUS_DONE \<and>
    m_bytes (s_sram (run T)) =
      blit (m_bytes (s_sram s)) (unat dst - 0x10000000)
        (bytes_at (m_bytes (s_sram s)) (unat src - 0x10000000) (unat len)) \<and>
    pf_dma_bytes (s_perf (run T)) =
      (if pf_enabled (s_perf s) then pf_dma_bytes (s_perf s) + len else pf_dma_bytes (s_perf s)) \<and>
    (2 \<in> lines_of (ic_pending (s_intc (run T))) \<longleftrightarrow> irq \<or> 2 \<in> lines_of (ic_pending (s_intc s))) \<and>
    soc_wf (run T)"
proof -
  let ?s0 = "dma_program s src dst len irq"
  have tr: "vlab_transfer src dst len"
    using assms(4,5) by (simp add: vlab_transfer_def)
  note P = dma_program_accepted [OF assms(1-3) assms(7,6) tr assms(10), folded assms(8), OF assms(9), of irq]
  have T: "nat (d_remaining (s_dma ?s0)) = T"
    using P(4) by simp
  have d0: "d_src (s_dma ?s0) = src" "d_dst (s_dma ?s0) = dst" "d_length (s_dma ?s0) = len"
      "d_busy (s_dma ?s0)" "\<not> d_done (s_dma ?s0)" "\<not> d_error (s_dma ?s0)"
      "d_irq_enable_latched (s_dma ?s0) = irq" "s_sram ?s0 = s_sram s" "s_intc ?s0 = s_intc s"
      "s_perf ?s0 = (soc_perf_count_mem ^^ 4) (s_perf s)"
    by (simp_all add: P(1) dma_started_def dma_request_def)
  have mem: "m_data (s_sram s) \<noteq> None"
    using assms(1) by (simp add: soc_wf_def sram_ok_def mem_wf_def)
  have fifo: "src \<noteq> 0x20000004" "dst \<noteq> 0x20000000"
    using assms(4,5) by (auto simp: in_vlab_sram_def)
  have mal: "malloc (unat (d_length (s_dma ?s0))) \<noteq> None"
    using assms(12) by (simp add: d0)
  note E = soc_transfer_end [OF P(6,2,5) dma_check_bound(1) [OF P(6,3)] assms(11) mal, unfolded T, unfolded d0]
  have busy: "soc_dma_status (s_dma (run k)) = 1 \<and> m_bytes (s_sram (run k)) = m_bytes (s_sram s)"
    if "k < T" for k
    using soc_transfer_busy [OF P(2), of k malloc] that d0
    by (simp add: T assms(13) dma_status_values)
  have "s_sram (run T) = m_store (s_sram s) (unat dst - 0x10000000)
      (bytes_at (m_bytes (s_sram s)) (unat src - 0x10000000) (unat len))"
    using E(2) fifo by (simp add: assms(13) vlab_moved_def)
  moreover have "soc_dma_status (s_dma (run T)) = 2"
    using E(1) by (simp add: assms(13) dma_status_values)
  ultimately show ?thesis
    using busy E(3-5) mem by (simp add: assms(13) m_bytes_store)
qed

text \<open>
  C1. A memory-to-memory transfer, end to end through the bus. On an idle engine, programming
  an aligned transfer of at most 16 KiB inside SRAM keeps STATUS at BUSY and every SRAM byte
  unchanged for exactly \<open>words * latency + (bursts - 1)\<close> ticks; at that tick STATUS is DONE, the
  destination holds the source bytes as they were (so overlapping ranges behave as \<open>memmove\<close>) and
  no other byte changed, the byte counter advanced by the length if counting is enabled, and
  the DMA line is pending iff the interrupt was requested or was pending already. It does not
  matter what the UART and the timer do in the meantime. The duration must be below 2^31 and the sum
  \<open>words + burst - 1\<close> must not wrap.
\<close>

theorem dma_ram_transfer:
  assumes "soc_wf s" and "\<not> d_busy (s_dma s)" and "\<not> d_fault_stuck_busy (s_dma s)"
    and "in_vlab_sram src len" and "in_vlab_sram dst len" and "vlab_aligned src dst len"
    and "unat len \<le> 16384"
    and "T = dma_words len * unat (d_latency_per_word (s_dma s)) + (dma_bursts (d_burst (s_dma s)) len - 1)"
    and "T < 2 ^ 31" and "dma_words len + unat (d_burst (s_dma s)) \<le> 2 ^ 32"
    and "malloc_sound malloc" and "malloc (unat len) \<noteq> None"
    and "run = (\<lambda>k. (soc_tick malloc ^^ k) (dma_program s src dst len irq))"
  shows "(\<forall>k < T. soc_dma_status (s_dma (run k)) = SOC_DMA_STATUS_BUSY \<and> m_bytes (s_sram (run k)) = m_bytes (s_sram s)) \<and>
    soc_dma_status (s_dma (run T)) = SOC_DMA_STATUS_DONE \<and>
    m_bytes (s_sram (run T)) =
      blit (m_bytes (s_sram s)) (unat dst - 0x10000000)
        (bytes_at (m_bytes (s_sram s)) (unat src - 0x10000000) (unat len)) \<and>
    pf_dma_bytes (s_perf (run T)) =
      (if pf_enabled (s_perf s) then pf_dma_bytes (s_perf s) + len else pf_dma_bytes (s_perf s)) \<and>
    (2 \<in> lines_of (ic_pending (s_intc (run T))) \<longleftrightarrow> irq \<or> 2 \<in> lines_of (ic_pending (s_intc s))) \<and>
    soc_wf (run T)"
  by (rule ram_transfer_run [OF assms])

lemma soc_default_dma:
  defines "d \<equiv> s_dma (soc_init soc_static None)"
  shows "\<not> d_busy d" and "\<not> d_fault_stuck_busy d" and "d_burst d = 4" and "d_latency_per_word d = 1"
  by (simp_all add: d_def soc_init_def Let_def soc_dma_init_def soc_config_default_def)

lemma malloc_total: "malloc_sound (\<lambda>n. Some (replicate n 0))"
  by (simp add: malloc_sound_def)

theorem dma_ram_transfer_witness:
  "soc_dma_status (s_dma ((soc_tick (\<lambda>n. Some (replicate n 0)) ^^ 4)
     (dma_program (soc_init soc_static None) 0x10000000 0x10000100 16 True))) = SOC_DMA_STATUS_DONE"
proof -
  let ?s = "soc_init soc_static None"
  have wf: "soc_wf ?s"
    by (rule soc_init_wf [OF soc_static_storage])
  have r: "in_vlab_sram 0x10000000 16" "in_vlab_sram 0x10000100 16" "vlab_aligned 0x10000000 0x10000100 16"
      "unat (16 :: u32) \<le> 16384"
    by (simp_all add: in_vlab_sram_def vlab_aligned_def)
  have T: "4 = dma_words 16 * unat (d_latency_per_word (s_dma ?s)) + (dma_bursts (d_burst (s_dma ?s)) 16 - 1)"
    by (simp add: soc_default_dma dma_words_def dma_bursts_def)
  have b: "dma_words 16 + unat (d_burst (s_dma ?s)) \<le> 2 ^ 32"
    by (simp add: soc_default_dma dma_words_def)
  show ?thesis
    using dma_ram_transfer [OF wf soc_default_dma(1,2) r T _ b malloc_total _ refl, of True] by simp
qed

text \<open>
  C9. An invalid request fails at once and touches nothing. If the request violates a rule of the
  platform, the START leaves STATUS at ERROR with the code of the first violated rule in the
  documented order LEN, ALIGN, MAX, ADDR, DIRECTION; the engine never becomes busy, the DMA line
  is raised iff the interrupt was requested, and memory, UART, timer and CPU keep their state,
  then and after any number of ticks as far as the engine is concerned.
\<close>

theorem dma_invalid_request:
  assumes "soc_wf s" and "\<not> d_busy (s_dma s)" and "vlab_violates src dst len r"
    and "s0 = dma_program s src dst len irq"
  shows "soc_dma_status (s_dma s0) = SOC_DMA_STATUS_ERROR \<and>
    d_err_code (s_dma s0) = rule_code (Min {r. vlab_violates src dst len r}) \<and>
    s_rom s0 = s_rom s \<and> s_sram s0 = s_sram s \<and> s_uart s0 = s_uart s \<and> s_timer s0 = s_timer s \<and>
    s_cpu s0 = s_cpu s \<and>
    lines_of (ic_pending (s_intc s0)) = lines_of (ic_pending (s_intc s)) \<union> (if irq then {2} else {}) \<and>
    s_dma ((soc_tick malloc ^^ k) s0) = s_dma s0 \<and> s_sram ((soc_tick malloc ^^ k) s0) = s_sram s"
proof -
  let ?d = "dma_request (s_dma s) src dst len" and ?code = "rule_code (Min {r. vlab_violates src dst len r})"
  have b: "d_regions (s_dma s) = Some vlab_memory_map" "d_periph_eps (s_dma s) = Some vlab_dma_periph_eps"
      "d_caps (s_dma s) = vlab_dma_caps" "d_intc (s_dma s) = SocRef" "d_irq_line (s_dma s) = 2"
    using assms(1) by (simp_all add: soc_wf_def dma_bound_def dma_wf_def)
  have chk: "dma_req_check ?d = ?code"
    unfolding vlab_check_least [OF assms(3), symmetric] by (simp add: dma_req_check_def dma_request_def b)
  have s0: "s0 = s\<lparr>s_dma := (dma_refused ?d irq ?code)\<lparr>d_ctrl := ctrl_word irq\<rparr>,
      s_intc := dma_signal (?d\<lparr>d_irq_enable_latched := irq\<rparr>) (s_intc s),
      s_perf := (soc_perf_count_mem ^^ 4) (s_perf s)\<rparr>"
    unfolding assms(4) dma_program_eq [OF assms(1,2)] chk by simp
  have "\<not> dma_running (s_dma s0)"
    by (simp add: s0 dma_running_def dma_refused_def)
  then have "s_dma ((soc_tick malloc ^^ k) s0) = s_dma s0 \<and> s_sram ((soc_tick malloc ^^ k) s0) = s_sram s0"
    by (rule soc_ticks_no_dma)
  moreover have "soc_dma_status (s_dma s0) = 4" "d_err_code (s_dma s0) = ?code"
    by (simp_all add: s0 dma_refused_def dma_status_values)
  moreover have "lines_of (ic_pending (s_intc s0)) = lines_of (ic_pending (s_intc s)) \<union> (if irq then {2} else {})"
    by (simp add: s0 dma_signal_def dma_request_def b soc_intc_raise_def)
  ultimately show ?thesis
    by (simp add: s0)
qed

text \<open>A destination that is not mapped: two rules are violated, the address rule comes first.\<close>

theorem dma_invalid_request_witness:
  "d_err_code (s_dma (dma_program (soc_init soc_static None) 0x10000000 0x40000000 16 False)) = SOC_DMA_ERR_ADDR"
proof -
  have wf: "soc_wf (soc_init soc_static None)"
    by (rule soc_init_wf [OF soc_static_storage])
  have "vlab_violates 0x10000000 0x40000000 16 r \<longleftrightarrow> r = Rule_Addr \<or> r = Rule_Pair" for r
    by (cases r) (simp_all add: vlab_mapped_def vlab_region_bounds_def vlab_transfer_def in_vlab_sram_def)
  then have "{r. vlab_violates 0x10000000 0x40000000 16 r} = {Rule_Addr, Rule_Pair}" and
      v: "vlab_violates 0x10000000 0x40000000 16 Rule_Addr"
    by blast+
  then have "rule_code (Min {r. vlab_violates 0x10000000 0x40000000 16 r}) = SOC_DMA_ERR_ADDR"
    by (simp add: min_def less_eq_dma_rule_def)
  with dma_invalid_request [OF wf soc_default_dma(1) v refl, of False] show ?thesis
    by simp
qed

text \<open>
  C16. What the engine of the VLAB platform accepts, as arithmetic on addresses: a START makes
  the engine busy iff the length is a positive multiple of 4 of at most 16 KiB, both addresses
  are word aligned, and the pair is SRAM to SRAM, SRAM to the UART transmit FIFO or the UART
  receive FIFO to SRAM, with every SRAM range inside the 64 KiB. Nothing else is ever started.
\<close>

theorem dma_vlab_acceptance:
  assumes "soc_wf s" and "\<not> d_busy (s_dma s)"
  shows "d_busy (s_dma (dma_program s src dst len irq)) \<longleftrightarrow>
    unat len \<le> 16384 \<and> unat len mod 4 = 0 \<and> unat src mod 4 = 0 \<and> unat dst mod 4 = 0 \<and>
    ((in_vlab_sram src len \<and> in_vlab_sram dst len) \<or>
     (in_vlab_sram src len \<and> dst = VLAB_UART_TXDATA) \<or>
     (src = VLAB_UART_RXDATA \<and> in_vlab_sram dst len))"
proof -
  let ?d = "dma_request (s_dma s) src dst len"
  have "d_busy (s_dma (dma_program s src dst len irq)) \<longleftrightarrow> dma_req_check ?d = 0"
    unfolding dma_program_eq [OF assms] by (simp add: dma_started_def dma_refused_def)
  also have "\<dots> \<longleftrightarrow> unat len \<le> 16384 \<and> vlab_aligned src dst len \<and> vlab_transfer src dst len"
    using assms(1) vlab_check_zero [of src dst len]
    by (simp add: dma_req_check_def dma_request_def soc_wf_def dma_bound_def)
  finally show ?thesis
    unfolding vlab_aligned_def vlab_transfer_def by argo
qed

theorem dma_vlab_acceptance_witness:
  "d_busy (s_dma (dma_program (soc_init soc_static None) 0x10000000 VLAB_UART_TXDATA 16 False)) \<and>
   \<not> d_busy (s_dma (dma_program (soc_init soc_static None) 0x10000000 VLAB_TIMER_LOAD 16 False))"
proof -
  have wf: "soc_wf (soc_init soc_static None)"
    by (rule soc_init_wf [OF soc_static_storage])
  note a = dma_vlab_acceptance [OF wf soc_default_dma(1)]
  show ?thesis
    using a [of "0x10000000" VLAB_UART_TXDATA 16 False] a [of "0x10000000" VLAB_TIMER_LOAD 16 False]
    by (simp add: in_vlab_sram_def)
qed

text \<open>
  C32. A START while BUSY is ignored: the write succeeds, one access and one stall are counted,
  the control register takes the value without its START bit, and the running transfer (its
  registers, its remaining ticks, its latched interrupt enable) is not disturbed.
\<close>

theorem dma_busy_start_ignored:
  assumes "soc_wf s" and "d_busy (s_dma s)" and "bit v 0"
  shows "soc_write s VLAB_DMA_CTRL v =
    (Inr (), s\<lparr>s_dma := (s_dma s)\<lparr>d_ctrl := v AND NOT 1\<rparr>,
       s_perf := soc_perf_count_stall (soc_perf_count_mem (s_perf s)) 1\<rparr>)"
proof -
  have c: "(v AND NOT 1) OR (if bit v 1 then 2 else 0) = v AND NOT 1"
  proof (cases "bit v 1")
    case True
    have "(v AND NOT 1) OR 2 = v AND NOT 1"
    proof (rule bit_word_eqI)
      fix n
      assume "n < LENGTH(32)"
      then show "bit ((v AND NOT 1) OR 2) n = bit (v AND NOT 1) n"
        using True bit_exp_iff [of 1 n, where 'a = u32] by (auto simp: bit_simps)
    qed
    with True show ?thesis by simp
  qed simp
  have "d_perf (s_dma s) = SocRef"
    using assms(1) by (simp add: soc_wf_def dma_wf_def)
  then show ?thesis
    using soc_write_dma [OF assms(1), of 12 v] assms(2,3) c
    by (cases s) (simp add: dma_write_ctrl [simplified] dma_start_busy)
qed

theorem dma_busy_start_ignored_witness:
  "d_remaining (s_dma (snd (soc_write
     (dma_program (soc_init soc_static None) 0x10000000 0x10000100 16 True) VLAB_DMA_CTRL 1))) = 4"
proof -
  let ?s = "soc_init soc_static None"
  let ?q = "dma_program ?s 0x10000000 0x10000100 16 True"
  have wf: "soc_wf ?s"
    by (rule soc_init_wf [OF soc_static_storage])
  have P: "dma_running (s_dma ?q)" "d_remaining (s_dma ?q) = 4"
    using dma_program_accepted [OF wf soc_default_dma(1,2), of 16 "0x10000000" "0x10000100" True]
    by (simp_all add: vlab_aligned_def vlab_transfer_def in_vlab_sram_def soc_default_dma dma_words_def dma_bursts_def)
  then have b: "d_busy (s_dma ?q)"
    by (simp add: dma_running_def)
  show ?thesis
    using dma_busy_start_ignored [OF dma_program_wf [OF wf] b, of 1] P(2) by simp
qed

section \<open>Streaming through the UART\<close>

lemma soc_running_uart_idle:
  assumes "dma_running (s_dma s)" and "k < nat (d_remaining (s_dma s))" and "\<not> uart_armed (s_uart s)"
  shows "s_uart ((soc_tick malloc ^^ k) s) = s_uart s"
  using assms(2)
proof (induction k)
  case (Suc k)
  let ?t = "(soc_tick malloc ^^ k) s"
  have t: "s_uart ?t = s_uart s" "s_dma ?t = (s_dma s)\<lparr>d_remaining := d_remaining (s_dma s) - int k\<rparr>"
    using Suc soc_transfer_busy(1) [OF assms(1), of k malloc] by simp_all
  have "dma_running (s_dma ?t)" "1 < d_remaining (s_dma ?t)"
    using assms(1) Suc.prems by (simp_all add: t(2))
  from soc_tick_running(5) [OF this, of malloc] show ?case
    using assms(3) by (simp add: t(1) uart_step_idle)
qed simp

text \<open>One transfer between SRAM and a FIFO of an otherwise idle UART.\<close>

lemma dma_fifo_transfer:
  fixes s :: soc_t and src dst len :: u32 and irq :: bool
  assumes "soc_wf s" and "\<not> d_busy (s_dma s)" and "\<not> d_fault_stuck_busy (s_dma s)"
    and "\<not> uart_armed (s_uart s)"
    and "unat len \<le> 16384" and "vlab_aligned src dst len" and "vlab_transfer src dst len"
    and "dma_words len + unat (d_burst (s_dma s)) \<le> 2 ^ 32"
    and "T = dma_words len * unat (d_latency_per_word (s_dma s)) + (dma_bursts (d_burst (s_dma s)) len - 1)"
    and "T < 2 ^ 31" and "malloc_sound malloc" and "malloc (unat len) \<noteq> None"
  defines "s' \<equiv> (soc_tick malloc ^^ T) (dma_program s src dst len irq)"
  shows "(s_uart s', s_sram s') = vlab_moved src dst len (s_uart s, s_sram s)"
    and "soc_dma_status (s_dma s') = 2" and "soc_wf s'" and "\<not> d_busy (s_dma s')"
    and "\<not> d_fault_stuck_busy (s_dma s')" and "d_burst (s_dma s') = d_burst (s_dma s)"
    and "d_latency_per_word (s_dma s') = d_latency_per_word (s_dma s)"
proof -
  let ?s0 = "dma_program s src dst len irq"
  note P = dma_program_accepted [OF assms(1-3,5-8), folded assms(9), OF assms(10), of irq]
  have T: "nat (d_remaining (s_dma ?s0)) = T"
    using P(4) by simp
  have d0: "d_src (s_dma ?s0) = src" "d_dst (s_dma ?s0) = dst" "d_length (s_dma ?s0) = len"
      "s_sram ?s0 = s_sram s" "s_uart ?s0 = s_uart s"
    by (simp_all add: P(1) dma_started_def dma_request_def)
  have mal: "malloc (unat (d_length (s_dma ?s0))) \<noteq> None"
    using assms(12) by (simp add: d0)
  note E = soc_transfer_end [OF P(6,2,5) dma_check_bound(1) [OF P(6,3)] assms(11) mal, unfolded T, unfolded d0, folded s'_def]
  have "s_uart ((soc_tick malloc ^^ (T - 1)) ?s0) = s_uart s"
    using soc_running_uart_idle [OF P(2), of "T - 1" malloc] T P(5) assms(4) by (simp add: d0)
  then show "(s_uart s', s_sram s') = vlab_moved src dst len (s_uart s, s_sram s)"
    using E(2) assms(4) by (simp add: uart_step_idle)
  show "soc_wf s'"
    by (rule E(5))
  show "soc_dma_status (s_dma s') = 2" "\<not> d_busy (s_dma s')" "\<not> d_fault_stuck_busy (s_dma s')"
    "d_burst (s_dma s') = d_burst (s_dma s)" "d_latency_per_word (s_dma s') = d_latency_per_word (s_dma s)"
    using E(1) assms(3) by (simp_all add: dma_status_values P(1) dma_started_def dma_request_def)
qed

text \<open>
  C24. Streaming through the UART: a transfer from SRAM to the transmit FIFO followed by one
  from the receive FIFO to SRAM copies the bytes. With an idle UART whose receive stream is
  empty, both transfers end with DONE after the documented number of ticks, the destination
  range holds the bytes of the source range, no other SRAM byte changes, and the receive
  stream is empty again. The duration must be below 2^31 and the sum
  \<open>words + burst - 1\<close> must not wrap.
\<close>

theorem dma_uart_loop:
  assumes "soc_wf s" and "\<not> d_busy (s_dma s)" and "\<not> d_fault_stuck_busy (s_dma s)"
    and "\<not> uart_armed (s_uart s)" and "uart_rx_stream (s_uart s) = []"
    and "in_vlab_sram src len" and "in_vlab_sram dst len" and "vlab_aligned src dst len"
    and "unat len \<le> 16384" and "dma_words len + unat (d_burst (s_dma s)) \<le> 2 ^ 32"
    and "T = dma_words len * unat (d_latency_per_word (s_dma s)) + (dma_bursts (d_burst (s_dma s)) len - 1)"
    and "T < 2 ^ 31" and "malloc_sound malloc" and "malloc (unat len) \<noteq> None"
    and "s1 = (soc_tick malloc ^^ T) (dma_program s src VLAB_UART_TXDATA len irq)"
    and "s2 = (soc_tick malloc ^^ T) (dma_program s1 VLAB_UART_RXDATA dst len irq)"
  shows "soc_dma_status (s_dma s1) = SOC_DMA_STATUS_DONE \<and> s_sram s1 = s_sram s \<and>
    soc_dma_status (s_dma s2) = SOC_DMA_STATUS_DONE \<and>
    m_bytes (s_sram s2) = blit (m_bytes (s_sram s)) (unat dst - 0x10000000)
      (bytes_at (m_bytes (s_sram s)) (unat src - 0x10000000) (unat len)) \<and>
    uart_rx_stream (s_uart s2) = []"
proof -
  let ?xs = "bytes_at (m_bytes (s_sram s)) (unat src - 0x10000000) (unat len)"
  let ?u1 = "soc_uart_dma_tx_append (s_uart s) (Some ?xs) len"
  have ok: "sram_ok (s_sram s)" "uart_wf (s_uart s)"
    using assms(1) by (simp_all add: soc_wf_def)
  have xs: "length ?xs = unat len"
    by (rule length_bytes_at) (use assms(6) ok(1) in \<open>auto simp: in_vlab_sram_def sram_ok_def mem_wf_def\<close>)
  have al: "vlab_aligned src VLAB_UART_TXDATA len" "vlab_aligned VLAB_UART_RXDATA dst len"
    using assms(8) by (simp_all add: vlab_aligned_def)
  have tr: "vlab_transfer src VLAB_UART_TXDATA len" "vlab_transfer VLAB_UART_RXDATA dst len"
    using assms(6,7) by (simp_all add: vlab_transfer_def)
  note A = dma_fifo_transfer [OF assms(1-4,9) al(1) tr(1) assms(10-14), of irq, folded assms(15)]
  have src: "src \<noteq> 0x20000004" "dst \<noteq> 0x20000000"
    using assms(6,7) by (auto simp: in_vlab_sram_def)
  have s1: "s_uart s1 = ?u1" "s_sram s1 = s_sram s"
    using A(1) src(1) by (simp_all add: vlab_moved_def)
  have idle: "\<not> uart_armed (s_uart s1)"
    using assms(4) by (simp add: s1 uart_armed_def)
  note st = uart_append_streams [OF ok(2), of len ?xs]
  have rx: "uart_rx_stream ?u1 = ?xs" "uart_wf ?u1"
    using st(2,3) xs assms(5,9) by simp_all
  note B = dma_fifo_transfer [OF A(3-5) idle assms(9) al(2) tr(2), unfolded A(6,7), OF assms(10-14), of irq,
      folded assms(16)]
  have drained: "uart_rx_stream (fst (soc_uart_dma_rx_drain ?u1 (Some (replicate (unat len) 0)) len)) = []"
    using uart_drain_streams(2) [OF rx(2), of len "replicate (unat len) 0"] rx(1) xs by simp
  have "s_sram s2 = m_store (s_sram s) (unat dst - 0x10000000) ?xs" "uart_rx_stream (s_uart s2) = []"
    using B(1) src(2) rx(1) xs drained by (simp_all add: s1 vlab_moved_def)
  then show ?thesis
    using A(2) B(2) s1(2) ok(1) by (simp add: m_bytes_store sram_ok_def mem_wf_def)
qed

lemma soc_default_uart:
  "\<not> uart_armed (s_uart (soc_init soc_static None))" "uart_rx_stream (s_uart (soc_init soc_static None)) = []"
  by (simp_all add: soc_init_def Let_def soc_uart_init_def uart_armed_def uart_rx_stream_def)

theorem dma_uart_loop_witness:
  "uart_rx_stream (s_uart ((soc_tick (\<lambda>n. Some (replicate n 0)) ^^ 4)
     (dma_program ((soc_tick (\<lambda>n. Some (replicate n 0)) ^^ 4)
        (dma_program (soc_init soc_static None) 0x10000000 VLAB_UART_TXDATA 16 False))
      VLAB_UART_RXDATA 0x10000100 16 False))) = []"
proof -
  let ?s = "soc_init soc_static None"
  have wf: "soc_wf ?s"
    by (rule soc_init_wf [OF soc_static_storage])
  have r: "in_vlab_sram 0x10000000 16" "in_vlab_sram 0x10000100 16" "vlab_aligned 0x10000000 0x10000100 16"
      "unat (16 :: u32) \<le> 16384" "dma_words 16 + unat (d_burst (s_dma ?s)) \<le> 2 ^ 32"
    by (simp_all add: in_vlab_sram_def vlab_aligned_def soc_default_dma dma_words_def)
  have T: "4 = dma_words 16 * unat (d_latency_per_word (s_dma ?s)) + (dma_bursts (d_burst (s_dma ?s)) 16 - 1)"
    by (simp add: soc_default_dma dma_words_def dma_bursts_def)
  show ?thesis
    using dma_uart_loop [OF wf soc_default_dma(1,2) soc_default_uart r T _ malloc_total _ refl refl, of False]
    by simp
qed

text \<open>
  C29. The duration of a transfer at its machine width, for every latency and every burst length.
  An accepted START sets a duration between 1 and 2^31 - 1 ticks, so every transfer ends. It is
  the sum \<open>words * latency + bursts - 1\<close> modulo 2^32, or 1 where that is 0 or has bit 31 set (it is
  then a negative \<open>int\<close>); \<open>bursts\<close> is \<open>ceil (words / burst)\<close>, or 0 where \<open>words + burst - 1\<close> wraps.
  So it is the documented duration as long as nothing wraps and the sum stays below 2^31, and one
  tick less than documented, but at least one, where \<open>words + burst - 1\<close> wraps.
\<close>

theorem dma_duration_bounds:
  assumes "soc_wf s" and "\<not> d_busy (s_dma s)" and "s0 = dma_program s src dst len irq" and "d_busy (s_dma s0)"
    and "lat = d_latency_per_word (s_dma s)" and "burst = d_burst (s_dma s)"
    and "bursts = (if dma_words len + unat burst \<le> 2 ^ 32 then int (dma_bursts burst len) else 0)"
    and "S = (int (dma_words len) * uint lat + bursts - 1) mod 2 ^ 32"
    and "T = dma_words len * unat lat + (dma_bursts burst len - 1)"
  shows "d_remaining (s_dma s0) = (if 1 \<le> S \<and> S < 2 ^ 31 then S else 1) \<and>
    1 \<le> d_remaining (s_dma s0) \<and> d_remaining (s_dma s0) < 2 ^ 31 \<and>
    (dma_words len + unat burst \<le> 2 ^ 32 \<and> T < 2 ^ 31 \<longrightarrow> d_remaining (s_dma s0) = int T) \<and>
    (2 ^ 32 < dma_words len + unat burst \<and> T < 2 ^ 31 \<longrightarrow> d_remaining (s_dma s0) = max 1 (int T - 1))"
proof -
  let ?d = "dma_request (s_dma s) src dst len"
  have chk: "dma_req_check ?d = 0"
    using assms(3,4) unfolding dma_program_eq [OF assms(1,2)] by (auto simp: dma_refused_def split: if_split_asm)
  then have r: "d_remaining (s_dma s0) = dma_ticks lat burst len"
    unfolding assms(3,5,6) dma_program_eq [OF assms(1,2)] by (simp add: dma_started_def dma_request_def)
  have "unat len \<le> 16384 \<and> vlab_transfer src dst len"
    using chk assms(1) vlab_check_zero [of src dst len]
    by (simp add: dma_req_check_def dma_request_def soc_wf_def dma_bound_def)
  then have len: "0 < unat len" "unat len + 3 < 4294967296" "dma_words len \<le> 4096"
    by (auto simp: vlab_transfer_def in_vlab_sram_def dma_words_def)
  have pos: "0 < unat burst" "0 < unat lat"
    using assms(1) by (simp_all add: assms(5,6) soc_wf_def dma_wf_def)
  have ex: "dma_ticks lat burst len = (if 1 \<le> S \<and> S < 2 ^ 31 then S else 1)"
    using dma_ticks_exact [OF len(2) pos(1), of lat] by (simp add: assms(7,8))
  have doc: "dma_ticks lat burst len = int T" if "dma_words len + unat burst \<le> 2 ^ 32" "T < 2 ^ 31"
    using dma_ticks_eq [OF len(1,2) pos(1) _ pos(2)] that by (simp add: assms(9))
  have "dma_ticks lat burst len = max 1 (int T - 1)" if "2 ^ 32 < dma_words len + unat burst" "T < 2 ^ 31"
    using dma_ticks_wrapped [OF len pos] that by (simp add: assms(9))
  then show ?thesis
    unfolding r using dma_ticks_range ex doc by blast
qed

text \<open>A latency that makes the duration a negative \<open>int\<close>, and a burst that makes the sum wrap.\<close>

theorem dma_duration_bounds_witness:
  "d_remaining (s_dma (dma_program (soc_init soc_static (Some (soc_config_default\<lparr>cfg_dma_latency_per_word_ticks := 0x80000000,
     cfg_dma_burst := 4\<rparr>))) 0x10000000 0x10000100 4 False)) = 1 \<and>
   d_remaining (s_dma (dma_program (soc_init soc_static (Some (soc_config_default\<lparr>cfg_dma_latency_per_word_ticks := 5,
     cfg_dma_burst := 0xFFFFFFFF\<rparr>))) 0x10000000 0x10000100 8 False)) = 9"
proof -
  have R: "d_busy (s_dma (dma_program s 0x10000000 0x10000100 n False))"
    if "soc_wf s" "\<not> d_busy (s_dma s)" "n = 4 \<or> n = 8" for s n
  proof -
    have "dma_check (Some vlab_memory_map) (Some vlab_dma_periph_eps) vlab_dma_caps 0x10000000 0x10000100 n = 0"
      unfolding vlab_check_zero using that(3) by (auto simp: vlab_transfer_def vlab_aligned_def in_vlab_sram_def)
    then have "dma_req_check (dma_request (s_dma s) 0x10000000 0x10000100 n) = 0"
      using that(1) by (simp add: dma_req_check_def dma_request_def soc_wf_def dma_bound_def)
    then show ?thesis
      unfolding dma_program_eq [OF that(1,2)] by (simp add: dma_started_def)
  qed
  let ?c = "\<lambda>lat burst. Some (soc_config_default\<lparr>cfg_dma_latency_per_word_ticks := lat, cfg_dma_burst := burst\<rparr>)"
  have wf: "soc_wf (soc_init soc_static c)" for c
    by (rule soc_init_wf [OF soc_static_storage])
  have d: "\<not> d_busy (s_dma (soc_init soc_static (?c lat burst)))"
      "d_burst (s_dma (soc_init soc_static (?c lat burst))) = burst"
      "d_latency_per_word (s_dma (soc_init soc_static (?c lat burst))) = lat" if "0 < lat" "0 < burst" for lat burst
    using that by (simp_all add: soc_init_def Let_def soc_dma_init_def soc_config_default_def)
  have E: "d_remaining (s_dma (dma_program (soc_init soc_static (?c lat burst)) 0x10000000 0x10000100 n False)) =
      (if 1 \<le> S \<and> S < 2 ^ 31 then S else 1)"
    if "0 < lat" "0 < burst" "n = 4 \<or> n = 8"
      "S = (int (dma_words n) * uint lat +
        (if dma_words n + unat burst \<le> 2 ^ 32 then int (dma_bursts burst n) else 0) - 1) mod 2 ^ 32" for lat burst n S
    using dma_duration_bounds [OF wf d(1) refl R [OF wf d(1) that(3)] refl refl refl refl refl, OF that(1,2) that(1,2)]
    unfolding d(2,3) [OF that(1,2)] that(4) by (rule conjunct1)
  show ?thesis
    using E [of "0x80000000" 4 4, OF _ _ _ refl] E [of 5 "0xFFFFFFFF" 8, OF _ _ _ refl]
    by (simp add: dma_words_def dma_bursts_def)
qed

end
