(* ===== verification/Host.thy ===== *)
theory Host
  imports Soc_Dma "HOL-Library.State_Monad"
begin

text \<open>
  The host bridge of \<open>soc_c/src/host_bridge.c\<close> and the hardware abstraction layer of
  \<open>firmware/hal/hal.c\<close> and \<open>firmware/hal/host.c\<close>. The static variables \<open>g_soc\<close>, \<open>g_inited\<close> and
  \<open>s_irq_masked\<close> are the record \<open>host\<close>, which the firmware state of later theories extends; every
  C function is an action of the state monad over it. A register access that the bus refuses
  reads as 0 and writes nothing, as in the bridge. The lemmas turn each access of the drivers
  into the SoC operation behind it, and show that the read-modify-write helpers change exactly
  the masked bits of a read-write register.
\<close>

record host =
  h_soc :: soc_t
  h_inited :: bool
  h_irq_masked :: u32

section \<open>The bridge\<close>

definition soc_host_init :: "soc_config_t option \<Rightarrow> ('h host_scheme, unit) state" where
  "soc_host_init cfg = State_Monad.update (\<lambda>h.
     h\<lparr>h_soc := soc_init (h_soc h) (Some (case cfg of None \<Rightarrow> soc_config_default | Some c \<Rightarrow> c)),
       h_inited := True\<rparr>)"

text \<open>The line \<open>if (!g_inited) soc_host_init(NULL)\<close> at the head of the entry points.\<close>

definition host_ensure :: "('h host_scheme, unit) state" where
  "host_ensure = do {
     h \<leftarrow> State_Monad.get;
     if \<not> h_inited h then soc_host_init None else State_Monad.return ()
   }"

definition soc_host_soc :: "('h host_scheme, soc_t) state" where
  "soc_host_soc = do { host_ensure; h \<leftarrow> State_Monad.get; State_Monad.return (h_soc h) }"

definition soc_host_boot :: "(nat \<Rightarrow> u8 list option) \<Rightarrow> ('h host_scheme, unit) state" where
  "soc_host_boot malloc = do {
     host_ensure;
     State_Monad.update (\<lambda>h. h\<lparr>h_soc := snd (soc_boot malloc (h_soc h) None)\<rparr>)
   }"

definition soc_host_step :: "(nat \<Rightarrow> u8 list option) \<Rightarrow> u32 \<Rightarrow> ('h host_scheme, unit) state" where
  "soc_host_step malloc n = do {
     host_ensure;
     State_Monad.update (\<lambda>h. h\<lparr>h_soc := soc_step malloc (h_soc h) n\<rparr>)
   }"

definition vlab_mmio_read :: "u32 \<Rightarrow> ('h host_scheme, u32) state" where
  "vlab_mmio_read addr = do {
     host_ensure;
     h \<leftarrow> State_Monad.get;
     case soc_read (h_soc h) addr of (rc, s) \<Rightarrow> do {
       State_Monad.set (h\<lparr>h_soc := s\<rparr>);
       State_Monad.return (case rc of Inl e \<Rightarrow> 0 | Inr v \<Rightarrow> v)
     }
   }"

definition vlab_mmio_write :: "u32 \<Rightarrow> u32 \<Rightarrow> ('h host_scheme, unit) state" where
  "vlab_mmio_write addr val = do {
     host_ensure;
     State_Monad.update (\<lambda>h. h\<lparr>h_soc := snd (soc_write (h_soc h) addr val)\<rparr>)
   }"

definition vlab_test_raise_irq :: "u32 \<Rightarrow> ('h host_scheme, unit) state" where
  "vlab_test_raise_irq line = do {
     host_ensure;
     State_Monad.update (\<lambda>h. h\<lparr>h_soc := (h_soc h)
       \<lparr>s_intc := soc_intc_raise (s_intc (h_soc h)) (i32_of_u32 line)\<rparr>\<rparr>)
   }"

text \<open>
  The loop of \<open>vlab_test_dma_complete\<close> with \<open>n\<close> rounds left; \<open>st\<close> is the variable that keeps its
  value when a read is refused.
\<close>

fun dma_complete_loop :: "(nat \<Rightarrow> u8 list option) \<Rightarrow> nat \<Rightarrow> u32 \<Rightarrow> soc_t \<Rightarrow> soc_t" where
  "dma_complete_loop malloc 0 st s = s"
| "dma_complete_loop malloc (Suc n) st s =
     (let (rc, s1) = soc_read s (SOC_DMA_BASE + 0x10);
          st1 = (case rc of Inl e \<Rightarrow> st | Inr v \<Rightarrow> v)
      in if st1 AND (SOC_DMA_STATUS_DONE OR SOC_DMA_STATUS_ERROR) \<noteq> 0 then s1
         else if st1 AND SOC_DMA_STATUS_BUSY = 0 then s1
         else dma_complete_loop malloc n st1 (soc_step malloc s1 1))"

definition vlab_test_dma_complete :: "(nat \<Rightarrow> u8 list option) \<Rightarrow> ('h host_scheme, unit) state" where
  "vlab_test_dma_complete malloc = State_Monad.update (\<lambda>h.
     if \<not> h_inited h then h else h\<lparr>h_soc := dma_complete_loop malloc 100000 0 (h_soc h)\<rparr>)"

definition vlab_test_dma_error :: "u32 \<Rightarrow> ('h host_scheme, unit) state" where
  "vlab_test_dma_error code = State_Monad.update (\<lambda>h.
     if \<not> h_inited h then h
     else
       let s = h_soc h;
           d = (s_dma s)\<lparr>d_busy := False, d_done := False, d_error := True, d_err_code := code\<rparr>;
           s1 = s\<lparr>s_dma := d\<rparr>
       in h\<lparr>h_soc := (if d_ctrl d AND SOC_DMA_CTRL_IRQ_ENABLE \<noteq> 0
                      then s1\<lparr>s_intc := soc_intc_raise (s_intc s1) SOC_DMA_IRQ_LINE\<rparr> else s1)\<rparr>)"

section \<open>The hardware abstraction layer\<close>

definition hal_read_reg :: "u32 \<Rightarrow> ('h host_scheme, u32) state" where
  "hal_read_reg addr = do { v \<leftarrow> vlab_mmio_read addr; State_Monad.return v }"

definition hal_write_reg :: "u32 \<Rightarrow> u32 \<Rightarrow> ('h host_scheme, unit) state" where
  "hal_write_reg addr val = vlab_mmio_write addr val"

definition hal_irq_disable :: "('h host_scheme, u32) state" where
  "hal_irq_disable = do {
     h \<leftarrow> State_Monad.get;
     State_Monad.set (h\<lparr>h_irq_masked := 1\<rparr>);
     State_Monad.return (h_irq_masked h)
   }"

definition hal_irq_restore :: "u32 \<Rightarrow> ('h host_scheme, unit) state" where
  "hal_irq_restore st = State_Monad.update (\<lambda>h. h\<lparr>h_irq_masked := st AND 1\<rparr>)"

definition hal_set_bits :: "u32 \<Rightarrow> u32 \<Rightarrow> ('h host_scheme, unit) state" where
  "hal_set_bits addr msk = do {
     cur \<leftarrow> hal_read_reg addr;
     hal_write_reg addr (cur OR msk)
   }"

definition hal_clear_bits :: "u32 \<Rightarrow> u32 \<Rightarrow> ('h host_scheme, unit) state" where
  "hal_clear_bits addr msk = do {
     cur \<leftarrow> hal_read_reg addr;
     hal_write_reg addr (cur AND NOT msk)
   }"

definition hal_modify_reg :: "u32 \<Rightarrow> u32 \<Rightarrow> u32 \<Rightarrow> ('h host_scheme, unit) state" where
  "hal_modify_reg addr msk val = do {
     cur \<leftarrow> hal_read_reg addr;
     hal_write_reg addr ((cur AND NOT msk) OR (val AND msk))
   }"

section \<open>Running the actions\<close>

named_theorems fw_run \<open>what the actions of the firmware do to an initialised host\<close>

text \<open>The host is initialised and its SoC is well formed.\<close>

definition host_ok :: "'h host_scheme \<Rightarrow> bool" where
  "host_ok h \<longleftrightarrow> h_inited h \<and> soc_wf (h_soc h)"

lemma run_update [simp]: "run_state (State_Monad.update f) s = ((), f s)"
  by (simp add: State_Monad.update_def)

lemma run_if [simp]: "run_state (if c then a else b) s = (if c then run_state a s else run_state b s)"
  by simp

lemma host_ensure_ready [simp]: "h_inited h \<Longrightarrow> run_state host_ensure h = ((), h)"
  by (simp add: host_ensure_def)

lemma host_ensure_fresh:
  "\<not> h_inited h \<Longrightarrow>
     run_state host_ensure h = ((), h\<lparr>h_soc := soc_init (h_soc h) (Some soc_config_default), h_inited := True\<rparr>)"
  by (simp add: host_ensure_def soc_host_init_def)

definition reg_value :: "soc_err + u32 \<Rightarrow> u32" where
  "reg_value rc = (case rc of Inl e \<Rightarrow> 0 | Inr v \<Rightarrow> v)"

lemma reg_value_Inr [simp]: "reg_value (Inr v) = v"
  by (simp add: reg_value_def)

lemma hal_read_run [fw_run]:
  "h_inited h \<Longrightarrow> run_state (hal_read_reg a) h =
     (reg_value (fst (soc_read (h_soc h) a)), h\<lparr>h_soc := snd (soc_read (h_soc h) a)\<rparr>)"
  by (simp add: hal_read_reg_def vlab_mmio_read_def reg_value_def split_def)

lemma hal_write_run [fw_run]:
  "h_inited h \<Longrightarrow> run_state (hal_write_reg a v) h = ((), h\<lparr>h_soc := snd (soc_write (h_soc h) a v)\<rparr>)"
  by (simp add: hal_write_reg_def vlab_mmio_write_def)

lemma hal_irq_run [fw_run]:
  "run_state hal_irq_disable h = (h_irq_masked h, h\<lparr>h_irq_masked := 1\<rparr>)"
  "run_state (hal_irq_restore k) h = ((), h\<lparr>h_irq_masked := k AND 1\<rparr>)"
  by (simp_all add: hal_irq_disable_def hal_irq_restore_def)

lemma host_step_run [fw_run]:
  "h_inited h \<Longrightarrow> run_state (soc_host_step malloc n) h = ((), h\<lparr>h_soc := soc_step malloc (h_soc h) n\<rparr>)"
  by (simp add: soc_host_step_def)

lemma host_read_ok [wf_intros]: "host_ok h \<Longrightarrow> host_ok (snd (run_state (hal_read_reg a) h))"
  by (simp add: host_ok_def fw_run soc_read_wf)

lemma host_write_ok [wf_intros]: "host_ok h \<Longrightarrow> host_ok (snd (run_state (hal_write_reg a v) h))"
  by (simp add: host_ok_def fw_run soc_write_wf)

section \<open>Registers through the bus\<close>

text \<open>The SoC after the access itself has been counted.\<close>

definition counted :: "soc_t \<Rightarrow> soc_t" where
  "counted s = s\<lparr>s_perf := soc_perf_count_mem (s_perf s)\<rparr>"

lemma counted_simps [simp]:
  "s_uart (counted s) = s_uart s" "s_timer (counted s) = s_timer s" "s_dma (counted s) = s_dma s"
  "s_intc (counted s) = s_intc s" "s_sram (counted s) = s_sram s" "s_rom (counted s) = s_rom s"
  "s_regions (counted s) = s_regions s" "s_perf (counted s) = soc_perf_count_mem (s_perf s)"
  "s_cpu (counted s) = s_cpu s" "s_ticks (counted s) = s_ticks s" "s_config (counted s) = s_config s"
  by (simp_all add: counted_def)

lemma counted_wf [wf_intros]: "soc_wf s \<Longrightarrow> soc_wf (counted s)"
  by (simp add: counted_def count_mem_wf)

lemma soc_read_routed:
  assumes "soc_wf s" and "a mod 4 = 0" and "vlab_route (unat a) = k"
    and "soc_read_device (counted s) k a = (Inr v, s')"
  shows "soc_read s a = (Inr v, s')"
  using assms soc_route_wf [of "counted s" a] counted_wf [of s]
  by (simp add: soc_read_def counted_def)

lemma soc_write_routed:
  assumes "soc_wf s" and "a mod 4 = 0" and "vlab_route (unat a) = k"
    and "soc_write_device (counted s) k a v = (Inr (), s')"
  shows "soc_write s a v = (Inr (), s')"
  using assms soc_route_wf [of "counted s" a] counted_wf [of s]
  by (simp add: soc_write_def counted_def)

lemma counted_update_same [simp]:
  "(counted s)\<lparr>s_uart := s_uart s\<rparr> = counted s" "(counted s)\<lparr>s_timer := s_timer s\<rparr> = counted s"
  "(counted s)\<lparr>s_dma := s_dma s\<rparr> = counted s"
  "(counted s)\<lparr>s_perf := soc_perf_count_mem (s_perf s)\<rparr> = counted s"
  by (simp_all add: counted_def)

lemma register_read_values [fw_run]:
  assumes "soc_wf s"
  shows "soc_read s 0x20000008 = (Inr (soc_uart_status (s_uart s)), counted s)"
    and "soc_read s 0x2000000C = (Inr (u_ctrl (s_uart s)), counted s)"
    and "soc_read s 0x20000010 = (Inr (u_bauddiv (s_uart s)), counted s)"
    and "soc_read s 0x20001004 = (Inr (t_load (s_timer s)), counted s)"
    and "soc_read s 0x20001008 = (Inr (t_value (s_timer s)), counted s)"
    and "soc_read s 0x2000100C = (Inr (t_irq_status (s_timer s)), counted s)"
    and "soc_read s 0x20002000 = (Inr (d_src (s_dma s)), counted s)"
    and "soc_read s 0x20002004 = (Inr (d_dst (s_dma s)), counted s)"
    and "soc_read s 0x20002008 = (Inr (d_length (s_dma s)), counted s)"
    and "soc_read s 0x20002010 = (Inr (soc_dma_status (s_dma s)), counted s)"
    and "soc_read s 0x20002018 = (Inr (d_err_code (s_dma s)), counted s)"
    and "soc_read s 0x20004004 = (Inr (pf_mem_acc (soc_perf_count_mem (s_perf s))), counted s)"
    and "soc_read s 0x20004010 = (Inr (pf_stalls (s_perf s)), counted s)"
  by (rule soc_read_routed [OF assms _ refl];
      simp add: vlab_route_def soc_read_device_def soc_uart_read_def soc_timer_read_def soc_dma_read_def
        soc_perf_read_def soc_perf_count_mem_def)+

lemma register_read_rxdata [fw_run]:
  "soc_wf s \<Longrightarrow> soc_read s 0x20000004 =
     (Inr (u_rxdata (s_uart s) AND 0xFF), (counted s)\<lparr>s_uart := (s_uart s)\<lparr>u_rx_valid := False\<rparr>\<rparr>)"
  by (rule soc_read_routed [OF _ _ refl])
    (simp_all add: vlab_route_def soc_read_device_def soc_uart_read_def)

lemma register_read_ack [fw_run]:
  assumes "soc_wf s"
  shows "soc_read s 0x20003008 =
    (case soc_intc_read (s_intc s) (soc_perf_count_mem (s_perf s)) 8 of
       (rc, ic, p) \<Rightarrow> (rc, s\<lparr>s_intc := ic, s_perf := p\<rparr>))"
proof -
  obtain v ic p where r: "soc_intc_read (s_intc s) (soc_perf_count_mem (s_perf s)) 8 = (Inr v, ic, p)"
    by (cases "soc_intc_read (s_intc s) (soc_perf_count_mem (s_perf s)) 8")
      (auto simp: soc_intc_read_def Let_def split: if_split_asm)
  have "soc_read s 0x20003008 = (Inr v, s\<lparr>s_intc := ic, s_perf := p\<rparr>)"
    by (rule soc_read_routed [OF assms _ refl])
      (simp_all add: vlab_route_def soc_read_device_def r counted_def)
  with r show ?thesis by simp
qed

lemma register_write_values [fw_run]:
  assumes "soc_wf s"
  shows "soc_write s 0x20000010 v = (Inr (), (counted s)\<lparr>s_uart := (s_uart s)\<lparr>u_bauddiv := v\<rparr>\<rparr>)"
    and "soc_write s 0x2000000C v = (Inr (), (counted s)\<lparr>s_uart := (s_uart s)\<lparr>u_ctrl := v\<rparr>\<rparr>)"
    and "soc_write s 0x20001004 v = (Inr (), (counted s)\<lparr>s_timer := (s_timer s)\<lparr>t_load := v\<rparr>\<rparr>)"
    and "soc_write s 0x20001000 v =
      (Inr (), (counted s)\<lparr>s_timer := snd (soc_timer_write (s_timer s) 0 v)\<rparr>)"
    and "soc_write s 0x20001010 v =
      (Inr (), (counted s)\<lparr>s_timer := snd (soc_timer_write (s_timer s) 0x10 v)\<rparr>)"
    and "soc_write s 0x20003000 v = (Inr (), (counted s)\<lparr>s_intc := (s_intc s)\<lparr>ic_enable := v AND 7\<rparr>\<rparr>)"
    and "soc_write s 0x2000300C v =
      (Inr (), (counted s)\<lparr>s_intc := snd (soc_intc_write (s_intc s) 0xC v)\<rparr>)"
    and "soc_write s 0x20002014 v = (Inr (), (counted s)\<lparr>s_dma := (s_dma s)
      \<lparr>d_done := False, d_error := False, d_err_code := 0\<rparr>\<rparr>)"
    and "soc_write s 0x20002000 v = (Inr (), (counted s)\<lparr>s_dma := (s_dma s)\<lparr>d_src := v\<rparr>\<rparr>)"
    and "soc_write s 0x20002004 v = (Inr (), (counted s)\<lparr>s_dma := (s_dma s)\<lparr>d_dst := v\<rparr>\<rparr>)"
    and "soc_write s 0x20002008 v = (Inr (), (counted s)\<lparr>s_dma := (s_dma s)\<lparr>d_length := v\<rparr>\<rparr>)"
    and "soc_write s 0x20004014 v =
      (Inr (), s\<lparr>s_perf := snd (soc_perf_write (soc_perf_count_mem (s_perf s)) 0x14 v)\<rparr>)"
  by (rule soc_write_routed [OF assms _ refl];
      simp add: vlab_route_def soc_write_device_def soc_uart_write_def soc_timer_write_def soc_intc_write_def
        soc_perf_write_def soc_dma_write_def counted_def Let_def)+

lemma register_write_txdata [fw_run]:
  assumes "soc_wf s" and "bit (u_ctrl (s_uart s)) 0"
  shows "soc_write s 0x20000000 v =
    (Inr (), (counted s)\<lparr>s_uart := (s_uart s)\<lparr>u_txdata := v AND 0xFF,
       u_busy := (if u_latency_ticks (s_uart s) > 0 then i32_of_u32 (u_latency_ticks (s_uart s)) else 1)\<rparr>\<rparr>)"
  by (rule soc_write_routed [OF assms(1) _ refl])
    (use assms(2) in \<open>simp_all add: vlab_route_def soc_write_device_def soc_uart_write_def counted_def\<close>)

section \<open>Read-modify-write\<close>

text \<open>
  What the helpers of \<open>hal.c\<close> rely on: an address that reads back what was written to it, with
  no side effect on the value.
\<close>

locale rw_register =
  fixes addr :: u32
    and reg :: "soc_t \<Rightarrow> u32"
  assumes reads: "soc_wf s \<Longrightarrow> fst (soc_read s addr) = Inr (reg s) \<and> reg (snd (soc_read s addr)) = reg s"
    and writes: "soc_wf s \<Longrightarrow> reg (snd (soc_write s addr v)) = v"
begin

lemma rmw:
  assumes "host_ok h"
  shows "reg (h_soc (snd (run_state (do { cur \<leftarrow> hal_read_reg addr; hal_write_reg addr (f cur) }) h))) =
      f (reg (h_soc h))"
    and "host_ok (snd (run_state (do { cur \<leftarrow> hal_read_reg addr; hal_write_reg addr (f cur) }) h))"
  using assms reads [of "h_soc h"] writes soc_read_wf [of "h_soc h" addr] soc_write_wf
  by (simp_all add: host_ok_def fw_run)

lemma set_bits: "host_ok h \<Longrightarrow> reg (h_soc (snd (run_state (hal_set_bits addr m) h))) = reg (h_soc h) OR m"
  unfolding hal_set_bits_def by (rule rmw)

lemma clear_bits:
  "host_ok h \<Longrightarrow> reg (h_soc (snd (run_state (hal_clear_bits addr m) h))) = reg (h_soc h) AND NOT m"
  unfolding hal_clear_bits_def by (rule rmw)

lemma modify_reg:
  "host_ok h \<Longrightarrow> reg (h_soc (snd (run_state (hal_modify_reg addr m v) h))) =
     (reg (h_soc h) AND NOT m) OR (v AND m)"
  unfolding hal_modify_reg_def by (rule rmw)

lemma modify_ok: "host_ok h \<Longrightarrow> host_ok (snd (run_state (hal_modify_reg addr m v) h))"
  unfolding hal_modify_reg_def by (rule rmw)

text \<open>Bit by bit, and twice is once.\<close>

lemma modify_bits:
  assumes "host_ok h"
  shows "bit (reg (h_soc (snd (run_state (hal_modify_reg addr m v) h)))) n =
    (if bit m n then bit v n else bit (reg (h_soc h)) n)"
  unfolding modify_reg [OF assms] by (cases "n < 32") (auto simp: bit_simps dest: bit_imp_le_length)

end

interpretation baud_reg: rw_register VLAB_UART_BAUDDIV "\<lambda>s. u_bauddiv (s_uart s)"
  by unfold_locales (simp_all add: register_read_values register_write_values)

interpretation uart_ctrl_reg: rw_register VLAB_UART_CTRL "\<lambda>s. u_ctrl (s_uart s)"
  by unfold_locales (simp_all add: register_read_values register_write_values)

interpretation timer_load_reg: rw_register VLAB_TIMER_LOAD "\<lambda>s. t_load (s_timer s)"
  by unfold_locales (simp_all add: register_read_values register_write_values)

interpretation dma_src_reg: rw_register VLAB_DMA_SRC "\<lambda>s. d_src (s_dma s)"
  by unfold_locales (simp_all add: register_read_values register_write_values)

interpretation dma_dst_reg: rw_register VLAB_DMA_DST "\<lambda>s. d_dst (s_dma s)"
  by unfold_locales (simp_all add: register_read_values register_write_values)

interpretation dma_len_reg: rw_register VLAB_DMA_LEN "\<lambda>s. d_length (s_dma s)"
  by unfold_locales (simp_all add: register_read_values register_write_values)


text \<open>The host before any call: static storage, nothing initialised.\<close>

definition host_static :: host where
  "host_static = \<lparr>h_soc = soc_static, h_inited = False, h_irq_masked = 0\<rparr>"

definition host_default :: host where
  "host_default = snd (run_state (soc_host_init None) host_static)"

lemma host_default_ok: "host_ok host_default"
  by (simp add: host_ok_def host_default_def soc_host_init_def host_static_def soc_init_wf soc_static_storage)


end
