(* ===== verification/Drivers.thy ===== *)
theory Drivers
  imports Host
begin

text \<open>
  The UART, timer and interrupt-controller drivers of \<open>firmware/drivers\<close>, as actions over the
  host. The theorems state what a caller sees: the outcome of a byte write in each state of the
  transmitter, the round trip of a byte through the loopback, when a started timer reports that
  it fired, and that a started timer resumes a stale count.
\<close>

section \<open>UART\<close>

text \<open>\<open>VLAB_UART_OK\<close> is the right summand.\<close>

datatype uart_err = VLAB_UART_ERR_DISABLED | VLAB_UART_ERR_TIMEOUT

definition uart_init :: "u32 \<Rightarrow> ('h host_scheme, uart_err + unit) state" where
  "uart_init bauddiv = do {
     hal_write_reg VLAB_UART_BAUDDIV bauddiv;
     hal_write_reg VLAB_UART_CTRL VLAB_UART_CTRL_ENABLE;
     State_Monad.return (Inr ())
   }"

definition uart_status :: "('h host_scheme, u32) state" where
  "uart_status = hal_read_reg VLAB_UART_STATUS"

text \<open>
  The poll of \<open>uart_write_byte\<close> with \<open>n\<close> rounds left: \<open>True\<close> when the loop is left with the
  transmitter empty, \<open>False\<close> when the last round (\<open>i == 999\<close>) returns the timeout.
\<close>

fun uart_poll_tx :: "nat \<Rightarrow> ('h host_scheme, bool) state" where
  "uart_poll_tx 0 = State_Monad.return True"
| "uart_poll_tx (Suc n) = do {
     st \<leftarrow> hal_read_reg VLAB_UART_STATUS;
     if st AND VLAB_UART_STATUS_TX_EMPTY \<noteq> 0 then State_Monad.return True
     else if n = 0 then State_Monad.return False
     else uart_poll_tx n
   }"

definition uart_write_byte :: "u8 \<Rightarrow> ('h host_scheme, uart_err + unit) state" where
  "uart_write_byte b = do {
     ctrl \<leftarrow> hal_read_reg VLAB_UART_CTRL;
     if ctrl AND VLAB_UART_CTRL_ENABLE = 0 then State_Monad.return (Inl VLAB_UART_ERR_DISABLED)
     else do {
       ready \<leftarrow> uart_poll_tx 1000;
       if \<not> ready then State_Monad.return (Inl VLAB_UART_ERR_TIMEOUT)
       else do {
         hal_write_reg VLAB_UART_TXDATA (ucast b);
         State_Monad.return (Inr ())
       }
     }
   }"

text \<open>The byte stored through \<open>out\<close> is the value of the right summand.\<close>

definition uart_read_byte :: "('h host_scheme, uart_err + u8) state" where
  "uart_read_byte = do {
     st \<leftarrow> hal_read_reg VLAB_UART_STATUS;
     if st AND VLAB_UART_STATUS_RX_VALID = 0 then State_Monad.return (Inl VLAB_UART_ERR_TIMEOUT)
     else do {
       v \<leftarrow> hal_read_reg VLAB_UART_RXDATA;
       State_Monad.return (Inr (ucast (v AND 0xFF)))
     }
   }"

section \<open>Timer\<close>

definition TIMER_ENABLE :: u32 where [simp]: "TIMER_ENABLE = 1"
definition TIMER_PERIODIC :: u32 where [simp]: "TIMER_PERIODIC = 2"
definition TIMER_IRQ_EN :: u32 where [simp]: "TIMER_IRQ_EN = 4"

definition timer_start :: "u32 \<Rightarrow> bool \<Rightarrow> bool \<Rightarrow> ('h host_scheme, int) state" where
  "timer_start load periodic irq_enable =
     (if load = 0 then State_Monad.return (- 1)
      else do {
        hal_write_reg VLAB_TIMER_LOAD load;
        hal_write_reg VLAB_TIMER_CTRL
          (TIMER_ENABLE OR (if periodic then TIMER_PERIODIC else 0) OR
           (if irq_enable then TIMER_IRQ_EN else 0));
        State_Monad.return 0
      })"

definition timer_stop :: "('h host_scheme, unit) state" where
  "timer_stop = hal_write_reg VLAB_TIMER_CTRL 0"

definition timer_fired :: "('h host_scheme, bool) state" where
  "timer_fired = do {
     v \<leftarrow> hal_read_reg VLAB_TIMER_IRQ_STATUS;
     State_Monad.return (v AND 1 \<noteq> 0)
   }"

definition timer_clear :: "('h host_scheme, unit) state" where
  "timer_clear = hal_write_reg VLAB_TIMER_IRQ_CLEAR 1"

definition timer_value :: "('h host_scheme, u32) state" where
  "timer_value = hal_read_reg VLAB_TIMER_VALUE"

section \<open>Interrupt controller\<close>

definition intc_enable :: "u32 \<Rightarrow> ('h host_scheme, unit) state" where
  "intc_enable msk = hal_write_reg VLAB_INTC_ENABLE (msk AND 7)"

definition intc_ack :: "('h host_scheme, u32) state" where
  "intc_ack = hal_read_reg VLAB_INTC_ACK"

definition intc_clear :: "u32 \<Rightarrow> ('h host_scheme, unit) state" where
  "intc_clear irq = hal_write_reg VLAB_INTC_CLEAR irq"

section \<open>The transmit poll\<close>

lemma counted_pow_simps [simp]:
  "s_uart ((counted ^^ n) s) = s_uart s" "s_timer ((counted ^^ n) s) = s_timer s"
  "s_dma ((counted ^^ n) s) = s_dma s" "s_intc ((counted ^^ n) s) = s_intc s"
  "s_sram ((counted ^^ n) s) = s_sram s"
  by (induction n) simp_all

lemma counted_pow_wf [wf_intros]: "soc_wf s \<Longrightarrow> soc_wf ((counted ^^ n) s)"
  by (induction n) (simp_all add: counted_wf)

lemma uart_status_bits:
  "soc_uart_status u AND 2 = 0 \<longleftrightarrow> 0 < u_busy u" "soc_uart_status u AND 4 = 0 \<longleftrightarrow> \<not> u_rx_valid u"
  by (auto simp: soc_uart_status_def Let_def)

lemma hal_read_counted:
  assumes "host_ok h"
  shows "run_state (hal_read_reg 0x20000008) h =
      (soc_uart_status (s_uart (h_soc h)), h\<lparr>h_soc := counted (h_soc h)\<rparr>)"
    and "run_state (hal_read_reg 0x2000000C) h = (u_ctrl (s_uart (h_soc h)), h\<lparr>h_soc := counted (h_soc h)\<rparr>)"
  using assms by (simp_all add: host_ok_def fw_run)

lemma host_counted_ok [wf_intros]: "host_ok h \<Longrightarrow> host_ok (h\<lparr>h_soc := counted (h_soc h)\<rparr>)"
  by (simp add: host_ok_def counted_wf)

lemma uart_poll_ready:
  "host_ok h \<Longrightarrow> u_busy (s_uart (h_soc h)) \<le> 0 \<Longrightarrow> 0 < n \<Longrightarrow>
     run_state (uart_poll_tx n) h = (True, h\<lparr>h_soc := counted (h_soc h)\<rparr>)"
  by (cases n) (simp_all add: hal_read_counted uart_status_bits [simplified])

lemma uart_poll_busy:
  "host_ok h \<Longrightarrow> 0 < u_busy (s_uart (h_soc h)) \<Longrightarrow> 0 < n \<Longrightarrow>
     run_state (uart_poll_tx n) h = (False, h\<lparr>h_soc := (counted ^^ n) (h_soc h)\<rparr>)"
proof (induction n arbitrary: h)
  case (Suc n)
  show ?case
  proof (cases "n = 0")
    case True
    with Suc.prems show ?thesis
      by (simp add: hal_read_counted uart_status_bits [simplified])
  next
    case False
    with Suc.IH [of "h\<lparr>h_soc := counted (h_soc h)\<rparr>"] Suc.prems show ?thesis
      by (simp add: hal_read_counted uart_status_bits [simplified] host_counted_ok funpow_swap1)
  qed
qed simp

text \<open>The UART after a byte has been accepted.\<close>

definition uart_loaded :: "soc_uart_t \<Rightarrow> u8 \<Rightarrow> soc_uart_t" where
  "uart_loaded u b = u\<lparr>u_txdata := ucast b,
     u_busy := (if u_latency_ticks u > 0 then i32_of_u32 (u_latency_ticks u) else 1)\<rparr>"

lemma ucast_byte_mask: "(ucast (b :: u8) :: u32) AND 0xFF = ucast b"
  unfolding u32_255_mask by (rule bit_word_eqI) (auto simp: bit_simps dest: bit_imp_le_length)

lemma ucast_byte_back: "ucast (ucast (b :: u8) :: u32) = b"
  by (rule bit_word_eqI) (simp add: bit_simps)

lemma uart_write_byte_run:
  assumes "host_ok h"
  defines "s \<equiv> h_soc h"
  shows "run_state (uart_write_byte b) h =
    (if \<not> bit (u_ctrl (s_uart s)) 0
     then (Inl VLAB_UART_ERR_DISABLED, h\<lparr>h_soc := counted s\<rparr>)
     else if 0 < u_busy (s_uart s)
     then (Inl VLAB_UART_ERR_TIMEOUT, h\<lparr>h_soc := (counted ^^ 1001) s\<rparr>)
     else (Inr (), h\<lparr>h_soc := ((counted ^^ 3) s)\<lparr>s_uart := uart_loaded (s_uart s) b\<rparr>\<rparr>))"
proof -
  let ?h = "h\<lparr>h_soc := counted (h_soc h)\<rparr>"
  have ok: "host_ok ?h" and ini: "h_inited h" and wf: "soc_wf s"
    using host_counted_ok [OF assms(1)] assms(1) by (simp_all add: host_ok_def s_def)
  consider (off) "\<not> bit (u_ctrl (s_uart s)) 0"
    | (busy) "bit (u_ctrl (s_uart s)) 0" "0 < u_busy (s_uart s)"
    | (free) "bit (u_ctrl (s_uart s)) 0" "u_busy (s_uart s) \<le> 0"
    by linarith
  then show ?thesis
  proof cases
    case off
    then show ?thesis
      using assms(1) by (simp add: uart_write_byte_def hal_read_counted s_def)
  next
    case busy
    have "(counted ^^ 1000) (counted s) = (counted ^^ 1001) s"
      using funpow_Suc_right [of 1000 counted] by (simp del: funpow.simps)
    with busy uart_poll_busy [OF ok, of 1000] show ?thesis
      using assms(1) by (simp add: uart_write_byte_def hal_read_counted s_def)
  next
    case free
    have "soc_wf (counted (counted s))" "bit (u_ctrl (s_uart (counted (counted s)))) 0"
      using free wf by (simp_all add: counted_wf)
    from register_write_txdata [OF this, of "ucast b"]
    have "run_state (hal_write_reg VLAB_UART_TXDATA (ucast b)) (h\<lparr>h_soc := counted (counted s)\<rparr>) =
        ((), h\<lparr>h_soc := (counted (counted (counted s)))\<lparr>s_uart := uart_loaded (s_uart s) b\<rparr>\<rparr>)"
      using ini by (simp add: hal_write_run uart_loaded_def ucast_byte_mask)
    moreover have "(counted ^^ 3) s = counted (counted (counted s))"
      by (simp add: numeral_3_eq_3)
    ultimately show ?thesis
      using free uart_poll_ready [OF ok, of 1000] assms(1)
      by (simp add: uart_write_byte_def hal_read_counted s_def)
  qed
qed

section \<open>Time at the host\<close>

lemma soc_ticks_uart:
  assumes "\<not> dma_running (s_dma s)"
  shows "s_uart ((soc_tick malloc ^^ k) s) = fst ((uart_tick ^^ k) (s_uart s, ic))"
proof (induction k)
  case (Suc k)
  let ?t = "(soc_tick malloc ^^ k) s"
  have "\<not> dma_running (s_dma ?t)"
    using assms soc_ticks_no_dma [OF assms, of k malloc] by simp
  from soc_tick_no_dma(3) [OF this, of malloc] Suc show ?case
    using uart_step_independent [of "s_uart ?t" "s_intc ?t"] by (simp add: uart_tick_def)
qed simp

lemma soc_tick_timer:
  "s_timer (soc_tick malloc s) = fst (soc_timer_step (s_timer s) intc_static)"
proof (rule soc_tick_cases [of s malloc])
  fix u ic1 t ic2 d ic3 p u' sram
  assume h: "soc_timer_step (s_timer s) ic1 = (t, ic2)"
    "soc_tick malloc s = s\<lparr>s_ticks := s_ticks s + 1, s_perf := p, s_uart := u', s_timer := t,
       s_dma := d, s_intc := ic3, s_sram := sram\<rparr>"
  show ?thesis
    using timer_step_independent [of "s_timer s" ic1 intc_static] by (simp add: h)
qed

lemma soc_ticks_timer:
  "s_timer ((soc_tick malloc ^^ k) s) = fst ((timer_tick ^^ k) (s_timer s, ic))"
proof (induction k)
  case (Suc k)
  show ?case
    using Suc soc_tick_timer [of malloc "(soc_tick malloc ^^ k) s"]
      timer_step_independent [of "s_timer ((soc_tick malloc ^^ k) s)" intc_static]
    by (simp add: timer_tick_def)
qed simp

lemma uart_idle_dma_wf:
  assumes "soc_wf s" and "malloc_sound malloc"
  shows "host_ok h \<Longrightarrow> host_ok (h\<lparr>h_soc := soc_step malloc s n\<rparr>)"
  using assms by (simp add: host_ok_def soc_step_wf)

section \<open>Properties\<close>

text \<open>
  C33. The outcome of \<open>uart_write_byte\<close>, for every state of the UART. While disabled it reports
  \<open>ERR_DISABLED\<close> after one register access; while a byte is being sent it polls the status
  exactly 1000 times (1001 accesses in all) and reports \<open>ERR_TIMEOUT\<close>, because no time passes
  while it polls; otherwise it hands over the byte in three accesses. In the two error cases
  the UART is not touched.
\<close>

theorem uart_write_byte_outcome:
  assumes "host_ok h" and "run_state (uart_write_byte b) h = (rc, h')"
  shows "(rc = Inl VLAB_UART_ERR_DISABLED \<longleftrightarrow> \<not> bit (u_ctrl (s_uart (h_soc h))) 0) \<and>
    (rc = Inl VLAB_UART_ERR_TIMEOUT \<longleftrightarrow> bit (u_ctrl (s_uart (h_soc h))) 0 \<and> 0 < u_busy (s_uart (h_soc h))) \<and>
    (rc = Inl VLAB_UART_ERR_DISABLED \<longrightarrow> h' = h\<lparr>h_soc := counted (h_soc h)\<rparr>) \<and>
    (rc = Inl VLAB_UART_ERR_TIMEOUT \<longrightarrow> h' = h\<lparr>h_soc := (counted ^^ 1001) (h_soc h)\<rparr>) \<and>
    (rc = Inr () \<longrightarrow> h' = h\<lparr>h_soc := ((counted ^^ 3) (h_soc h))\<lparr>s_uart := uart_loaded (s_uart (h_soc h)) b\<rparr>\<rparr>)"
  using assms(2) unfolding uart_write_byte_run [OF assms(1)]
  by (auto split: if_split_asm)

theorem uart_write_byte_outcome_witness:
  "fst (run_state (uart_write_byte 65) host_default) = Inl VLAB_UART_ERR_DISABLED"
proof -
  obtain rc h' where r: "run_state (uart_write_byte 65) host_default = (rc, h')"
    by (cases "run_state (uart_write_byte 65) host_default")
  from uart_write_byte_outcome [OF host_default_ok r] r show ?thesis
    by (simp add: host_default_def soc_host_init_def soc_init_def Let_def soc_uart_init_def)
qed

text \<open>The number of ticks a byte takes, as the step argument.\<close>

definition byte_ticks :: "soc_uart_t \<Rightarrow> u32" where
  "byte_ticks u = (if u_latency_ticks u > 0 then u_latency_ticks u else 1)"

lemma uart_loaded_completes:
  assumes "uart_wf u" and "\<not> u_fault_stuck_busy u" and "unat (byte_ticks u) < 2 ^ 31"
  shows "fst ((uart_tick ^^ unat (byte_ticks u)) (uart_loaded u b, ic)) = uart_looped (uart_loaded u b)"
    and "u_busy (uart_loaded u b) = int (unat (byte_ticks u))"
proof -
  have "i32_of_u32 (byte_ticks u) = int (unat (byte_ticks u))"
    using assms(3) by (simp add: i32_of_u32_def sint_u32_small)
  then show busy: "u_busy (uart_loaded u b) = int (unat (byte_ticks u))"
    by (auto simp: uart_loaded_def byte_ticks_def)
  have pos: "0 < unat (byte_ticks u)"
    by (simp add: byte_ticks_def unat_gt_0 word_gt_0)
  have "uart_armed (uart_loaded u b)"
    unfolding uart_armed_def busy using assms(2) pos by (simp only: of_nat_0_less_iff) (simp add: uart_loaded_def)
  moreover have "uart_wf (uart_loaded u b)"
    using assms(1) by (simp add: uart_wf_def uart_loaded_def)
  ultimately show "fst ((uart_tick ^^ unat (byte_ticks u)) (uart_loaded u b, ic)) = uart_looped (uart_loaded u b)"
    using uart_completes [of "uart_loaded u b" "unat (byte_ticks u)" ic] busy by (simp add: uart_wf_def)
qed

lemma uart_looped_rx [simp]:
  "u_rxdata (uart_looped u) = u_txdata u" "u_rx_valid (uart_looped u)"
  by (simp_all add: uart_looped_def)

lemma uart_read_byte_run:
  assumes "host_ok h"
  shows "run_state uart_read_byte h =
    (if u_rx_valid (s_uart (h_soc h))
     then (Inr (ucast (u_rxdata (s_uart (h_soc h)) AND 0xFF)),
           h\<lparr>h_soc := (counted (counted (h_soc h)))\<lparr>s_uart := (s_uart (h_soc h))\<lparr>u_rx_valid := False\<rparr>\<rparr>\<rparr>)
     else (Inl VLAB_UART_ERR_TIMEOUT, h\<lparr>h_soc := counted (h_soc h)\<rparr>))"
  using assms counted_wf [of "h_soc h"]
  by (simp add: uart_read_byte_def hal_read_counted uart_status_bits [simplified] host_ok_def fw_run and.assoc)

lemma uart_read_ok [wf_intros]:
  assumes "host_ok h"
  shows "host_ok (snd (run_state uart_read_byte h))"
proof -
  have "uart_wf (s_uart (h_soc h)) \<Longrightarrow> uart_wf ((s_uart (h_soc h))\<lparr>u_rx_valid := False\<rparr>)"
    by (simp add: uart_wf_def)
  then show ?thesis
    using assms counted_wf [of "h_soc h"] counted_wf [OF counted_wf [of "h_soc h"]]
    by (simp add: uart_read_byte_run [OF assms] host_ok_def soc_wf_def)
qed

text \<open>
  C10. A byte survives the round trip through driver, bus and device. On an enabled, idle UART
  without an injected fault, writing a byte succeeds; after exactly the latency of the UART in
  ticks, with no transfer running, reading returns that byte; a second read reports that
  there is nothing to read.
\<close>

theorem uart_driver_roundtrip:
  assumes "host_ok h" and "malloc_sound malloc"
    and "bit (u_ctrl (s_uart (h_soc h))) 0" and "u_busy (s_uart (h_soc h)) \<le> 0"
    and "\<not> u_fault_stuck_busy (s_uart (h_soc h))" and "\<not> dma_running (s_dma (h_soc h))"
    and "unat (byte_ticks (s_uart (h_soc h))) < 2 ^ 31"
  shows "fst (run_state (do {
      w \<leftarrow> uart_write_byte b;
      soc_host_step malloc (byte_ticks (s_uart (h_soc h)));
      r1 \<leftarrow> uart_read_byte;
      r2 \<leftarrow> uart_read_byte;
      State_Monad.return (w, r1, r2)
    }) h) = (Inr (), Inr b, Inl VLAB_UART_ERR_TIMEOUT)"
proof -
  let ?s = "h_soc h" and ?u = "s_uart (h_soc h)"
  let ?s1 = "((counted ^^ 3) ?s)\<lparr>s_uart := uart_loaded ?u b\<rparr>"
  let ?h1 = "h\<lparr>h_soc := ?s1\<rparr>"
  have w: "run_state (uart_write_byte b) h = (Inr (), ?h1)"
    using assms(3,4) by (simp add: uart_write_byte_run [OF assms(1)])
  have wf: "soc_wf ?s1"
  proof -
    have "uart_wf (uart_loaded ?u b)"
      using assms(1) by (simp add: host_ok_def soc_wf_def uart_wf_def uart_loaded_def)
    with counted_pow_wf [of ?s 3] assms(1) show ?thesis
      by (simp add: host_ok_def soc_wf_def)
  qed
  let ?s2 = "soc_step malloc ?s1 (byte_ticks ?u)"
  have ok2: "host_ok (h\<lparr>h_soc := ?s2\<rparr>)"
    using assms(1) soc_step_wf [OF wf assms(2)] by (simp add: host_ok_def)
  have "s_uart ?s2 = uart_looped (uart_loaded ?u b)"
    using soc_ticks_uart [of ?s1 "unat (byte_ticks ?u)" malloc intc_static] assms(1,5-7)
      uart_loaded_completes(1) [of ?u b intc_static]
    by (simp add: soc_step_def host_ok_def soc_wf_def)
  then have u2: "u_rx_valid (s_uart ?s2)" "u_rxdata (s_uart ?s2) = ucast b"
    by (simp_all add: uart_loaded_def)
  have r1: "run_state uart_read_byte (h\<lparr>h_soc := ?s2\<rparr>) =
      (Inr b, h\<lparr>h_soc := (counted (counted ?s2))\<lparr>s_uart := (s_uart ?s2)\<lparr>u_rx_valid := False\<rparr>\<rparr>\<rparr>)"
    using u2 by (simp add: uart_read_byte_run [OF ok2] ucast_byte_mask ucast_byte_back)
  have "host_ok (snd (run_state uart_read_byte (h\<lparr>h_soc := ?s2\<rparr>)))"
    using ok2 by (rule uart_read_ok)
  then have ok3: "host_ok (h\<lparr>h_soc := (counted (counted ?s2))\<lparr>s_uart := (s_uart ?s2)\<lparr>u_rx_valid := False\<rparr>\<rparr>\<rparr>)"
    by (simp add: r1)
  have "fst (run_state uart_read_byte
      (h\<lparr>h_soc := (counted (counted ?s2))\<lparr>s_uart := (s_uart ?s2)\<lparr>u_rx_valid := False\<rparr>\<rparr>\<rparr>)) =
      Inl VLAB_UART_ERR_TIMEOUT"
    by (simp add: uart_read_byte_run [OF ok3])
  then show ?thesis
    using assms(1) by (simp add: w r1 host_step_run host_ok_def split_def)
qed

theorem uart_driver_roundtrip_witness:
  "fst (run_state (do {
      i \<leftarrow> uart_init 0;
      w \<leftarrow> uart_write_byte 65;
      soc_host_step (\<lambda>n. None) 5;
      r1 \<leftarrow> uart_read_byte;
      r2 \<leftarrow> uart_read_byte;
      State_Monad.return (w, r1, r2)
    }) host_default) = (Inr (), Inr 65, Inl VLAB_UART_ERR_TIMEOUT)"
proof -
  let ?h = "snd (run_state (uart_init 0) host_default)"
  have ok: "host_ok ?h"
    using host_write_ok [OF host_write_ok [OF host_default_ok, of "0x20000010" 0], of "0x2000000C" 1] host_default_ok
    by (simp add: uart_init_def fw_run host_ok_def soc_write_wf)
  have u: "s_uart (h_soc ?h) = (s_uart (soc_init soc_static (Some soc_config_default)))\<lparr>u_bauddiv := 0, u_ctrl := 1\<rparr>"
      "s_dma (h_soc ?h) = s_dma (soc_init soc_static (Some soc_config_default))"
    using host_default_ok soc_write_wf [of "h_soc host_default" "0x20000010" 0]
    by (simp_all add: uart_init_def fw_run host_ok_def)
      (simp_all add: host_default_def soc_host_init_def host_static_def)
  have b: "byte_ticks (s_uart (h_soc ?h)) = 5"
    by (simp add: u byte_ticks_def soc_init_def Let_def soc_uart_init_def soc_config_default_def)
  have "unat (byte_ticks (s_uart (h_soc ?h))) < 2 ^ 31"
    unfolding b by simp
  moreover have "bit (u_ctrl (s_uart (h_soc ?h))) 0" "u_busy (s_uart (h_soc ?h)) \<le> 0"
      "\<not> u_fault_stuck_busy (s_uart (h_soc ?h))" "\<not> dma_running (s_dma (h_soc ?h))" "malloc_sound (\<lambda>n. None)"
    by (simp_all add: u soc_init_def Let_def soc_uart_init_def soc_dma_init_def dma_running_def malloc_sound_def)
  ultimately have "bit (u_ctrl (s_uart (h_soc ?h))) 0" "u_busy (s_uart (h_soc ?h)) \<le> 0"
      "\<not> u_fault_stuck_busy (s_uart (h_soc ?h))" "\<not> dma_running (s_dma (h_soc ?h))"
      "unat (byte_ticks (s_uart (h_soc ?h))) < 2 ^ 31" "malloc_sound (\<lambda>n. None)"
    by blast+
  from uart_driver_roundtrip [OF ok this(6) this(1-5), of 65] show ?thesis
    unfolding b by (simp add: split_def)
qed

section \<open>The timer driver\<close>

lemma timer_start_run:
  fixes h :: "'h host_scheme" and load :: u32 and periodic irq :: bool
  assumes "host_ok h" and "load \<noteq> 0"
  defines "ctrl \<equiv> (1 OR (if periodic then 2 else 0) OR (if irq then 4 else 0) :: u32)"
  shows "run_state (timer_start load periodic irq) h =
    (0, h\<lparr>h_soc := (counted (counted (h_soc h)))
       \<lparr>s_timer := snd (soc_timer_write ((s_timer (h_soc h))\<lparr>t_load := load\<rparr>) 0 ctrl)\<rparr>\<rparr>)"
proof -
  have "soc_wf ((counted (h_soc h))\<lparr>s_timer := (s_timer (h_soc h))\<lparr>t_load := load\<rparr>\<rparr>)"
    using assms(1) counted_wf [of "h_soc h"] by (simp add: host_ok_def soc_wf_def timer_wf_def)
  then show ?thesis
    using assms(1,2) by (simp add: timer_start_def fw_run host_ok_def ctrl_def counted_def)
qed

lemma timer_fired_run:
  "host_ok h \<Longrightarrow> fst (run_state timer_fired h) = bit (t_irq_status (s_timer (h_soc h))) 0"
  by (simp add: timer_fired_def fw_run host_ok_def)

lemma timer_fired_after:
  assumes "host_ok h" and "malloc_sound malloc" and "timer_armed (s_timer (h_soc h))"
    and "\<not> bit (t_ctrl (s_timer (h_soc h))) 1" and "0 < unat (t_value (s_timer (h_soc h)))"
    and "t_irq_status (s_timer (h_soc h)) = 0"
  shows "fst (run_state (do { soc_host_step malloc k; timer_fired }) h) =
    (unat (t_value (s_timer (h_soc h))) \<le> unat k)"
proof -
  let ?t = "s_timer (h_soc h)" and ?s2 = "soc_step malloc (h_soc h) k"
  have "host_ok (h\<lparr>h_soc := ?s2\<rparr>)"
    using assms(1,2) by (simp add: host_ok_def soc_step_wf)
  moreover have "s_timer ?s2 = (if unat k < unat (t_value ?t)
      then ?t\<lparr>t_value := t_value ?t - of_nat (unat k)\<rparr> else timer_fired_once ?t)"
    using soc_ticks_timer [of "unat k" malloc "h_soc h" intc_static] timer_oneshot_run [OF assms(3-5)]
    by (simp add: soc_step_def)
  ultimately show ?thesis
    using assms(1,6) timer_fired_run [of "h\<lparr>h_soc := ?s2\<rparr>"]
    by (simp add: fw_run host_ok_def timer_fired_once_def)
qed

text \<open>
  C34. When a started timer reports. On a timer that is disabled, unfired and at zero, starting a
  one-shot with a non-zero load \<open>n\<close> succeeds; after it, stepping \<open>k\<close> ticks, \<open>timer_fired\<close> holds iff \<open>k \<ge> n\<close>. A
  zero load is refused with -1 and changes nothing.
\<close>

theorem timer_driver_oneshot:
  assumes "host_ok h" and "malloc_sound malloc"
    and "\<not> bit (t_ctrl (s_timer (h_soc h))) 0" and "t_value (s_timer (h_soc h)) = 0"
    and "t_irq_status (s_timer (h_soc h)) = 0"
  shows "run_state (timer_start 0 p i) h = (- 1, h) \<and>
    (n \<noteq> 0 \<longrightarrow> fst (run_state (do {
      r \<leftarrow> timer_start n False irq;
      soc_host_step malloc k;
      f \<leftarrow> timer_fired;
      State_Monad.return (r, f)
    }) h) = (0, unat n \<le> unat k))"
proof (intro conjI impI)
  show "run_state (timer_start 0 p i) h = (- 1, h)"
    by (simp add: timer_start_def)
  assume n: "n \<noteq> 0"
  let ?c = "1 OR (if irq then 4 else 0) :: u32"
  let ?t = "(s_timer (h_soc h))\<lparr>t_load := n, t_ctrl := ?c, t_value := n\<rparr>"
  let ?s1 = "(counted (counted (h_soc h)))\<lparr>s_timer := ?t\<rparr>"
  have bits: "bit ?c 0" "\<not> bit ?c 1"
    by (simp_all add: bit_simps bit_numeral_word_iff)
  have start: "run_state (timer_start n False irq) h = (0, h\<lparr>h_soc := ?s1\<rparr>)"
    using timer_start_run [OF assms(1) n, of False irq] assms(3,4) bits
    by (simp add: soc_timer_write_def Let_def)
  have wf1: "soc_wf ?s1"
    using assms(1) counted_wf [OF counted_wf [of "h_soc h"]]
    by (simp add: host_ok_def soc_wf_def timer_wf_def)
  have "timer_armed ?t" "t_irq_status ?t = 0" "\<not> bit (t_ctrl ?t) 1"
    using n bits assms(5) by (simp_all add: timer_armed_def)
  from timer_fired_after [of "h\<lparr>h_soc := ?s1\<rparr>" malloc, OF _ assms(2), of k] this wf1 assms(1) n
  show "fst (run_state (do {
      r \<leftarrow> timer_start n False irq;
      soc_host_step malloc k;
      f \<leftarrow> timer_fired;
      State_Monad.return (r, f)
    }) h) = (0, unat n \<le> unat k)"
    by (simp add: start host_ok_def split_def unat_gt_0)
qed

theorem timer_driver_oneshot_witness:
  "fst (run_state (do {
     r \<leftarrow> timer_start 5 False True;
     soc_host_step (\<lambda>n. None) 4;
     f \<leftarrow> timer_fired;
     State_Monad.return (r, f)
   }) host_default) = (0, False) \<and>
   fst (run_state (do {
     r \<leftarrow> timer_start 5 False True;
     soc_host_step (\<lambda>n. None) 5;
     f \<leftarrow> timer_fired;
     State_Monad.return (r, f)
   }) host_default) = (0, True)"
proof -
  have "malloc_sound (\<lambda>n. None)" "\<not> bit (t_ctrl (s_timer (h_soc host_default))) 0"
      "t_value (s_timer (h_soc host_default)) = 0" "t_irq_status (s_timer (h_soc host_default)) = 0"
    by (simp_all add: malloc_sound_def host_default_def soc_host_init_def soc_init_def Let_def soc_timer_init_def)
  note th = timer_driver_oneshot [OF host_default_ok this]
  from th [of False False 5 True 4] th [of False False 5 True 5] show ?thesis
    by simp
qed

text \<open>
  C35. A restarted timer keeps its old count. The device reloads VALUE only when it is zero, so
  stopping a timer with \<open>v > 0\<close> ticks left and starting it as a one-shot with load \<open>n\<close> reports
  success and fires after the stale \<open>v\<close> ticks, whatever \<open>n\<close> was asked for.
\<close>

theorem timer_restart_stale:
  assumes "host_ok h" and "malloc_sound malloc" and "t_value (s_timer (h_soc h)) \<noteq> 0"
    and "t_irq_status (s_timer (h_soc h)) = 0" and "n \<noteq> 0"
  shows "fst (run_state (do {
      timer_stop;
      r \<leftarrow> timer_start n False irq;
      soc_host_step malloc k;
      f \<leftarrow> timer_fired;
      State_Monad.return (r, f)
    }) h) = (0, unat (t_value (s_timer (h_soc h))) \<le> unat k)"
proof -
  let ?c = "1 OR (if irq then 4 else 0) :: u32"
  let ?h1 = "h\<lparr>h_soc := (counted (h_soc h))\<lparr>s_timer := (s_timer (h_soc h))\<lparr>t_ctrl := 0\<rparr>\<rparr>\<rparr>"
  let ?t = "(s_timer (h_soc h))\<lparr>t_ctrl := ?c, t_load := n\<rparr>"
  have bits: "bit ?c 0" "\<not> bit ?c 1"
    by (simp_all add: bit_simps bit_numeral_word_iff)
  have ok1: "host_ok ?h1"
    using assms(1) counted_wf [of "h_soc h"] by (simp add: host_ok_def soc_wf_def timer_wf_def)
  have stop: "run_state timer_stop h = ((), ?h1)"
    using assms(1) by (simp add: timer_stop_def fw_run host_ok_def soc_timer_write_def Let_def)
  let ?h2 = "?h1\<lparr>h_soc := (counted (counted (h_soc ?h1)))\<lparr>s_timer := ?t\<rparr>\<rparr>"
  have start: "run_state (timer_start n False irq) ?h1 = (0, ?h2)"
    using timer_start_run [OF ok1 assms(5), of False irq] assms(3) bits
    by (cases "s_timer (h_soc h)") (simp add: soc_timer_write_def Let_def)
  have ok2: "host_ok ?h2"
    using ok1 counted_wf [OF counted_wf [of "h_soc ?h1"]] by (simp add: host_ok_def soc_wf_def timer_wf_def)
  have "timer_armed (s_timer (h_soc ?h2))" "\<not> bit (t_ctrl (s_timer (h_soc ?h2))) 1"
      "0 < unat (t_value (s_timer (h_soc ?h2)))" "t_irq_status (s_timer (h_soc ?h2)) = 0"
    using assms(3-5) bits by (simp_all add: timer_armed_def unat_gt_0)
  from timer_fired_after [OF ok2 assms(2) this, of k] show ?thesis
    by (simp add: stop start split_def)
qed

theorem timer_restart_stale_witness:
  "fst (run_state (do {
     timer_stop;
     r \<leftarrow> timer_start 10 False True;
     soc_host_step (\<lambda>n. None) 3;
     f \<leftarrow> timer_fired;
     State_Monad.return (r, f)
   }) (host_default\<lparr>h_soc := (h_soc host_default)\<lparr>s_timer := (s_timer (h_soc host_default))\<lparr>t_value := 3\<rparr>\<rparr>\<rparr>)) = (0, True)"
proof -
  let ?h = "host_default\<lparr>h_soc := (h_soc host_default)\<lparr>s_timer := (s_timer (h_soc host_default))\<lparr>t_value := 3\<rparr>\<rparr>\<rparr>"
  have "host_ok ?h"
    using host_default_ok by (simp add: host_ok_def soc_wf_def timer_wf_def)
  moreover have "malloc_sound (\<lambda>n. None)" "t_value (s_timer (h_soc ?h)) \<noteq> 0"
      "t_irq_status (s_timer (h_soc ?h)) = 0" "(10 :: u32) \<noteq> 0"
    by (simp_all add: malloc_sound_def host_default_def soc_host_init_def soc_init_def Let_def soc_timer_init_def)
  ultimately show ?thesis
    using timer_restart_stale [of ?h "\<lambda>n. None" 10 True 3] by simp
qed

end
