(* ===== verification/Dma_Driver.thy ===== *)
theory Dma_Driver
  imports Drivers
begin

text \<open>
  The DMA driver of \<open>firmware/drivers/dma.c\<close>. Its static variables extend the host record; the
  pair of a table pointer and its count is an optional list. The theorems: the driver's
  validation is the engine's, for every map, capability set and FIFO table, and what \<open>dma_start\<close>
  does in each case. \<open>Lifecycle\<close> continues with the interrupt-driven half of the file.
\<close>

section \<open>State\<close>

datatype dma_state_t =
  DMA_S_IDLE | DMA_S_STARTING | DMA_S_ACTIVE | DMA_S_COMPLETE | DMA_S_ERROR | DMA_S_RECOVERY

text \<open>\<open>VLAB_DMA_OK\<close> is the right summand.\<close>

datatype dma_err =
  VLAB_DMA_ERR_ADDR | VLAB_DMA_ERR_ALIGN | VLAB_DMA_ERR_LEN | VLAB_DMA_ERR_BUSY | VLAB_DMA_ERR_UNSUPPORTED

record firmware = host +
  f_map :: "memory_region list option"
  f_caps :: "dma_caps option"
  f_periphs :: "dma_periph_ep list option"
  f_state :: dma_state_t
  f_done_flag :: u32
  f_err_latch :: u32
  f_irq_count :: u32

datatype ep_kind_t = EP_INVALID | EP_MEM | EP_PERIPH | EP_INCAPABLE

section \<open>Validation\<close>

text \<open>The second component is what is stored through \<open>ep_out\<close>.\<close>

definition classify :: "'h firmware_scheme \<Rightarrow> u32 \<Rightarrow> u32 \<Rightarrow> ep_kind_t \<times> dma_periph_ep option" where
  "classify f addr len =
     (if dma_periph_find (f_periphs f) addr \<noteq> None then (EP_PERIPH, dma_periph_find (f_periphs f) addr)
      else case find_region (f_map f) addr len of
          None \<Rightarrow> (EP_INVALID, None)
        | Some r \<Rightarrow>
            if r_type r = MEM_TYPE_SRAM \<or> r_type r = MEM_TYPE_DRAM then (EP_MEM, None)
            else (EP_INCAPABLE, None))"

text \<open>
  The part of \<open>validate\<close> after the BUSY check, which reads the configuration only. The role check
  follows the endpoint pointer, which \<open>classify\<close> sets whenever it answers \<open>EP_PERIPH\<close>.
\<close>

definition validate_request :: "'h firmware_scheme \<Rightarrow> u32 \<Rightarrow> u32 \<Rightarrow> u32 \<Rightarrow> dma_err + unit" where
  "validate_request f src dst len =
     (let align = (case f_caps f of None \<Rightarrow> 1 | Some c \<Rightarrow> if cap_alignment c > 1 then cap_alignment c else 1);
          direction = (\<lambda>src_type dst_type.
            if f_caps f \<noteq> None \<and> \<not> dma_direction_supported (f_caps f) src_type dst_type
            then Inl VLAB_DMA_ERR_UNSUPPORTED else Inr ())
      in if len = 0 \<or> (align > 1 \<and> len mod align \<noteq> 0) then Inl VLAB_DMA_ERR_LEN
      else if align > 1 \<and> (src mod align \<noteq> 0 \<or> dst mod align \<noteq> 0) then Inl VLAB_DMA_ERR_ALIGN
      else if (case f_caps f of None \<Rightarrow> False
                | Some c \<Rightarrow> cap_max_transfer c \<noteq> 0 \<and> len > cap_max_transfer c)
        then Inl VLAB_DMA_ERR_UNSUPPORTED
      else if f_periphs f \<noteq> None then
        (let (s_kind, s_ep) = classify f src len;
             (d_kind, d_ep) = classify f dst len
         in if s_kind = EP_INVALID \<or> d_kind = EP_INVALID then Inl VLAB_DMA_ERR_ADDR
            else if s_kind = EP_INCAPABLE \<or> d_kind = EP_INCAPABLE then Inl VLAB_DMA_ERR_UNSUPPORTED
            else if s_kind = EP_PERIPH \<and> ep_roles (the s_ep) AND DMA_EP_SRC = 0
              then Inl VLAB_DMA_ERR_UNSUPPORTED
            else if d_kind = EP_PERIPH \<and> ep_roles (the d_ep) AND DMA_EP_DST = 0
              then Inl VLAB_DMA_ERR_UNSUPPORTED
            else direction (if s_kind = EP_MEM then DMA_ADDR_MEM else DMA_ADDR_PERIPHERAL)
                   (if d_kind = EP_MEM then DMA_ADDR_MEM else DMA_ADDR_PERIPHERAL))
      else
        (let src_type = dma_endpoint_type (f_map f) src len;
             dst_type = dma_endpoint_type (f_map f) dst len
         in if src_type < 0 \<or> dst_type < 0 then Inl VLAB_DMA_ERR_ADDR
            else direction src_type dst_type))"

definition validate :: "u32 \<Rightarrow> u32 \<Rightarrow> u32 \<Rightarrow> ('h firmware_scheme, dma_err + unit) state" where
  "validate src dst len = do {
     st \<leftarrow> hal_read_reg VLAB_DMA_STATUS;
     if st AND VLAB_DMA_STATUS_BUSY \<noteq> 0 then State_Monad.return (Inl VLAB_DMA_ERR_BUSY)
     else do {
       f \<leftarrow> State_Monad.get;
       State_Monad.return (validate_request f src dst len)
     }
   }"

section \<open>Configuration and direct use\<close>

definition dma_init :: "('h firmware_scheme, unit) state" where
  "dma_init = State_Monad.update (\<lambda>f. f\<lparr>f_map := Some vlab_memory_map, f_caps := Some vlab_dma_caps,
     f_periphs := Some vlab_dma_periph_eps\<rparr>)"

definition dma_configure ::
    "memory_region list option \<Rightarrow> dma_caps option \<Rightarrow> ('h firmware_scheme, unit) state" where
  "dma_configure regions caps = do {
     (case regions of
        None \<Rightarrow> State_Monad.return ()
      | Some rs \<Rightarrow> if length rs > 0 then State_Monad.update (\<lambda>f. f\<lparr>f_map := Some rs\<rparr>)
                   else State_Monad.return ());
     (case caps of
        None \<Rightarrow> State_Monad.return ()
      | Some c \<Rightarrow> State_Monad.update (\<lambda>f. f\<lparr>f_caps := Some c\<rparr>))
   }"

definition dma_configure_periph :: "dma_periph_ep list option \<Rightarrow> ('h firmware_scheme, unit) state" where
  "dma_configure_periph eps = State_Monad.update (\<lambda>f. f\<lparr>f_periphs := eps\<rparr>)"

definition dma_start :: "u32 \<Rightarrow> u32 \<Rightarrow> u32 \<Rightarrow> bool \<Rightarrow> ('h firmware_scheme, dma_err + unit) state" where
  "dma_start src dst len irq_enable = do {
     rc \<leftarrow> validate src dst len;
     if rc \<noteq> Inr () then State_Monad.return rc
     else do {
       hal_write_reg VLAB_DMA_SRC src;
       hal_write_reg VLAB_DMA_DST dst;
       hal_write_reg VLAB_DMA_LEN len;
       hal_write_reg VLAB_DMA_CTRL (VLAB_DMA_CTRL_START OR (if irq_enable then VLAB_DMA_CTRL_IRQ_ENABLE else 0));
       State_Monad.return (Inr ())
     }
   }"

definition dma_status :: "('h host_scheme, u32) state" where
  "dma_status = hal_read_reg VLAB_DMA_STATUS"

definition dma_clear :: "('h host_scheme, unit) state" where
  "dma_clear = hal_write_reg VLAB_DMA_IRQ_CLEAR 1"

definition dma_err_code :: "('h host_scheme, u32) state" where
  "dma_err_code = hal_read_reg VLAB_DMA_ERR_CODE"

section \<open>The interrupt-driven lifecycle\<close>

definition dma_submit :: "u32 \<Rightarrow> u32 \<Rightarrow> u32 \<Rightarrow> bool \<Rightarrow> ('h firmware_scheme, dma_err + unit) state" where
  "dma_submit src dst len irq_enable = do {
     key \<leftarrow> hal_irq_disable;
     f \<leftarrow> State_Monad.get;
     if f_state f \<noteq> DMA_S_IDLE then do {
       hal_irq_restore key;
       State_Monad.return (Inl VLAB_DMA_ERR_BUSY)
     }
     else do {
       State_Monad.update (\<lambda>f. f\<lparr>f_state := DMA_S_STARTING\<rparr>);
       rc \<leftarrow> validate src dst len;
       if rc \<noteq> Inr () then do {
         State_Monad.update (\<lambda>f. f\<lparr>f_state := DMA_S_IDLE\<rparr>);
         hal_irq_restore key;
         State_Monad.return rc
       }
       else do {
         State_Monad.update (\<lambda>f. f\<lparr>f_done_flag := 0\<rparr>);
         State_Monad.update (\<lambda>f. f\<lparr>f_err_latch := 0\<rparr>);
         hal_write_reg VLAB_DMA_SRC src;
         hal_write_reg VLAB_DMA_DST dst;
         hal_write_reg VLAB_DMA_LEN len;
         hal_write_reg VLAB_DMA_CTRL (VLAB_DMA_CTRL_START OR (if irq_enable then VLAB_DMA_CTRL_IRQ_ENABLE else 0));
         State_Monad.update (\<lambda>f. f\<lparr>f_state := DMA_S_ACTIVE\<rparr>);
         hal_irq_restore key;
         State_Monad.return (Inr ())
       }
     }
   }"

definition dma_state :: "('h firmware_scheme, dma_state_t) state" where
  "dma_state = do { f \<leftarrow> State_Monad.get; State_Monad.return (f_state f) }"

definition dma_is_complete :: "('h firmware_scheme, bool) state" where
  "dma_is_complete = do { f \<leftarrow> State_Monad.get; State_Monad.return (f_done_flag f \<noteq> 0) }"

definition dma_latched_error :: "('h firmware_scheme, u32) state" where
  "dma_latched_error = do { f \<leftarrow> State_Monad.get; State_Monad.return (f_err_latch f) }"

definition dma_irq_count :: "('h firmware_scheme, u32) state" where
  "dma_irq_count = do { f \<leftarrow> State_Monad.get; State_Monad.return (f_irq_count f) }"

definition dma_isr :: "u32 \<Rightarrow> ('h firmware_scheme, unit) state" where
  "dma_isr line = do {
     st \<leftarrow> hal_read_reg VLAB_DMA_STATUS;
     (if st AND VLAB_DMA_STATUS_DONE \<noteq> 0 then
        State_Monad.update (\<lambda>f. f\<lparr>f_done_flag := 1, f_state := DMA_S_COMPLETE\<rparr>)
      else if st AND VLAB_DMA_STATUS_ERROR \<noteq> 0 then do {
        code \<leftarrow> hal_read_reg VLAB_DMA_ERR_CODE;
        State_Monad.update (\<lambda>f. f\<lparr>f_err_latch := code, f_state := DMA_S_ERROR\<rparr>)
      }
      else State_Monad.return ());
     dma_clear;
     intc_clear VLAB_IRQ_DMA;
     State_Monad.update (\<lambda>f. f\<lparr>f_irq_count := f_irq_count f + 1\<rparr>)
   }"

definition dma_recover :: "('h firmware_scheme, unit) state" where
  "dma_recover = do {
     key \<leftarrow> hal_irq_disable;
     f \<leftarrow> State_Monad.get;
     (if f_state f = DMA_S_ERROR \<or> f_state f = DMA_S_COMPLETE then do {
        State_Monad.update (\<lambda>f. f\<lparr>f_state := DMA_S_RECOVERY\<rparr>);
        dma_clear;
        intc_clear VLAB_IRQ_DMA;
        State_Monad.update (\<lambda>f. f\<lparr>f_done_flag := 0, f_err_latch := 0, f_state := DMA_S_IDLE\<rparr>)
      }
      else State_Monad.return ());
     hal_irq_restore key
   }"

section \<open>The driver validates what the engine validates\<close>

text \<open>The driver's result for an error code of the engine.\<close>

definition check_result :: "u32 \<Rightarrow> dma_err + unit" where
  "check_result code =
     (if code = 0 then Inr () else if code = 1 then Inl VLAB_DMA_ERR_ADDR
      else if code = 2 then Inl VLAB_DMA_ERR_ALIGN else if code = 3 then Inl VLAB_DMA_ERR_LEN
      else Inl VLAB_DMA_ERR_UNSUPPORTED)"

lemma check_result_simps [simp]:
  "check_result 0 = Inr ()" "check_result 1 = Inl VLAB_DMA_ERR_ADDR" "check_result 2 = Inl VLAB_DMA_ERR_ALIGN"
  "check_result 3 = Inl VLAB_DMA_ERR_LEN" "check_result 4 = Inl VLAB_DMA_ERR_UNSUPPORTED"
  by (simp_all add: check_result_def)

lemma check_result_ok [simp]: "check_result code = Inr () \<longleftrightarrow> code = 0"
  by (simp add: check_result_def)

text \<open>The engine's class of an endpoint is the driver's kind.\<close>

definition kind_class :: "ep_kind_t \<Rightarrow> int" where
  "kind_class k = (case k of EP_INVALID \<Rightarrow> - 1 | EP_MEM \<Rightarrow> 0 | EP_PERIPH \<Rightarrow> 1 | EP_INCAPABLE \<Rightarrow> - 2)"

lemma classify_class:
  assumes "f_periphs f = Some es"
  shows "soc_endpoint_class (f_map f) (f_periphs f) addr len = kind_class (fst (classify f addr len))"
    and "snd (classify f addr len) = dma_periph_find (f_periphs f) addr"
    and "fst (classify f addr len) = EP_PERIPH \<longleftrightarrow> dma_periph_find (f_periphs f) addr \<noteq> None"
  using assms
  by (auto simp: soc_endpoint_class_def classify_def kind_class_def split: option.splits)

lemma kind_class_simps [simp]:
  "kind_class k = - 1 \<longleftrightarrow> k = EP_INVALID" "kind_class k < 0 \<longleftrightarrow> k = EP_INVALID \<or> k = EP_INCAPABLE"
  by (cases k; simp add: kind_class_def)+

lemma kind_type:
  "k \<noteq> EP_INVALID \<Longrightarrow> k \<noteq> EP_INCAPABLE \<Longrightarrow> (if k = EP_MEM then DMA_ADDR_MEM else DMA_ADDR_PERIPHERAL) = kind_class k"
  by (cases k) (simp_all add: kind_class_def)

text \<open>The decision after the length, alignment and size rules.\<close>

lemma endpoint_rules_strict:
  fixes f :: "'h firmware_scheme" and src dst len :: u32
  assumes "f_periphs f = Some es" and "f_caps f = Some c"
  defines "s \<equiv> soc_endpoint_class (f_map f) (f_periphs f) src len"
    and "t \<equiv> soc_endpoint_class (f_map f) (f_periphs f) dst len"
    and "role \<equiv> (\<lambda>addr b. case dma_periph_find (f_periphs f) addr of None \<Rightarrow> True | Some e \<Rightarrow> bit (ep_roles e) b)"
  shows "(let (s_kind, s_ep) = classify f src len;
             (d_kind, d_ep) = classify f dst len
         in if s_kind = EP_INVALID \<or> d_kind = EP_INVALID then Inl VLAB_DMA_ERR_ADDR
            else if s_kind = EP_INCAPABLE \<or> d_kind = EP_INCAPABLE then Inl VLAB_DMA_ERR_UNSUPPORTED
            else if s_kind = EP_PERIPH \<and> ep_roles (the s_ep) AND DMA_EP_SRC = 0
              then Inl VLAB_DMA_ERR_UNSUPPORTED
            else if d_kind = EP_PERIPH \<and> ep_roles (the d_ep) AND DMA_EP_DST = 0
              then Inl VLAB_DMA_ERR_UNSUPPORTED
            else if f_caps f \<noteq> None \<and> \<not> dma_direction_supported (f_caps f)
                (if s_kind = EP_MEM then DMA_ADDR_MEM else DMA_ADDR_PERIPHERAL)
                (if d_kind = EP_MEM then DMA_ADDR_MEM else DMA_ADDR_PERIPHERAL)
              then Inl VLAB_DMA_ERR_UNSUPPORTED else Inr ()) =
     check_result (if s = - 1 \<or> t = - 1 then 1
       else if s < 0 \<or> t < 0 \<or> \<not> role src 0 \<or> \<not> role dst 1 \<or> \<not> dma_direction_supported (Some c) s t then 4
       else 0)"
proof -
  obtain sk where sk: "classify f src len = (sk, dma_periph_find (f_periphs f) src)"
    using classify_class(2) [OF assms(1)] by (metis prod.collapse)
  obtain dk where dk: "classify f dst len = (dk, dma_periph_find (f_periphs f) dst)"
    using classify_class(2) [OF assms(1)] by (metis prod.collapse)
  have st: "s = kind_class sk" "t = kind_class dk"
    using classify_class(1) [OF assms(1), of src len] classify_class(1) [OF assms(1), of dst len] sk dk
    by (simp_all add: s_def t_def)
  have "sk = EP_PERIPH \<longleftrightarrow> dma_periph_find (f_periphs f) src \<noteq> None"
      "dk = EP_PERIPH \<longleftrightarrow> dma_periph_find (f_periphs f) dst \<noteq> None"
    using classify_class(3) [OF assms(1), of src len] classify_class(3) [OF assms(1), of dst len] sk dk
    by simp_all
  then have roles: "sk = EP_PERIPH \<and> ep_roles (the (dma_periph_find (f_periphs f) src)) AND DMA_EP_SRC = 0 \<longleftrightarrow> \<not> role src 0"
      "dk = EP_PERIPH \<and> ep_roles (the (dma_periph_find (f_periphs f) dst)) AND DMA_EP_DST = 0 \<longleftrightarrow> \<not> role dst 1"
    by (auto simp: role_def)
  show ?thesis
    unfolding sk dk st Let_def prod.case roles
    by (simp add: kind_type assms(2) split del: if_split) (simp add: kind_type [simplified] assms(2))
qed

lemma validate_request_check:
  assumes "f_caps f = Some c"
  shows "validate_request f src dst len = check_result (dma_check (f_map f) (f_periphs f) c src dst len)"
proof (cases "f_periphs f")
  case None
  then show ?thesis
    using dma_endpoint_type_range [of "f_map f" src len] dma_endpoint_type_range [of "f_map f" dst len]
    by (cases "1 < cap_alignment c")
      (auto simp: validate_request_def dma_check_def Let_def assms soc_endpoint_class_def)
next
  case (Some es)
  let ?a = "cap_alignment c"
  let ?len = "len = 0 \<or> (1 < ?a \<and> len mod ?a \<noteq> 0)"
  let ?align = "1 < ?a \<and> (src mod ?a \<noteq> 0 \<or> dst mod ?a \<noteq> 0)"
  let ?max = "cap_max_transfer c \<noteq> 0 \<and> cap_max_transfer c < len"
  note rules = endpoint_rules_strict [OF Some assms, of src len dst]
  consider (len) ?len | (align) "\<not> ?len" ?align | (max) "\<not> ?len" "\<not> ?align" ?max
    | (ok) "\<not> ?len" "\<not> ?align" "\<not> ?max"
    by argo
  then show ?thesis
  proof cases
    case ok
    then have "validate_request f src dst len = check_result
        (let s = soc_endpoint_class (f_map f) (f_periphs f) src len;
             t = soc_endpoint_class (f_map f) (f_periphs f) dst len;
             role = (\<lambda>addr b. case dma_periph_find (f_periphs f) addr of None \<Rightarrow> True | Some e \<Rightarrow> bit (ep_roles e) b)
         in if s = - 1 \<or> t = - 1 then 1
            else if s < 0 \<or> t < 0 \<or> \<not> role src 0 \<or> \<not> role dst 1 \<or> \<not> dma_direction_supported (Some c) s t then 4
            else 0)"
      unfolding Let_def rules [symmetric] validate_request_def
      by (cases "1 < ?a") (simp_all add: assms Some, argo+)
    also have "\<dots> = check_result (dma_check (f_map f) (f_periphs f) c src dst len)"
      unfolding dma_check_def Let_def using ok by (simp only: if_False simp_thms)
    finally show ?thesis .
  qed (auto simp: validate_request_def dma_check_def Let_def assms)
qed

section \<open>What the calls do\<close>

lemma validate_request_cong:
  assumes "f_map f = f_map g" and "f_caps f = f_caps g" and "f_periphs f = f_periphs g"
  shows "validate_request f src dst len = validate_request g src dst len"
  unfolding validate_request_def classify_def assms ..

lemma validate_request_h [simp]:
  "validate_request (f\<lparr>h_soc := s\<rparr>) src dst len = validate_request f src dst len"
  "validate_request (f\<lparr>f_state := st\<rparr>) src dst len = validate_request f src dst len"
  "validate_request (f\<lparr>h_irq_masked := k\<rparr>) src dst len = validate_request f src dst len"
  by (rule validate_request_cong; simp)+

lemma status_bits [simp]:
  "bit (soc_dma_status d) 0 \<longleftrightarrow> d_busy d" "bit (soc_dma_status d) (Suc 0) \<longleftrightarrow> d_done d"
  "bit (soc_dma_status d) 2 \<longleftrightarrow> d_error d"
  by (simp_all add: soc_dma_status_def Let_def bit_numeral_word_iff bit_simps)

lemma validate_run [fw_run]:
  assumes "host_ok f"
  shows "run_state (validate src dst len) f =
    (if d_busy (s_dma (h_soc f)) then Inl VLAB_DMA_ERR_BUSY else validate_request f src dst len,
     f\<lparr>h_soc := counted (h_soc f)\<rparr>)"
  using assms by (simp add: validate_def fw_run host_ok_def)

lemma dma_start_run [fw_run]:
  assumes "host_ok f"
  shows "run_state (dma_start src dst len irq) f =
    (if d_busy (s_dma (h_soc f)) then (Inl VLAB_DMA_ERR_BUSY, f\<lparr>h_soc := counted (h_soc f)\<rparr>)
     else if validate_request f src dst len \<noteq> Inr ()
     then (validate_request f src dst len, f\<lparr>h_soc := counted (h_soc f)\<rparr>)
     else (Inr (), f\<lparr>h_soc := dma_program (counted (h_soc f)) src dst len irq\<rparr>))"
  using assms
  by (simp add: dma_start_def validate_run hal_write_run host_ok_def dma_program_def Let_def)

text \<open>The lifecycle calls; the mask is restored on every path.\<close>

lemma dma_submit_run:
  assumes "host_ok f"
  defines "k \<equiv> h_irq_masked f AND 1"
  shows "run_state (dma_submit src dst len irq) f =
    (if f_state f \<noteq> DMA_S_IDLE then (Inl VLAB_DMA_ERR_BUSY, f\<lparr>h_irq_masked := k\<rparr>)
     else if d_busy (s_dma (h_soc f))
     then (Inl VLAB_DMA_ERR_BUSY, f\<lparr>h_soc := counted (h_soc f), h_irq_masked := k\<rparr>)
     else if validate_request f src dst len \<noteq> Inr ()
     then (validate_request f src dst len, f\<lparr>h_soc := counted (h_soc f), h_irq_masked := k\<rparr>)
     else (Inr (), f\<lparr>h_soc := dma_program (counted (h_soc f)) src dst len irq, h_irq_masked := k,
             f_state := DMA_S_ACTIVE, f_done_flag := 0, f_err_latch := 0\<rparr>))"
proof -
  let ?f = "f\<lparr>h_irq_masked := 1, f_state := DMA_S_STARTING\<rparr>"
  have ok: "host_ok ?f" and i: "h_inited f"
    using assms(1) by (simp_all add: host_ok_def)
  have undo: "?f\<lparr>h_soc := s, f_state := DMA_S_IDLE, h_irq_masked := k\<rparr> = f\<lparr>h_soc := s, h_irq_masked := k\<rparr>"
    if "f_state f = DMA_S_IDLE" for s
    using that by (cases f) simp
  have fin: "?f\<lparr>h_soc := s', f_done_flag := 0, f_err_latch := 0, h_soc := s, f_state := DMA_S_ACTIVE, h_irq_masked := k\<rparr> =
      f\<lparr>h_soc := s, h_irq_masked := k, f_state := DMA_S_ACTIVE, f_done_flag := 0, f_err_latch := 0\<rparr>" for s s'
    by (cases f) simp
  have v: "validate_request ?f src dst len = validate_request f src dst len"
    by simp
  show ?thesis
    using validate_run [OF ok, of src dst len] i
    by (simp add: dma_submit_def hal_irq_run undo [unfolded k_def] k_def v hal_write_run)
      (simp add: fin [unfolded k_def] dma_program_def Let_def)
qed

text \<open>The engine and the controller after the two-step clear of the handler.\<close>

definition dma_cleared :: "soc_t \<Rightarrow> soc_t" where
  "dma_cleared s = s\<lparr>s_dma := (s_dma s)\<lparr>d_done := False, d_error := False, d_err_code := 0\<rparr>,
     s_intc := snd (soc_intc_write (s_intc s) 0xC VLAB_IRQ_DMA),
     s_perf := soc_perf_count_mem (soc_perf_count_mem (s_perf s))\<rparr>"

lemma two_step_clear:
  assumes "host_ok f"
  shows "run_state (do { dma_clear; intc_clear VLAB_IRQ_DMA }) f = ((), f\<lparr>h_soc := dma_cleared (h_soc f)\<rparr>)"
proof -
  let ?s = "(counted (h_soc f))\<lparr>s_dma := (s_dma (h_soc f))\<lparr>d_done := False, d_error := False, d_err_code := 0\<rparr>\<rparr>"
  have "soc_wf ?s"
    using soc_write_wf [of "h_soc f" "0x20002014" 1] assms by (simp add: host_ok_def register_write_values)
  then show ?thesis
    using assms
    by (simp add: dma_clear_def intc_clear_def hal_write_run host_ok_def register_write_values dma_cleared_def
        counted_def)
qed

lemma dma_cleared_wf [wf_intros]:
  assumes "soc_wf s"
  shows "soc_wf (dma_cleared s)"
proof -
  have "intc_wf (snd (soc_intc_write (s_intc s) 0xC VLAB_IRQ_DMA))"
    using assms intc_write_wf [of "s_intc s" 12 VLAB_IRQ_DMA] by (simp add: soc_wf_def)
  then show ?thesis
    using assms by (simp add: dma_cleared_def soc_wf_def dma_wf_def dma_bound_def perf_count_wf)
qed

lemma dma_recover_run:
  assumes "host_ok f"
  defines "k \<equiv> h_irq_masked f AND 1"
  shows "run_state dma_recover f =
    ((), if f_state f = DMA_S_ERROR \<or> f_state f = DMA_S_COMPLETE
      then f\<lparr>h_soc := dma_cleared (h_soc f), h_irq_masked := k, f_state := DMA_S_IDLE, f_done_flag := 0,
         f_err_latch := 0\<rparr>
      else f\<lparr>h_irq_masked := k\<rparr>)"
proof -
  let ?f = "f\<lparr>h_irq_masked := 1, f_state := DMA_S_RECOVERY\<rparr>"
  have "host_ok ?f"
    using assms(1) by (simp add: host_ok_def)
  from two_step_clear [OF this] show ?thesis
    by (cases f) (simp add: dma_recover_def hal_irq_run k_def split_def prod_eq_iff)
qed

lemma dma_isr_run:
  assumes "host_ok f"
  defines "s \<equiv> h_soc f"
  shows "run_state (dma_isr line) f =
    ((), if d_done (s_dma s)
      then f\<lparr>h_soc := dma_cleared (counted s), f_state := DMA_S_COMPLETE, f_done_flag := 1,
         f_irq_count := f_irq_count f + 1\<rparr>
      else if d_error (s_dma s)
      then f\<lparr>h_soc := dma_cleared (counted (counted s)), f_state := DMA_S_ERROR,
         f_err_latch := d_err_code (s_dma s), f_irq_count := f_irq_count f + 1\<rparr>
      else f\<lparr>h_soc := dma_cleared (counted s), f_irq_count := f_irq_count f + 1\<rparr>)"
proof -
  let ?c = "f\<lparr>h_soc := counted s\<rparr>"
  have ok: "host_ok (?c\<lparr>f_done_flag := 1, f_state := DMA_S_COMPLETE\<rparr>)" "host_ok ?c"
      "host_ok (?c\<lparr>h_soc := counted (counted s), f_err_latch := d_err_code (s_dma s), f_state := DMA_S_ERROR\<rparr>)"
    using assms(1) by (simp_all add: host_ok_def counted_wf s_def)
  have rd: "run_state (hal_read_reg VLAB_DMA_STATUS) f = (soc_dma_status (s_dma s), ?c)"
    using assms(1) by (simp add: fw_run host_ok_def s_def)
  have err: "run_state (hal_read_reg VLAB_DMA_ERR_CODE) ?c = (d_err_code (s_dma s), ?c\<lparr>h_soc := counted (counted s)\<rparr>)"
    using ok(2) by (simp add: fw_run host_ok_def)
  show ?thesis
    unfolding dma_isr_def
    using two_step_clear [OF ok(1)] two_step_clear [OF ok(2)] two_step_clear [OF ok(3)]
    by (cases "d_done (s_dma s)"; cases "d_error (s_dma s)";
        simp add: rd [simplified] err [simplified] split_def prod_eq_iff; cases f; simp)
qed

section \<open>The engine under other traffic\<close>

definition dma_engaged :: "'m soc_dma_t \<Rightarrow> bool" where
  "dma_engaged d \<longleftrightarrow> d_busy d \<or> d_done d \<or> d_error d"

lemma soc_read_dma_frame [simp]: "s_dma (snd (soc_read s a)) = s_dma s"
proof -
  have "s_dma (snd (soc_read_device t kind a)) = s_dma t" for t kind
    using dma_read_pure [of "s_dma t" "a - SOC_DMA_BASE"]
    by (cases kind rule: device_kinds) (simp_all add: soc_read_device_def split_def)
  then show ?thesis
    by (simp add: soc_read_def Let_def split_def soc_stall_def split: sum.split)
qed

definition dma_window :: "u32 \<Rightarrow> bool" where
  "dma_window a \<longleftrightarrow> 0x20002000 \<le> unat a \<and> unat a < 0x20003000"

lemma vlab_route_dma: "vlab_route (unat a) = 4 \<longleftrightarrow> dma_window a"
proof (cases "0x20000000 \<le> unat a \<and> unat a < 0x20005000")
  case True
  then show ?thesis
    by (elim conjE vlab_window_cases) (auto simp: vlab_route_def dma_window_def)
qed (auto simp: vlab_route_def dma_window_def)

lemma soc_write_dma_frame:
  assumes "soc_wf s" and "\<not> dma_window a"
  shows "s_dma (snd (soc_write s a v)) = s_dma s"
proof -
  have "kind \<noteq> 4 \<Longrightarrow> s_dma (snd (soc_write_device t kind a v)) = s_dma t" for t kind
    by (cases kind rule: device_kinds) (simp_all add: soc_write_device_def split_def)
  moreover have "soc_route (s\<lparr>s_perf := soc_perf_count_mem (s_perf s)\<rparr>) a \<noteq> 4"
    using assms soc_route_wf [OF count_mem_wf [OF assms(1)]] by (simp add: vlab_route_dma)
  ultimately show ?thesis
    by (simp add: soc_write_def Let_def split_def soc_stall_def split: sum.split)
qed

lemma soc_tick_engaged [simp]: "dma_engaged (s_dma (soc_tick malloc s)) = dma_engaged (s_dma s)"
proof (rule soc_tick_cases [of s malloc])
  fix u ic1 t ic2 d ic3 p u' sram
  assume h: "soc_dma_step malloc (s_dma s) ic2 (soc_perf_tick (s_perf s)) (u, s_sram s) = (d, ic3, p, (u', sram))"
    "soc_tick malloc s = s\<lparr>s_ticks := s_ticks s + 1, s_perf := p, s_uart := u', s_timer := t,
       s_dma := d, s_intc := ic3, s_sram := sram\<rparr>"
  show ?thesis
    using dma_step_outcomes(1) [OF h(1)] by (auto simp: h(2) dma_engaged_def dma_finished_def)
qed

lemma soc_step_engaged [simp]: "dma_engaged (s_dma (soc_step malloc s n)) = dma_engaged (s_dma s)"
proof -
  have "dma_engaged (s_dma ((soc_tick malloc ^^ k) s)) = dma_engaged (s_dma s)" for k
    by (induction k) simp_all
  then show ?thesis by (simp add: soc_step_def)
qed

section \<open>Properties\<close>

text \<open>The driver as \<open>dma_init\<close> configures it, on an initialised host.\<close>

definition fw_vlab :: "'h firmware_scheme \<Rightarrow> bool" where
  "fw_vlab f \<longleftrightarrow> host_ok f \<and> f_map f = Some vlab_memory_map \<and> f_caps f = Some vlab_dma_caps \<and>
     f_periphs f = Some vlab_dma_periph_eps"

lemma fw_vlab_validate:
  "fw_vlab f \<Longrightarrow> validate_request f src dst len =
     check_result (dma_check (Some vlab_memory_map) (Some vlab_dma_periph_eps) vlab_dma_caps src dst len)"
  by (simp add: fw_vlab_def validate_request_check)

lemma vlab_req_check:
  "soc_wf s \<Longrightarrow> dma_req_check (dma_request (s_dma s) src dst len) =
     dma_check (Some vlab_memory_map) (Some vlab_dma_periph_eps) vlab_dma_caps src dst len"
  by (simp add: dma_req_check_def dma_request_def soc_wf_def dma_bound_def)

lemma dma_program_checked:
  assumes "soc_wf s" and "\<not> d_busy (s_dma s)"
    and "dma_check (Some vlab_memory_map) (Some vlab_dma_periph_eps) vlab_dma_caps src dst len = 0"
  shows "dma_program s src dst len irq =
    s\<lparr>s_dma := (dma_started (dma_request (s_dma s) src dst len) irq)\<lparr>d_ctrl := ctrl_word irq\<rparr>,
      s_intc := s_intc s, s_perf := (soc_perf_count_mem ^^ 4) (s_perf s)\<rparr>"
  unfolding dma_program_eq [OF assms(1,2)] vlab_req_check [OF assms(1)] assms(3) by simp

text \<open>
  C6. The driver and the engine apply the same rules. For every memory map, FIFO table and
  capability set that both are configured with, and every request, the driver's validation
  succeeds iff a START of that request would be accepted by an idle engine, and otherwise the
  driver's error is the one the engine would latch (\<open>check_result\<close> translates the code).
\<close>

theorem dma_driver_engine_agree:
  assumes "f_map f = d_regions d" and "f_periphs f = d_periph_eps d" and "f_caps f = Some (d_caps d)"
    and "\<not> d_busy d" and "soc_dma_start d ic p irq = (d', ic', p')"
  shows "(validate_request f (d_src d) (d_dst d) (d_length d) = Inr () \<longleftrightarrow> d_busy d') \<and>
    (\<not> d_busy d' \<longrightarrow> d_error d' \<and>
       validate_request f (d_src d) (d_dst d) (d_length d) = check_result (d_err_code d'))"
proof -
  have v: "validate_request f (d_src d) (d_dst d) (d_length d) = check_result (dma_req_check d)"
    unfolding validate_request_check [OF assms(3)] assms(1,2) dma_req_check_def ..
  show ?thesis
    using assms(5) unfolding v dma_start_idle [OF assms(4)]
    by (cases "dma_req_check d = 0") (auto simp: dma_started_def dma_refused_def)
qed

text \<open>The verdict of the platform rules: the error of the first rule violated, if there is one.\<close>

lemma vlab_check_result:
  "check_result (dma_check (Some vlab_memory_map) (Some vlab_dma_periph_eps) vlab_dma_caps src dst len) =
     (if \<exists>r. vlab_violates src dst len r
      then check_result (rule_code (Min {r. vlab_violates src dst len r})) else Inr ())"
  using vlab_check_least [of src dst len] vlab_check_accepts [of src dst len] by auto

text \<open>
  C19. Every outcome of \<open>dma_start\<close> on the VLAB platform. BUSY is reported iff the engine is busy;
  otherwise the result is the error of the first platform rule that the request violates, in the
  documented order, and success if it violates none. A refusal costs one status read and
  changes nothing else; an accepted request leaves the engine busy with exactly that request,
  never in error, and leaves memory and the interrupt controller alone.
\<close>

theorem dma_start_outcome:
  assumes "fw_vlab f" and "run_state (dma_start src dst len irq) f = (rc, f')"
  shows "(rc = Inl VLAB_DMA_ERR_BUSY \<longleftrightarrow> d_busy (s_dma (h_soc f))) \<and>
    (\<not> d_busy (s_dma (h_soc f)) \<longrightarrow> rc = (if \<exists>r. vlab_violates src dst len r
       then check_result (rule_code (Min {r. vlab_violates src dst len r})) else Inr ())) \<and>
    (rc \<noteq> Inr () \<longrightarrow> f' = f\<lparr>h_soc := counted (h_soc f)\<rparr>) \<and>
    (rc = Inr () \<longrightarrow> soc_dma_status (s_dma (h_soc f')) = VLAB_DMA_STATUS_BUSY \<and>
       d_src (s_dma (h_soc f')) = src \<and> d_dst (s_dma (h_soc f')) = dst \<and>
       d_length (s_dma (h_soc f')) = len \<and> d_irq_enable_latched (s_dma (h_soc f')) = irq \<and>
       s_sram (h_soc f') = s_sram (h_soc f) \<and> s_intc (h_soc f') = s_intc (h_soc f) \<and> fw_vlab f')"
proof -
  let ?chk = "dma_check (Some vlab_memory_map) (Some vlab_dma_periph_eps) vlab_dma_caps src dst len"
  have ok: "host_ok f"
    using assms(1) by (simp add: fw_vlab_def)
  have wf: "soc_wf (counted (h_soc f))"
    using ok by (simp add: host_ok_def counted_wf)
  have nb: "check_result c \<noteq> Inl VLAB_DMA_ERR_BUSY" for c
    by (simp add: check_result_def)
  note run = assms(2) [unfolded dma_start_run [OF ok] fw_vlab_validate [OF assms(1)]]
  consider (busy) "d_busy (s_dma (h_soc f))" | (refused) "\<not> d_busy (s_dma (h_soc f))" "?chk \<noteq> 0"
    | (accepted) "\<not> d_busy (s_dma (h_soc f))" "?chk = 0"
    by argo
  then show ?thesis
  proof cases
    case busy
    with run show ?thesis by auto
  next
    case refused
    with run nb show ?thesis
      unfolding vlab_check_result [symmetric] by auto
  next
    case accepted
    then have rc: "rc = Inr ()" and f': "f' = f\<lparr>h_soc := dma_program (counted (h_soc f)) src dst len irq\<rparr>"
      using run by simp_all
    have "soc_wf (dma_program (counted (h_soc f)) src dst len irq)"
      using wf by (rule dma_program_wf)
    then have "fw_vlab f'"
      using assms(1) by (simp add: f' fw_vlab_def host_ok_def)
    moreover have "soc_dma_status (s_dma (h_soc f')) = 1"
      using accepted by (simp add: f' dma_program_checked [OF wf] dma_started_def dma_status_values)
    ultimately show ?thesis
      unfolding vlab_check_result [symmetric] using accepted rc
      by (simp add: f' dma_program_checked [OF wf] dma_started_def dma_request_def)
  qed
qed

text \<open>The firmware before any call, and after initialisation of the host and of the driver.\<close>

definition fw_static :: firmware where
  "fw_static = host.extend host_static
     \<lparr>f_map = None, f_caps = None, f_periphs = None, f_state = DMA_S_IDLE, f_done_flag = 0, f_err_latch = 0,
      f_irq_count = 0\<rparr>"

definition fw_default :: firmware where
  "fw_default = snd (run_state (do { soc_host_init None; dma_init }) fw_static)"

lemma fw_default_simps [simp]:
  "h_inited fw_default" "h_soc fw_default = soc_init soc_static (Some soc_config_default)"
  "h_irq_masked fw_default = 0" "f_state fw_default = DMA_S_IDLE" "f_done_flag fw_default = 0"
  "f_err_latch fw_default = 0" "f_irq_count fw_default = 0"
  "f_map fw_default = Some vlab_memory_map" "f_caps fw_default = Some vlab_dma_caps"
  "f_periphs fw_default = Some vlab_dma_periph_eps"
  by (simp_all add: fw_default_def fw_static_def soc_host_init_def dma_init_def host_static_def host.defs)

lemma fw_default_vlab: "fw_vlab fw_default"
  by (simp add: fw_vlab_def host_ok_def soc_init_wf soc_static_storage)

lemma default_dma:
  "\<not> d_busy (s_dma (soc_init soc_static (Some soc_config_default)))"
  "\<not> dma_engaged (s_dma (soc_init soc_static (Some soc_config_default)))"
  by (simp_all add: soc_init_def Let_def soc_dma_init_def dma_engaged_def)

theorem dma_start_outcome_witness:
  "fst (run_state (dma_start 0x10000000 0x10000100 6 True) fw_default) = Inl VLAB_DMA_ERR_LEN \<and>
   fst (run_state (dma_start 0x10000000 VLAB_TIMER_LOAD 16 True) fw_default) \<noteq> Inr () \<and>
   fst (run_state (dma_start 0x10000000 0x10000100 16 True) fw_default) = Inr ()"
proof -
  obtain rc f rc1 f1 rc2 f2 where
    r: "run_state (dma_start 0x10000000 0x10000100 6 True) fw_default = (rc, f)"
    and r1: "run_state (dma_start 0x10000000 VLAB_TIMER_LOAD 16 True) fw_default = (rc1, f1)"
    and r2: "run_state (dma_start 0x10000000 0x10000100 16 True) fw_default = (rc2, f2)"
    by (meson surj_pair)
  have "dma_check (Some vlab_memory_map) (Some vlab_dma_periph_eps) vlab_dma_caps 0x10000000 0x10000100 6 = 3"
    by (simp add: dma_check_def vlab_caps_defs)
  moreover have "dma_check (Some vlab_memory_map) (Some vlab_dma_periph_eps) vlab_dma_caps 0x10000000 VLAB_TIMER_LOAD 16 \<noteq> 0"
      "dma_check (Some vlab_memory_map) (Some vlab_dma_periph_eps) vlab_dma_caps 0x10000000 0x10000100 16 = 0"
    unfolding vlab_check_zero by (simp_all add: vlab_transfer_def vlab_aligned_def in_vlab_sram_def)
  ultimately show ?thesis
    using dma_start_outcome [OF fw_default_vlab r, folded vlab_check_result]
      dma_start_outcome [OF fw_default_vlab r1, folded vlab_check_result]
      dma_start_outcome [OF fw_default_vlab r2, folded vlab_check_result] r r1 r2 default_dma(1)
    by simp
qed

theorem dma_driver_engine_agree_witness:
  "validate_request fw_default 0 0 0 = Inl VLAB_DMA_ERR_LEN \<and>
   \<not> d_busy (fst (soc_dma_start (s_dma (h_soc fw_default)) intc_static perf_static False))"
proof -
  let ?d = "s_dma (h_soc fw_default)"
  obtain d' ic' p' where st: "soc_dma_start ?d intc_static perf_static False = (d', ic', p')"
    by (meson prod_cases3)
  have b: "dma_bound ?d"
    using fw_default_vlab by (simp add: fw_vlab_def host_ok_def soc_wf_def)
  have "f_map fw_default = d_regions ?d" "f_periphs fw_default = d_periph_eps ?d"
      "f_caps fw_default = Some (d_caps ?d)" "\<not> d_busy ?d"
    using b default_dma(1) by (simp_all add: dma_bound_def)
  note agree = dma_driver_engine_agree [OF this st]
  have "d_src ?d = 0" "d_dst ?d = 0" "d_length ?d = 0"
    by (simp_all add: soc_init_def Let_def soc_dma_init_def)
  moreover have "validate_request fw_default 0 0 0 = Inl VLAB_DMA_ERR_LEN"
    by (simp add: validate_request_def Let_def)
  ultimately show ?thesis
    using agree st by simp
qed

end
