(* ===== verification/Job.thy ===== *)
theory Job
  imports Dma_Driver
begin

text \<open>
  What the interrupt-driven half of the DMA driver promises to its clients, as an abstract
  machine. Its state is one job: nothing pending, running with a number of ticks left, stopped by an
  engine error, finished, or failed with a code. A step has a label that carries what the caller
  sees: the return code of a submission, the answers of the query functions. The theory also has
  runs of a labelled transition system and the locale \<open>simulation\<close>, which \<open>Lifecycle\<close> interprets
  on the driver.
\<close>

section \<open>Runs and simulations\<close>

inductive runs :: "('s \<Rightarrow> 'e \<Rightarrow> 's \<Rightarrow> bool) \<Rightarrow> 's \<Rightarrow> 'e list \<Rightarrow> 's \<Rightarrow> bool" for step where
  stop: "runs step s [] s"
| more: "step s e s' \<Longrightarrow> runs step s' es s'' \<Longrightarrow> runs step s (e # es) s''"

inductive_simps runs_simps: "runs step s [] s'" "runs step s (e # es) s'"

lemma runs_unique:
  assumes "\<And>s e s1 s2. step s e s1 \<Longrightarrow> step s e s2 \<Longrightarrow> s1 = s2"
  shows "runs step s es s1 \<Longrightarrow> runs step s es s2 \<Longrightarrow> s1 = s2"
proof (induction arbitrary: s2 rule: runs.induct)
  case (more s e s' es s1)
  then show ?case
    using assms [OF more.hyps(1)] by (metis runs_simps(2))
qed (simp add: runs_simps)

locale simulation =
  fixes cstep :: "'c \<Rightarrow> 'e \<Rightarrow> 'c \<Rightarrow> bool" and astep :: "'a \<Rightarrow> 'e \<Rightarrow> 'a \<Rightarrow> bool"
    and good :: "'c \<Rightarrow> bool" and abs :: "'c \<Rightarrow> 'a"
  assumes step_good: "good c \<Longrightarrow> cstep c e c' \<Longrightarrow> good c'"
    and step_sim: "good c \<Longrightarrow> cstep c e c' \<Longrightarrow> astep (abs c) e (abs c')"
begin

lemma runs_good: "runs cstep c es c' \<Longrightarrow> good c \<Longrightarrow> good c'"
  by (induction rule: runs.induct) (auto dest: step_good)

lemma runs_sim: "runs cstep c es c' \<Longrightarrow> good c \<Longrightarrow> runs astep (abs c) es (abs c')"
  by (induction rule: runs.induct) (auto intro: runs.intros dest: step_good step_sim)

end

section \<open>Events\<close>

text \<open>
  A call with its arguments and its result; the passage of time; any other access to a register;
  a failure of the engine, which the host build provides as a test hook.
\<close>

datatype fw_event =
  Submit u32 u32 u32 bool "dma_err + unit" | Isr u32 | Recover | Poll dma_state_t bool u32
  | Elapse u32 | Reg_Read u32 | Reg_Write u32 u32 | Inject u32

section \<open>The job machine\<close>

datatype job = Ready | Running nat | Broken u32 | Finished | Failed u32

fun job_state :: "job \<Rightarrow> dma_state_t" where
  "job_state Ready = DMA_S_IDLE"
| "job_state (Running n) = DMA_S_ACTIVE"
| "job_state (Broken code) = DMA_S_ACTIVE"
| "job_state Finished = DMA_S_COMPLETE"
| "job_state (Failed code) = DMA_S_ERROR"

fun job_error :: "job \<Rightarrow> u32" where
  "job_error (Failed code) = code"
| "job_error j = 0"

text \<open>The verdict on a request: the error of the first platform rule it violates.\<close>

definition vlab_verdict :: "u32 \<Rightarrow> u32 \<Rightarrow> u32 \<Rightarrow> dma_err + unit" where
  "vlab_verdict src dst len =
     (case find (vlab_violates src dst len) [Rule_Len, Rule_Align, Rule_Max, Rule_Addr, Rule_Pair] of
        None \<Rightarrow> Inr ()
      | Some r \<Rightarrow> check_result (rule_code r))"

text \<open>
  The steps. A request has the duration \<open>dur len\<close>. The platform is \<open>live\<close> if staging buffers can be
  allocated and the engine is not stuck; then a job runs for exactly its duration. Otherwise it
  may take longer, but it never ends early. A job ends in the handler only: finished if its time
  is up, failed if the engine broke down before, and for no other reason.
\<close>

inductive job_step :: "(u32 \<Rightarrow> nat) \<Rightarrow> bool \<Rightarrow> job \<Rightarrow> fw_event \<Rightarrow> job \<Rightarrow> bool" for dur live where
  accept: "vlab_verdict src dst len = Inr () \<Longrightarrow>
    job_step dur live Ready (Submit src dst len irq (Inr ())) (Running (dur len))"
| reject: "vlab_verdict src dst len = Inl e \<Longrightarrow> job_step dur live Ready (Submit src dst len irq (Inl e)) Ready"
| busy: "j \<noteq> Ready \<Longrightarrow> job_step dur live j (Submit src dst len irq (Inl VLAB_DMA_ERR_BUSY)) j"
| finish: "job_step dur live (Running 0) (Isr line) Finished"
| fail: "job_step dur live (Broken code) (Isr line) (Failed code)"
| early: "0 < n \<Longrightarrow> job_step dur live (Running n) (Isr line) (Running n)"
| stray: "job_state j \<noteq> DMA_S_ACTIVE \<Longrightarrow> job_step dur live j (Isr line) j"
| recovered: "job_state j \<in> {DMA_S_COMPLETE, DMA_S_ERROR} \<Longrightarrow> job_step dur live j Recover Ready"
| ignored: "job_state j \<notin> {DMA_S_COMPLETE, DMA_S_ERROR} \<Longrightarrow> job_step dur live j Recover j"
| poll: "job_step dur live j (Poll (job_state j) (j = Finished) (job_error j)) j"
| run: "job_step dur live (Running n) (Elapse k) (Running (n - unat k))"
| delay: "\<not> live \<Longrightarrow> n - unat k \<le> m \<Longrightarrow> m \<le> n \<Longrightarrow> job_step dur live (Running n) (Elapse k) (Running m)"
| wait: "\<forall>n. j \<noteq> Running n \<Longrightarrow> job_step dur live j (Elapse k) j"
| look: "job_step dur live j (Reg_Read a) j"
| other: "job_step dur live j (Reg_Write a v) j"
| break: "job_state j = DMA_S_ACTIVE \<Longrightarrow> job_step dur live j (Inject code) (Broken code)"

inductive_simps job_step_simps:
  "job_step dur live j (Submit src dst len irq rc) j'" "job_step dur live j (Isr line) j'"
  "job_step dur live j Recover j'" "job_step dur live j (Poll st c e) j'" "job_step dur live j (Elapse n) j'"
  "job_step dur live j (Reg_Read a) j'" "job_step dur live j (Reg_Write a v) j'" "job_step dur live j (Inject code) j'"

text \<open>The machine of a live platform allows less, and what it allows is determined by the labels.\<close>

lemma job_step_live: "job_step dur live j e j' \<Longrightarrow> job_step dur False j e j'"
  by (induction rule: job_step.induct) (auto intro: job_step.intros)

lemma job_step_unique:
  assumes "job_step dur True j e j1" and "job_step dur True j e j2"
  shows "j1 = j2"
  using assms by (cases e; cases j) (auto simp: job_step_simps)

lemma job_runs_unique:
  "runs (job_step dur True) j es j1 \<Longrightarrow> runs (job_step dur True) j es j2 \<Longrightarrow> j1 = j2"
  by (rule runs_unique [where step = "job_step dur True"]) (rule job_step_unique)

text \<open>A job that is under way is left through the handler only.\<close>

lemma job_active_step:
  "job_step dur live j e j' \<Longrightarrow> job_state j = DMA_S_ACTIVE \<Longrightarrow> \<forall>l. e \<noteq> Isr l \<Longrightarrow> job_state j' = DMA_S_ACTIVE"
  by (induction rule: job_step.induct) auto

lemma job_active_runs:
  "runs (job_step dur live) j es j' \<Longrightarrow> job_state j = DMA_S_ACTIVE \<Longrightarrow> \<forall>l. Isr l \<notin> set es \<Longrightarrow>
     job_state j' = DMA_S_ACTIVE"
  by (induction rule: runs.induct) (auto dest: job_active_step)

text \<open>Without a breakdown no job ever fails.\<close>

lemma job_fails_step:
  "job_step dur live j e j' \<Longrightarrow> (\<forall>c. j \<noteq> Broken c \<and> j \<noteq> Failed c) \<Longrightarrow> \<forall>c. e \<noteq> Inject c \<Longrightarrow>
     \<forall>c. j' \<noteq> Broken c \<and> j' \<noteq> Failed c"
  by (induction rule: job_step.induct) auto

lemma job_fails_runs:
  "runs (job_step dur live) j es j' \<Longrightarrow> (\<forall>c. j \<noteq> Broken c \<and> j \<noteq> Failed c) \<Longrightarrow> \<forall>c. Inject c \<notin> set es \<Longrightarrow>
     \<forall>c. j' \<noteq> Broken c \<and> j' \<noteq> Failed c"
proof (induction rule: runs.induct)
  case (more j e j1 es j2)
  with job_fails_step [OF more.hyps(1)] show ?case by auto
qed simp

text \<open>The verdict is the check of the engine on the platform.\<close>

lemma vlab_verdict_check:
  "check_result (dma_check (Some vlab_memory_map) (Some vlab_dma_periph_eps) vlab_dma_caps src dst len) =
     vlab_verdict src dst len"
  by (simp add: vlab_verdict_def vlab_check_cascade del: vlab_violates.simps)

lemma vlab_verdict_ok:
  "vlab_verdict src dst len = Inr () \<longleftrightarrow>
     dma_check (Some vlab_memory_map) (Some vlab_dma_periph_eps) vlab_dma_caps src dst len = 0"
  unfolding vlab_verdict_check [symmetric] by simp

end
