(* ===== verification/Lifecycle.thy ===== *)
theory Lifecycle
  imports Job
begin

text \<open>
  The interrupt-driven lifecycle of \<open>firmware/drivers/dma.c\<close> as a transition system. Events are
  the calls of the driver with their results, interleaved with the passage of time, with any
  register traffic outside the DMA window and with failures of the engine. The invariant ties
  the software state to the flags of the engine and to the request it executes; with it, the
  driver on top of the SoC implements the job machine of \<open>Job\<close>, durations and results included.
\<close>

section \<open>The concrete system\<close>

text \<open>The three query functions of the driver, called one after the other.\<close>

definition dma_queries :: "('h firmware_scheme, dma_state_t \<times> bool \<times> u32) state" where
  "dma_queries = do {
     st \<leftarrow> dma_state;
     complete \<leftarrow> dma_is_complete;
     latched \<leftarrow> dma_latched_error;
     State_Monad.return (st, complete, latched)
   }"

text \<open>
  One rule per entry point. A write into the DMA window is the driver's own business, and the
  engine breaks down only while it has a job.
\<close>

inductive fw_step :: "(nat \<Rightarrow> u8 list option) \<Rightarrow> 'h firmware_scheme \<Rightarrow> fw_event \<Rightarrow> 'h firmware_scheme \<Rightarrow> bool"
  for malloc where
  submit: "run_state (dma_submit src dst len irq) f = (rc, f') \<Longrightarrow> fw_step malloc f (Submit src dst len irq rc) f'"
| isr: "run_state (dma_isr line) f = (r, f') \<Longrightarrow> fw_step malloc f (Isr line) f'"
| recover: "run_state dma_recover f = (r, f') \<Longrightarrow> fw_step malloc f Recover f'"
| poll: "run_state dma_queries f = ((st, c, e), f') \<Longrightarrow> fw_step malloc f (Poll st c e) f'"
| elapse: "run_state (soc_host_step malloc n) f = (r, f') \<Longrightarrow> fw_step malloc f (Elapse n) f'"
| reg_read: "run_state (hal_read_reg a) f = (v, f') \<Longrightarrow> fw_step malloc f (Reg_Read a) f'"
| reg_write: "run_state (hal_write_reg a v) f = (r, f') \<Longrightarrow> \<not> dma_window a \<Longrightarrow> fw_step malloc f (Reg_Write a v) f'"
| inject: "run_state (vlab_test_dma_error code) f = (r, f') \<Longrightarrow> f_state f = DMA_S_ACTIVE \<Longrightarrow> code \<in> {1, 2, 3, 4} \<Longrightarrow>
    fw_step malloc f (Inject code) f'"

text \<open>
  The invariant: the driver is configured for the platform; outside a call the transient states
  are never seen; the engine is engaged (busy, done or failed) exactly in ACTIVE, and a busy engine
  executes a request that the platform allows; the completion flag and the error latch are set
  exactly in COMPLETE and ERROR; the latch holds a documented code.
\<close>

definition lifecycle :: "'h firmware_scheme \<Rightarrow> bool" where
  "lifecycle f \<longleftrightarrow> fw_vlab f \<and> f_state f \<notin> {DMA_S_STARTING, DMA_S_RECOVERY} \<and>
     (f_state f = DMA_S_ACTIVE \<longleftrightarrow> dma_engaged (s_dma (h_soc f))) \<and>
     (d_busy (s_dma (h_soc f)) \<longrightarrow> dma_req_check (s_dma (h_soc f)) = 0) \<and>
     f_done_flag f = (if f_state f = DMA_S_COMPLETE then 1 else 0) \<and>
     (f_err_latch f \<noteq> 0 \<longleftrightarrow> f_state f = DMA_S_ERROR) \<and> f_err_latch f \<in> {0, 1, 2, 3, 4}"

section \<open>The job of a state\<close>

definition dma_left :: "'m soc_dma_t \<Rightarrow> nat" where
  "dma_left d = (if d_busy d then max 1 (nat (d_remaining d)) else 0)"

definition job_of :: "'h firmware_scheme \<Rightarrow> job" where
  "job_of f = (let d = s_dma (h_soc f) in case f_state f of
       DMA_S_IDLE \<Rightarrow> Ready | DMA_S_STARTING \<Rightarrow> Ready
     | DMA_S_ACTIVE \<Rightarrow> if d_error d then Broken (d_err_code d) else Running (dma_left d)
     | DMA_S_COMPLETE \<Rightarrow> Finished | DMA_S_ERROR \<Rightarrow> Failed (f_err_latch f) | DMA_S_RECOVERY \<Rightarrow> Ready)"

text \<open>The duration of a request on the configured engine, at machine width.\<close>

definition job_ticks :: "'h firmware_scheme \<Rightarrow> u32 \<Rightarrow> nat" where
  "job_ticks f len = nat (dma_ticks (d_latency_per_word (s_dma (h_soc f))) (d_burst (s_dma (h_soc f))) len)"

definition healthy :: "(nat \<Rightarrow> u8 list option) \<Rightarrow> 'm soc_dma_t \<Rightarrow> bool" where
  "healthy malloc d \<longleftrightarrow> (\<forall>n \<le> 16384. malloc n \<noteq> None) \<and> \<not> d_fault_stuck_busy d \<and>
     (d_busy d \<longrightarrow> 0 < d_remaining d)"

section \<open>The engine under time\<close>

text \<open>A tick of an engine that executes an allowed request: it waits, counts, retries or completes.\<close>

lemma engine_tick_cases:
  assumes "soc_wf s" and "malloc_sound malloc" and "d_busy (s_dma s) \<longrightarrow> dma_req_check (s_dma s) = 0"
  obtains (still) "s_dma (soc_tick malloc s) = s_dma s" "\<not> dma_running (s_dma s)"
    | (down) "s_dma (soc_tick malloc s) = (s_dma s)\<lparr>d_remaining := d_remaining (s_dma s) - 1\<rparr>"
        "d_busy (s_dma s)" "1 < d_remaining (s_dma s)"
    | (again) "s_dma (soc_tick malloc s) = (s_dma s)\<lparr>d_remaining := d_remaining (s_dma s) - 1\<rparr>"
        "d_busy (s_dma s)" "d_remaining (s_dma s) \<le> 1" "malloc (dma_tmp_size (s_dma s)) = None"
    | (complete) "s_dma (soc_tick malloc s) = dma_finished (s_dma s) True" "d_busy (s_dma s)" "d_remaining (s_dma s) \<le> 1"
proof (cases rule: dma_step_cases [where d = "s_dma s" and malloc = malloc])
  case idle
  then show ?thesis using still soc_tick_no_dma(1) [of s malloc] by simp
next
  case count
  then show ?thesis using down soc_tick_running(1) [of s malloc] by (simp add: dma_running_def)
next
  case retry
  moreover have "dma_bound (s_dma s)"
    using assms(1) by (simp add: soc_wf_def)
  ultimately show ?thesis
    using again soc_tick_retry(1) [of s malloc] by (simp add: dma_running_def dma_bound_def)
next
  case (last rd wr tmp)
  then have busy: "d_busy (s_dma s)" and req: "vlab_transfer (d_src (s_dma s)) (d_dst (s_dma s)) (d_length (s_dma s))"
    using dma_check_bound(1) [OF assms(1)] assms(3) by (simp_all add: dma_running_def)
  then have "malloc (unat (d_length (s_dma s))) \<noteq> None"
    using last(5) by (auto simp: dma_tmp_size_def vlab_transfer_def in_vlab_sram_def split: if_split_asm)
  then show ?thesis
    using complete busy soc_tick_last(1) [OF assms(1) last(1,2) req assms(2)] last(2) by simp
qed

lemma engine_tick:
  assumes "soc_wf s" and "malloc_sound malloc" and "d_busy (s_dma s) \<longrightarrow> dma_req_check (s_dma s) = 0"
  defines "d \<equiv> s_dma s" and "d' \<equiv> s_dma (soc_tick malloc s)"
  shows "d_error d' = d_error d \<and> d_err_code d' = d_err_code d"
    and "d_busy d' \<longrightarrow> dma_req_check d' = 0"
    and "d_latency_per_word d' = d_latency_per_word d \<and> d_burst d' = d_burst d"
    and "dma_left d - 1 \<le> dma_left d' \<and> dma_left d' \<le> dma_left d"
    and "healthy malloc d \<Longrightarrow> healthy malloc d' \<and> dma_left d' = dma_left d - 1"
proof -
  note outcome = engine_tick_cases [OF assms(1-3), folded d_def d'_def]
  have wf: "dma_wf d"
    using assms(1) by (simp add: soc_wf_def d_def)
  have fits: "dma_tmp_size d \<le> 16384" if "d_busy d"
    using dma_check_bound(2) [OF assms(1)] assms(3) that by (simp add: d_def dma_tmp_size_def)
  have chk: "dma_req_check (d\<lparr>d_remaining := r\<rparr>) = dma_req_check d" for r
    by (simp add: dma_req_check_def)
  show "d_error d' = d_error d \<and> d_err_code d' = d_err_code d"
    using wf by (cases rule: outcome) (auto simp: dma_finished_def dma_wf_def)
  show "d_busy d' \<longrightarrow> dma_req_check d' = 0"
    using assms(3) by (cases rule: outcome) (auto simp: d_def [symmetric] chk dma_finished_def)
  show "d_latency_per_word d' = d_latency_per_word d \<and> d_burst d' = d_burst d"
    by (cases rule: outcome) (auto simp: dma_finished_def)
  show "dma_left d - 1 \<le> dma_left d' \<and> dma_left d' \<le> dma_left d"
    by (cases rule: outcome) (auto simp: dma_left_def dma_finished_def)
  show "healthy malloc d' \<and> dma_left d' = dma_left d - 1" if "healthy malloc d"
    using that fits by (cases rule: outcome) (auto simp: healthy_def dma_left_def dma_finished_def dma_running_def)
qed

lemma engine_ticks:
  assumes "soc_wf s" and "malloc_sound malloc" and "d_busy (s_dma s) \<longrightarrow> dma_req_check (s_dma s) = 0"
  defines "d \<equiv> s_dma s" and "d' k \<equiv> s_dma ((soc_tick malloc ^^ k) s)"
  shows "d_error (d' k) = d_error d \<and> d_err_code (d' k) = d_err_code d \<and>
    (d_busy (d' k) \<longrightarrow> dma_req_check (d' k) = 0) \<and>
    d_latency_per_word (d' k) = d_latency_per_word d \<and> d_burst (d' k) = d_burst d \<and>
    dma_left d - k \<le> dma_left (d' k) \<and> dma_left (d' k) \<le> dma_left d \<and>
    (healthy malloc d \<longrightarrow> healthy malloc (d' k) \<and> dma_left (d' k) = dma_left d - k)"
proof (induction k)
  case (Suc k)
  have wf: "soc_wf ((soc_tick malloc ^^ k) s)"
    by (rule soc_ticks_wf [OF assms(1,2)])
  have suc: "s_dma (soc_tick malloc ((soc_tick malloc ^^ k) s)) = d' (Suc k)"
    by (simp add: d'_def)
  note tick = engine_tick [OF wf assms(2), folded d'_def, unfolded suc]
  show ?case
    using Suc tick by auto
qed (use assms(3) in \<open>simp add: d_def d'_def\<close>)

section \<open>Each event keeps the invariant and follows the specification\<close>

text \<open>What every event is shown to do.\<close>

definition follows :: "(nat \<Rightarrow> u8 list option) \<Rightarrow> 'h firmware_scheme \<Rightarrow> fw_event \<Rightarrow> 'h firmware_scheme \<Rightarrow> bool" where
  "follows malloc f e f' \<longleftrightarrow> lifecycle f' \<and> job_ticks f' = job_ticks f \<and>
     (healthy malloc (s_dma (h_soc f)) \<longrightarrow> healthy malloc (s_dma (h_soc f'))) \<and>
     job_step (job_ticks f) (healthy malloc (s_dma (h_soc f))) (job_of f) e (job_of f')"

lemma fw_vlab_soc: "fw_vlab f \<Longrightarrow> soc_wf s \<Longrightarrow> fw_vlab (f\<lparr>h_soc := s\<rparr>)"
  by (simp add: fw_vlab_def host_ok_def)

lemma fw_vlab_fields [simp]:
  "fw_vlab (f\<lparr>h_irq_masked := k\<rparr>) = fw_vlab f" "fw_vlab (f\<lparr>f_state := st\<rparr>) = fw_vlab f"
  "fw_vlab (f\<lparr>f_done_flag := v\<rparr>) = fw_vlab f" "fw_vlab (f\<lparr>f_err_latch := v\<rparr>) = fw_vlab f"
  "fw_vlab (f\<lparr>f_irq_count := v\<rparr>) = fw_vlab f"
  by (simp_all add: fw_vlab_def host_ok_def)

lemma lifecycle_ok: "lifecycle f \<Longrightarrow> host_ok f" "lifecycle f \<Longrightarrow> soc_wf (h_soc f)" "lifecycle f \<Longrightarrow> fw_vlab f"
    "lifecycle f \<Longrightarrow> dma_wf (s_dma (h_soc f))"
  by (simp_all add: lifecycle_def fw_vlab_def host_ok_def soc_wf_def)

lemma lifecycle_mask [simp]:
  "lifecycle (f\<lparr>h_irq_masked := k\<rparr>) = lifecycle f" "job_of (f\<lparr>h_irq_masked := k\<rparr>) = job_of f"
  "lifecycle (f\<lparr>f_irq_count := n\<rparr>) = lifecycle f" "job_of (f\<lparr>f_irq_count := n\<rparr>) = job_of f"
  by (simp_all add: lifecycle_def job_of_def cong: dma_state_t.case_cong)

lemma job_ticks_fields [simp]:
  "job_ticks (f\<lparr>h_irq_masked := k\<rparr>) = job_ticks f" "job_ticks (f\<lparr>f_state := st\<rparr>) = job_ticks f"
  "job_ticks (f\<lparr>f_done_flag := v\<rparr>) = job_ticks f" "job_ticks (f\<lparr>f_err_latch := v\<rparr>) = job_ticks f"
  "job_ticks (f\<lparr>f_irq_count := v\<rparr>) = job_ticks f"
  by (simp_all add: job_ticks_def fun_eq_iff)

lemma job_ticks_soc:
  assumes "d_latency_per_word (s_dma s) = d_latency_per_word (s_dma (h_soc f))" "d_burst (s_dma s) = d_burst (s_dma (h_soc f))"
  shows "job_ticks (f\<lparr>h_soc := s\<rparr>) = job_ticks f"
  using assms by (simp add: job_ticks_def fun_eq_iff)

text \<open>Any change of the SoC around the engine.\<close>

lemma lifecycle_soc:
  assumes "lifecycle f" and "soc_wf s" and "s_dma s = s_dma (h_soc f)"
  shows "lifecycle (f\<lparr>h_soc := s\<rparr>)" and "job_of (f\<lparr>h_soc := s\<rparr>) = job_of f"
    and "job_ticks (f\<lparr>h_soc := s\<rparr>) = job_ticks f"
  using assms fw_vlab_soc [of f s]
  by (simp_all add: lifecycle_def job_of_def job_ticks_soc cong: dma_state_t.case_cong)

lemma dma_cleared_engine [simp]:
  "s_dma (dma_cleared s) = (s_dma s)\<lparr>d_done := False, d_error := False, d_err_code := 0\<rparr>"
  "s_sram (dma_cleared s) = s_sram s"
  by (simp_all add: dma_cleared_def)

lemma healthy_flags [simp]:
  "healthy malloc (d\<lparr>d_done := x\<rparr>) = healthy malloc d" "healthy malloc (d\<lparr>d_error := x\<rparr>) = healthy malloc d"
  "healthy malloc (d\<lparr>d_err_code := v\<rparr>) = healthy malloc d" "healthy malloc (d\<lparr>d_ctrl := v\<rparr>) = healthy malloc d"
  by (simp_all add: healthy_def)

text \<open>The engine right after an accepted request.\<close>

lemma program_engine:
  fixes irq :: bool
  assumes "soc_wf s" and "\<not> d_busy (s_dma s)" and "vlab_verdict src dst len = Inr ()"
  defines "d \<equiv> s_dma (dma_program s src dst len irq)"
  shows "d_busy d" and "\<not> d_error d" and "dma_req_check d = 0"
    and "d_latency_per_word d = d_latency_per_word (s_dma s)" and "d_burst d = d_burst (s_dma s)"
    and "d_fault_stuck_busy d = d_fault_stuck_busy (s_dma s)"
    and "d_remaining d = dma_ticks (d_latency_per_word (s_dma s)) (d_burst (s_dma s)) len"
proof -
  have chk: "dma_check (Some vlab_memory_map) (Some vlab_dma_periph_eps) vlab_dma_caps src dst len = 0"
    using assms(3) by (simp add: vlab_verdict_ok)
  have d: "d = (dma_started (dma_request (s_dma s) src dst len) irq)\<lparr>d_ctrl := ctrl_word irq\<rparr>"
    unfolding d_def dma_program_checked [OF assms(1,2) chk] by simp
  show "dma_req_check d = 0"
    using chk vlab_req_check [OF assms(1), of src dst len] by (simp add: d dma_req_check_def dma_started_def)
qed (simp_all add: d_def dma_program_checked [OF assms(1,2) assms(3) [unfolded vlab_verdict_ok]]
    dma_started_def dma_request_def)

lemma submit_follows:
  assumes "lifecycle f" and "run_state (dma_submit src dst len irq) f = (rc, f')"
  shows "follows malloc f (Submit src dst len irq rc) f'"
proof -
  let ?s = "dma_program (counted (h_soc f)) src dst len irq"
  note ok = lifecycle_ok [OF assms(1)]
  have c: "soc_wf (counted (h_soc f))"
    using ok(2) by (rule counted_wf)
  note run = assms(2) [unfolded dma_submit_run [OF ok(1)] fw_vlab_validate [OF ok(3)] vlab_verdict_check]
  have idle: "\<not> d_busy (s_dma (h_soc f))" and ready: "job_of f = Ready" if "f_state f = DMA_S_IDLE"
    using assms(1) that by (simp_all add: lifecycle_def dma_engaged_def job_of_def)
  consider (busy) "f_state f \<noteq> DMA_S_IDLE" | (no) e where "f_state f = DMA_S_IDLE" "vlab_verdict src dst len = Inl e"
    | (go) "f_state f = DMA_S_IDLE" "vlab_verdict src dst len = Inr ()"
    by (cases "vlab_verdict src dst len") auto
  then show ?thesis
  proof cases
    case busy
    then have "job_of f \<noteq> Ready"
      using assms(1) by (auto simp: lifecycle_def job_of_def Let_def split: dma_state_t.split)
    with busy run assms(1) show ?thesis
      by (auto simp: follows_def job_step.busy)
  next
    case no
    then have "f' = f\<lparr>h_soc := counted (h_soc f), h_irq_masked := h_irq_masked f AND 1\<rparr>" "rc = Inl e"
      using run idle by simp_all
    then show ?thesis
      using no ready lifecycle_soc [OF assms(1) c] by (simp add: follows_def job_step.reject)
  next
    case go
    then have f': "f' = f\<lparr>h_soc := ?s, h_irq_masked := h_irq_masked f AND 1, f_state := DMA_S_ACTIVE,
        f_done_flag := 0, f_err_latch := 0\<rparr>" "rc = Inr ()"
      using run idle by simp_all
    note d = program_engine [OF c _ go(2), simplified, OF idle [OF go(1)], of irq]
    have pos: "0 < dma_ticks (d_latency_per_word (s_dma (h_soc f))) (d_burst (s_dma (h_soc f))) len"
      using dma_ticks_range by (simp add: less_le_trans [OF zero_less_one])
    then have "job_of f' = Running (job_ticks f len)"
      by (simp add: f' job_of_def d dma_left_def job_ticks_def max_def)
    then show ?thesis
      using assms(1) ready [OF go(1)] go(2) d fw_vlab_soc [OF ok(3) dma_program_wf [OF c]] pos
      by (simp add: f' follows_def lifecycle_def dma_engaged_def healthy_def job_ticks_soc job_step.accept)
  qed
qed

lemma isr_early_follows:
  assumes "lifecycle f" and "\<not> d_done (s_dma (h_soc f))" and "\<not> d_error (s_dma (h_soc f))"
  shows "follows malloc f (Isr line) (f\<lparr>h_soc := dma_cleared (counted (h_soc f)), f_irq_count := n\<rparr>)"
proof -
  note ok = lifecycle_ok [OF assms(1)]
  have "s_dma (dma_cleared (counted (h_soc f))) = s_dma (h_soc f)"
    using assms(2,3) ok(4) by (cases "s_dma (h_soc f)") (simp add: dma_wf_def)
  note same = lifecycle_soc [OF assms(1) dma_cleared_wf [OF counted_wf [OF ok(2)]] this]
  have "f_state f = DMA_S_ACTIVE \<longleftrightarrow> d_busy (s_dma (h_soc f))"
    using assms by (simp add: lifecycle_def dma_engaged_def)
  then have "job_step dur live (job_of f) (Isr line) (job_of f)" for dur live
    using assms(3)
    by (cases "f_state f") (auto simp: job_of_def dma_left_def intro: job_step.early job_step.stray)
  with same show ?thesis
    by (simp add: follows_def)
qed

lemma isr_follows:
  assumes "lifecycle f" and "run_state (dma_isr line) f = (r, f')"
  shows "follows malloc f (Isr line) f'"
proof -
  note ok = lifecycle_ok [OF assms(1)]
  let ?d = "s_dma (h_soc f)"
  have wf: "fw_vlab (f\<lparr>h_soc := dma_cleared (counted (h_soc f))\<rparr>)"
      "fw_vlab (f\<lparr>h_soc := dma_cleared (counted (counted (h_soc f)))\<rparr>)"
    using ok(2,3) by (simp_all add: fw_vlab_soc dma_cleared_wf counted_wf)
  have active: "f_state f = DMA_S_ACTIVE \<longleftrightarrow> d_busy ?d \<or> d_done ?d \<or> d_error ?d"
    using assms(1) by (simp add: lifecycle_def dma_engaged_def)
  note run = assms(2) [unfolded dma_isr_run [OF ok(1)]]
  consider (fin) "d_done ?d" "\<not> d_busy ?d" "\<not> d_error ?d" | (err) "d_error ?d" "\<not> d_done ?d" "\<not> d_busy ?d"
    | (none) "\<not> d_done ?d" "\<not> d_error ?d"
    using ok(4) by (auto simp: dma_wf_def)
  then show ?thesis
  proof cases
    case fin
    then have "lifecycle f'" "job_of f' = Finished" "job_ticks f' = job_ticks f" "healthy malloc (s_dma (h_soc f')) = healthy malloc ?d"
      using run active assms(1) wf(1) by (auto simp: lifecycle_def dma_engaged_def job_of_def job_ticks_soc)
    moreover have "job_of f = Running 0"
      using fin active by (simp add: job_of_def dma_left_def)
    ultimately show ?thesis
      by (simp add: follows_def job_step.finish)
  next
    case err
    then have "d_err_code ?d \<in> {1, 2, 3, 4}"
      using ok(4) by (auto simp: dma_wf_def)
    moreover have "f' = f\<lparr>h_soc := dma_cleared (counted (counted (h_soc f))), f_state := DMA_S_ERROR,
        f_err_latch := d_err_code ?d, f_irq_count := f_irq_count f + 1\<rparr>"
      using run err by simp
    ultimately have "lifecycle f'" "job_of f' = Failed (d_err_code ?d)" "job_ticks f' = job_ticks f"
        "healthy malloc (s_dma (h_soc f')) = healthy malloc ?d"
      using err active assms(1) wf(2) by (auto simp: lifecycle_def dma_engaged_def job_of_def job_ticks_soc)
    moreover have "job_of f = Broken (d_err_code ?d)"
      using err active by (simp add: job_of_def)
    ultimately show ?thesis
      by (simp add: follows_def job_step.fail)
  next
    case none
    with run isr_early_follows [OF assms(1) none] show ?thesis
      by auto
  qed
qed

lemma recover_follows:
  assumes "lifecycle f" and "run_state dma_recover f = (r, f')"
  shows "follows malloc f Recover f'"
proof -
  note ok = lifecycle_ok [OF assms(1)]
  have wf: "fw_vlab (f\<lparr>h_soc := dma_cleared (h_soc f)\<rparr>)"
    using ok(2,3) by (simp add: fw_vlab_soc dma_cleared_wf)
  note run = assms(2) [unfolded dma_recover_run [OF ok(1)]]
  show ?thesis
  proof (cases "f_state f = DMA_S_ERROR \<or> f_state f = DMA_S_COMPLETE")
    case True
    then have "\<not> d_busy (s_dma (h_soc f))" "job_state (job_of f) \<in> {DMA_S_COMPLETE, DMA_S_ERROR}"
      using assms(1) by (auto simp: lifecycle_def dma_engaged_def job_of_def)
    with True run wf show ?thesis
      by (auto simp: follows_def lifecycle_def job_of_def dma_engaged_def job_ticks_soc job_step.recovered)
  next
    case False
    then have "f' = f\<lparr>h_irq_masked := h_irq_masked f AND 1\<rparr>" "job_state (job_of f) \<notin> {DMA_S_COMPLETE, DMA_S_ERROR}"
      using run by (auto simp: job_of_def Let_def split: dma_state_t.split)
    then show ?thesis
      using assms(1) by (simp add: follows_def job_step.ignored)
  qed
qed

lemma poll_follows:
  assumes "lifecycle f" and "run_state dma_queries f = ((st, c, e), f')"
  shows "follows malloc f (Poll st c e) f'"
proof -
  have "st = job_state (job_of f)" "c = (job_of f = Finished)" "e = job_error (job_of f)" "f' = f"
    using assms by (cases "f_state f"; auto simp: dma_queries_def dma_state_def dma_is_complete_def
        dma_latched_error_def job_of_def lifecycle_def Let_def)+
  then show ?thesis
    using assms(1) job_step.poll [of "job_ticks f" _ "job_of f"] by (simp add: follows_def)
qed

lemma elapse_follows:
  assumes "lifecycle f" and "malloc_sound malloc" and "run_state (soc_host_step malloc n) f = (r, f')"
  shows "follows malloc f (Elapse n) f'"
proof -
  note ok = lifecycle_ok [OF assms(1)]
  let ?d = "s_dma (h_soc f)"
  have f': "f' = f\<lparr>h_soc := soc_step malloc (h_soc f) n\<rparr>"
    using assms(3) ok(1) by (simp add: host_ok_def host_step_run)
  have "d_busy ?d \<longrightarrow> dma_req_check ?d = 0"
    using assms(1) by (simp add: lifecycle_def)
  note ticks = engine_ticks [OF ok(2) assms(2) this, of "unat n", folded soc_step_def]
  have life: "lifecycle f'" "job_ticks f' = job_ticks f"
    using assms(1) ticks fw_vlab_soc [OF ok(3) soc_step_wf [OF ok(2) assms(2)]]
    by (simp_all add: f' lifecycle_def job_ticks_soc)
  show ?thesis
  proof (cases "\<exists>k. job_of f = Running k")
    case True
    then have "f_state f = DMA_S_ACTIVE" "\<not> d_error ?d"
      by (auto simp: job_of_def Let_def split: dma_state_t.split_asm if_split_asm)
    then have "job_of f = Running (dma_left ?d)" "job_of f' = Running (dma_left (s_dma (h_soc f')))"
      using ticks by (simp_all add: job_of_def f')
    then show ?thesis
      using life ticks job_step.run [of "job_ticks f" _ "dma_left ?d" n]
      by (cases "healthy malloc ?d") (auto simp: follows_def f' intro: job_step.delay)
  next
    case False
    then have "job_of f' = job_of f"
      using ticks by (auto simp: job_of_def f' Let_def split: dma_state_t.split)
    then show ?thesis
      using life ticks False by (simp add: follows_def f' job_step.wait)
  qed
qed

lemma access_follows:
  assumes "lifecycle f"
  shows "run_state (hal_read_reg a) f = (v, f') \<Longrightarrow> follows malloc f (Reg_Read a) f'"
    and "run_state (hal_write_reg a w) f = (r, f') \<Longrightarrow> \<not> dma_window a \<Longrightarrow> follows malloc f (Reg_Write a w) f'"
proof -
  note ok = lifecycle_ok [OF assms]
  show "run_state (hal_read_reg a) f = (v, f') \<Longrightarrow> follows malloc f (Reg_Read a) f'"
    using lifecycle_soc [OF assms soc_read_wf [OF ok(2)], of a] ok(1)
    by (auto simp: hal_read_run host_ok_def follows_def job_step.look)
  show "run_state (hal_write_reg a w) f = (r, f') \<Longrightarrow> \<not> dma_window a \<Longrightarrow> follows malloc f (Reg_Write a w) f'"
    using lifecycle_soc [OF assms soc_write_wf [OF ok(2)], of a w] soc_write_dma_frame [OF ok(2), of a w] ok(1)
    by (auto simp: hal_write_run host_ok_def follows_def job_step.other)
qed

text \<open>The test hook that breaks the engine down, as the engine itself reports an error.\<close>

lemma test_dma_error_run:
  fixes f :: "'h host_scheme"
  assumes "host_ok f" and "code \<in> {1, 2, 3, 4}"
  defines "s \<equiv> h_soc f"
  defines "s' \<equiv> s\<lparr>s_dma := (s_dma s)\<lparr>d_busy := False, d_done := False, d_error := True, d_err_code := code\<rparr>,
    s_intc := (if bit (d_ctrl (s_dma s)) 1 then soc_intc_raise (s_intc s) 2 else s_intc s)\<rparr>"
  shows "run_state (vlab_test_dma_error code) f = ((), f\<lparr>h_soc := s'\<rparr>)" and "soc_wf s'"
proof -
  have wf: "soc_wf s"
    using assms(1) by (simp add: host_ok_def s_def)
  have "code \<noteq> 0"
    using assms(2) by auto
  then show "soc_wf s'"
    using wf assms(2) raise_wf [of "s_intc s" 2] by (simp add: s'_def soc_wf_def dma_wf_def dma_bound_def)
  show "run_state (vlab_test_dma_error code) f = ((), f\<lparr>h_soc := s'\<rparr>)"
    using assms(1) by (cases s) (simp add: vlab_test_dma_error_def host_ok_def Let_def s'_def s_def)
qed

lemma inject_follows:
  assumes "lifecycle f" and "run_state (vlab_test_dma_error code) f = (r, f')" and "f_state f = DMA_S_ACTIVE"
    and "code \<in> {1, 2, 3, 4}"
  shows "follows malloc f (Inject code) f'"
proof -
  note ok = lifecycle_ok [OF assms(1)]
  note run = test_dma_error_run [OF ok(1) assms(4)]
  note f' = assms(2) [unfolded run(1), simplified, THEN sym]
  have "lifecycle f'" "job_of f' = Broken code" "job_ticks f' = job_ticks f"
    using assms(1,3,4) fw_vlab_soc [OF ok(3) run(2)]
    by (simp_all add: f' lifecycle_def dma_engaged_def job_of_def job_ticks_soc)
  moreover have "job_state (job_of f) = DMA_S_ACTIVE"
    using assms(3) by (simp add: job_of_def Let_def)
  ultimately show ?thesis
    by (simp add: follows_def job_step.break f' healthy_def)
qed

lemma fw_step_follows:
  assumes "malloc_sound malloc" and "lifecycle f" and "fw_step malloc f e f'"
  shows "follows malloc f e f'"
  using assms(3)
proof cases
  case submit
  with submit_follows [OF assms(2)] show ?thesis by blast
next
  case isr
  with isr_follows [OF assms(2)] show ?thesis by blast
next
  case recover
  with recover_follows [OF assms(2)] show ?thesis by blast
next
  case poll
  with poll_follows [OF assms(2)] show ?thesis by blast
next
  case elapse
  with elapse_follows [OF assms(2,1)] show ?thesis by blast
next
  case reg_read
  with access_follows(1) [OF assms(2)] show ?thesis by blast
next
  case reg_write
  with access_follows(2) [OF assms(2)] show ?thesis by blast
next
  case inject
  with inject_follows [OF assms(2)] show ?thesis by blast
qed

interpretation dma_life: simulation "\<lambda>(f :: 'h firmware_scheme). fw_step malloc f" "job_step dur live"
  "\<lambda>f. malloc_sound malloc \<and> lifecycle f \<and> job_ticks f = dur \<and> (live \<longrightarrow> healthy malloc (s_dma (h_soc f)))" job_of
  for malloc dur live
proof unfold_locales
  fix c c' :: "'h firmware_scheme" and e
  assume good: "malloc_sound malloc \<and> lifecycle c \<and> job_ticks c = dur \<and> (live \<longrightarrow> healthy malloc (s_dma (h_soc c)))"
    and step: "fw_step malloc c e c'"
  from fw_step_follows [OF _ _ step] good have f: "follows malloc c e c'"
    by blast
  with good show "malloc_sound malloc \<and> lifecycle c' \<and> job_ticks c' = dur \<and> (live \<longrightarrow> healthy malloc (s_dma (h_soc c')))"
    by (auto simp: follows_def)
  from f good show "job_step dur live (job_of c) e (job_of c')"
    by (cases live) (auto simp: follows_def dest: job_step_live)
qed

lemma job_of_state: "lifecycle f \<Longrightarrow> job_state (job_of f) = f_state f"
  by (cases "f_state f") (simp_all add: job_of_def lifecycle_def Let_def)

text \<open>The interrupt mask survives every event.\<close>

lemma fw_step_mask:
  assumes "host_ok f" and "fw_step malloc f e f'"
  shows "h_irq_masked f' AND 1 = h_irq_masked f AND 1"
  using assms(2)
proof cases
  case submit
  then show ?thesis
    unfolding dma_submit_run [OF assms(1)] by (auto split: if_split_asm)
next
  case isr
  then show ?thesis
    unfolding dma_isr_run [OF assms(1)] by (auto split: if_split_asm)
next
  case recover
  then show ?thesis
    unfolding dma_recover_run [OF assms(1)] by (auto split: if_split_asm)
next
  case (inject code r)
  from inject(2) show ?thesis
    unfolding test_dma_error_run(1) [OF assms(1) inject(4)] by auto
qed (use assms(1) in \<open>auto simp: fw_run host_ok_def dma_queries_def dma_state_def dma_is_complete_def dma_latched_error_def\<close>)

lemma runs_mask:
  assumes "malloc_sound malloc"
  shows "runs (fw_step malloc) f es f' \<Longrightarrow> lifecycle f \<Longrightarrow> h_irq_masked f' AND 1 = h_irq_masked f AND 1"
proof (induction rule: runs.induct)
  case (more f e f1 es f2)
  then have "lifecycle f1"
    using fw_step_follows [OF assms] by (auto simp: follows_def)
  with more show ?case
    using fw_step_mask [OF lifecycle_ok(1)] by metis
qed simp

section \<open>Properties\<close>

text \<open>
  C3. The driver on the SoC implements the job machine. Whatever sequence of calls, interrupts,
  queries, delays, accesses to other devices and breakdowns of the engine happens, its results and
  its state are those of the abstract machine. A submission is accepted exactly when no job is
  pending and the request violates no platform rule, and otherwise answers with the error of the
  first rule violated, or BUSY. An accepted job runs for the documented time: exactly, if buffers can be
  allocated and the engine is not stuck, and never less in any case. Only the handler ends it, in
  Finished once the time is up and in Failed only after a breakdown; only a recovery leaves those;
  and the query functions report this state at every moment.
\<close>

theorem dma_lifecycle_refines:
  assumes "malloc_sound malloc" and "lifecycle f" and "runs (fw_step malloc) f es f'"
  shows "runs (job_step (job_ticks f) (healthy malloc (s_dma (h_soc f)))) (job_of f) es (job_of f')"
  using dma_life.runs_sim [OF assms(3)] assms(1,2) by blast

text \<open>
  C18. The invariant of the lifecycle, from the initial state of the driver through any run. The
  transient states STARTING and RECOVERY are never visible between calls; the engine is busy or
  holds an unhandled outcome exactly while the driver says ACTIVE; the completion flag is set
  exactly in COMPLETE and the error latch exactly in ERROR, with a documented code; ERROR is
  reached only in runs in which the engine broke down; and the critical sections leave the
  interrupt mask as it was.
\<close>

theorem dma_lifecycle_invariant:
  assumes "malloc_sound malloc" and "fw_vlab f" and "f_state f = DMA_S_IDLE" and "f_done_flag f = 0"
    and "f_err_latch f = 0" and "soc_dma_status (s_dma (h_soc f)) = 0" and "runs (fw_step malloc) f es f'"
  shows "f_state f' \<noteq> DMA_S_STARTING \<and> f_state f' \<noteq> DMA_S_RECOVERY \<and>
    (f_state f' = DMA_S_ACTIVE \<longleftrightarrow> soc_dma_status (s_dma (h_soc f')) \<noteq> 0) \<and>
    (f_state f' = DMA_S_COMPLETE \<longleftrightarrow> fst (run_state dma_is_complete f')) \<and>
    (f_state f' = DMA_S_ERROR \<longleftrightarrow> fst (run_state dma_latched_error f') \<in> {1, 2, 3, 4}) \<and>
    (f_state f' = DMA_S_ERROR \<longrightarrow> (\<exists>code. Inject code \<in> set es)) \<and>
    h_irq_masked f' AND 1 = h_irq_masked f AND 1 \<and> soc_wf (h_soc f')"
proof -
  have eng: "soc_dma_status d \<noteq> 0 \<longleftrightarrow> dma_engaged d" for d :: "dma_mem soc_dma_t"
    by (simp add: soc_dma_status_def Let_def dma_engaged_def)
  have life: "lifecycle f" and ready: "job_of f = Ready"
    using assms(2-6) eng [of "s_dma (h_soc f)"] by (simp_all add: lifecycle_def dma_engaged_def job_of_def)
  then have life': "lifecycle f'" and sim: "runs (job_step (job_ticks f) False) Ready es (job_of f')"
    using dma_life.runs_good [OF assms(7)] dma_life.runs_sim [OF assms(7), of "job_ticks f" False] assms(1) by auto
  have "\<exists>code. Inject code \<in> set es" if "f_state f' = DMA_S_ERROR"
    using job_fails_runs [OF sim] that by (auto simp: job_of_def)
  with life' show ?thesis
    using runs_mask [OF assms(1,7) life] lifecycle_ok(2) [OF life']
    unfolding eng by (auto simp: lifecycle_def dma_is_complete_def dma_latched_error_def)
qed

text \<open>
  C30. A job is never lost, and without the handler it never ends. Once a submission is
  accepted, any run in which \<open>dma_isr\<close> is not called leaves the driver in ACTIVE, whether the
  transfer has completed or not: recovery is ignored and every further submission is refused as
  BUSY. A transfer submitted with its interrupt disabled can therefore not be reaped through
  this interface.
\<close>

theorem dma_active_until_isr:
  assumes "malloc_sound malloc" and "lifecycle f" and "f_state f = DMA_S_ACTIVE"
    and "runs (fw_step malloc) f es f'" and "\<forall>l. Isr l \<notin> set es"
  shows "fst (run_state dma_state f') = DMA_S_ACTIVE \<and> \<not> fst (run_state dma_is_complete f') \<and>
    fst (run_state (dma_submit src dst len irq) f') = Inl VLAB_DMA_ERR_BUSY \<and>
    f_state (snd (run_state dma_recover f')) = DMA_S_ACTIVE"
proof -
  have life: "lifecycle f'"
    using dma_life.runs_good [OF assms(4)] assms(1,2) by blast
  have "runs (job_step (job_ticks f) False) (job_of f) es (job_of f')"
    using dma_life.runs_sim [OF assms(4), of "job_ticks f" False] assms(1,2) by blast
  from job_active_runs [OF this _ assms(5)] have "f_state f' = DMA_S_ACTIVE"
    using assms(2,3) life by (simp add: job_of_state)
  with life show ?thesis
    by (simp add: lifecycle_def dma_state_def dma_is_complete_def dma_submit_run [OF lifecycle_ok(1)]
        dma_recover_run [OF lifecycle_ok(1)])
qed

text \<open>Runs from the initialised firmware.\<close>

lemma fw_default_life: "lifecycle fw_default"
  using fw_default_vlab default_dma by (simp add: lifecycle_def dma_engaged_def)

lemma fw_step_exec:
  "fw_step malloc f (Submit src dst len irq (fst (run_state (dma_submit src dst len irq) f)))
     (snd (run_state (dma_submit src dst len irq) f))"
  "fw_step malloc f (Isr line) (snd (run_state (dma_isr line) f))"
  "fw_step malloc f Recover (snd (run_state dma_recover f))"
  "fw_step malloc f (Elapse n) (snd (run_state (soc_host_step malloc n) f))"
  by (rule fw_step.intros, rule surjective_pairing)+

lemma fw_default_verdict: "vlab_verdict 0x10000000 0x10000100 16 = Inr ()"
  unfolding vlab_verdict_ok vlab_check_zero by (simp add: vlab_transfer_def vlab_aligned_def in_vlab_sram_def)

lemma fw_default_submitted:
  defines "f \<equiv> snd (run_state (dma_submit 0x10000000 0x10000100 16 False) fw_default)"
  shows "lifecycle f" and "f_state f = DMA_S_ACTIVE"
proof -
  have "dma_check (Some vlab_memory_map) (Some vlab_dma_periph_eps) vlab_dma_caps 0x10000000 0x10000100 16 = 0"
    using fw_default_verdict by (simp add: vlab_verdict_ok)
  then show "f_state f = DMA_S_ACTIVE"
    using fw_vlab_validate [OF fw_default_vlab, of "0x10000000" "0x10000100" 16] default_dma(1)
    by (simp add: f_def dma_submit_run [OF lifecycle_ok(1) [OF fw_default_life]])
  show "lifecycle f"
    using fw_step_follows [OF malloc_total fw_default_life fw_step_exec(1)] by (simp add: f_def follows_def)
qed

theorem dma_active_until_isr_witness:
  "fst (run_state dma_state (snd (run_state dma_recover (snd (run_state (soc_host_step (\<lambda>n. Some (replicate n 0)) 100)
     (snd (run_state (dma_submit 0x10000000 0x10000100 16 False) fw_default))))))) = DMA_S_ACTIVE"
proof -
  let ?m = "\<lambda>n. Some (replicate n (0 :: u8))"
  let ?f = "snd (run_state (dma_submit 0x10000000 0x10000100 16 False) fw_default)"
  have "runs (fw_step ?m) ?f [Elapse 100, Recover] (snd (run_state dma_recover (snd (run_state (soc_host_step ?m 100) ?f))))"
    by ((rule runs.more, rule fw_step_exec)+, rule runs.stop)
  from dma_active_until_isr [OF malloc_total fw_default_submitted this] show ?thesis
    by simp
qed

theorem dma_lifecycle_refines_witness:
  "job_of (snd (run_state (dma_isr 2) (snd (run_state (soc_host_step (\<lambda>n. Some (replicate n 0)) 4)
     (snd (run_state (dma_submit 0x10000000 0x10000100 16 True) fw_default)))))) = Finished"
proof -
  let ?m = "\<lambda>n. Some (replicate n (0 :: u8))"
  let ?f1 = "snd (run_state (dma_submit 0x10000000 0x10000100 16 True) fw_default)"
  let ?f2 = "snd (run_state (soc_host_step ?m 4) ?f1)"
  have start: "job_of fw_default = Ready" "job_ticks fw_default 16 = 4" "healthy ?m (s_dma (h_soc fw_default))"
    using soc_default_dma by (simp_all add: job_of_def job_ticks_def dma_ticks_def i32_of_u32_def healthy_def
        soc_init_def Let_def soc_dma_init_def soc_config_default_def)
  have rc: "fst (run_state (dma_submit 0x10000000 0x10000100 16 True) fw_default) = Inr ()"
    using fw_vlab_validate [OF fw_default_vlab, unfolded vlab_verdict_check, of "0x10000000" "0x10000100" 16]
      fw_default_verdict default_dma(1)
    by (simp add: dma_submit_run [OF lifecycle_ok(1) [OF fw_default_life]])
  let ?es = "[Submit 0x10000000 0x10000100 16 True (Inr ()), Elapse 4, Isr 2]"
  have "runs (fw_step ?m) fw_default ?es (snd (run_state (dma_isr 2) ?f2))"
    unfolding rc [symmetric] by ((rule runs.more, rule fw_step_exec)+, rule runs.stop)
  from dma_lifecycle_refines [OF malloc_total fw_default_life this]
  have "runs (job_step (job_ticks fw_default) True) Ready ?es (job_of (snd (run_state (dma_isr 2) ?f2)))"
    using start by simp
  moreover have "runs (job_step (job_ticks fw_default) True) Ready ?es Finished"
    using start(2) fw_default_verdict by (auto simp: runs_simps job_step_simps)
  ultimately show ?thesis
    by (rule job_runs_unique)
qed

theorem dma_lifecycle_invariant_witness:
  "f_state (snd (run_state dma_recover (snd (run_state (dma_submit 0x10000000 0x10000100 16 True) fw_default))))
     \<notin> {DMA_S_STARTING, DMA_S_RECOVERY}"
proof -
  let ?m = "\<lambda>n. Some (replicate n (0 :: u8))"
  let ?f1 = "snd (run_state (dma_submit 0x10000000 0x10000100 16 True) fw_default)"
  have "runs (fw_step ?m) fw_default [Submit 0x10000000 0x10000100 16 True (fst (run_state (dma_submit 0x10000000 0x10000100 16 True) fw_default)), Recover] (snd (run_state dma_recover ?f1))"
    by ((rule runs.more, rule fw_step_exec)+, rule runs.stop)
  moreover have "soc_dma_status (s_dma (h_soc fw_default)) = 0"
    by (simp add: soc_init_def Let_def soc_dma_init_def soc_dma_status_def)
  ultimately show ?thesis
    using dma_lifecycle_invariant [OF malloc_total fw_default_vlab] by simp
qed

end
