(* ===== verification/Isr.thy ===== *)
theory Isr
  imports Lifecycle
begin

text \<open>
  The interrupt dispatcher of \<open>firmware/isr/isr.c\<close>. A handler pointer is a value of
  \<open>isr_handler_t\<close>: the one handler the firmware defines, or the code an application registers,
  which is an argument \<open>env\<close> of the dispatcher. The loop rereads \<open>s_n_lines\<close> on each round, as the
  code does, so a handler that reconfigures the dispatcher is covered; it ends because its
  counter grows towards a 32-bit bound.

  The locale \<open>isr_table\<close> says what the dispatcher relies on in the registered handlers; inside it
  the loop is shown to serve the pending and enabled lines once each, by priority, each round being
  the round of the specification \<open>isr_spec_round\<close>. It is interpreted on the table the firmware uses, with \<open>dma_isr\<close> on its line.
\<close>

definition VLAB_IRQ_COUNT :: u32 where [simp]: "VLAB_IRQ_COUNT = 3"
definition ISR_MAX_LINES :: u32 where [simp]: "ISR_MAX_LINES = 8"

datatype isr_handler_t = Dma_Isr | Handler nat

record isr_fw = firmware +
  v_vectors :: "isr_handler_t option list"
  v_n_lines :: u32
  v_dispatched :: u32

type_synonym 'h isr_env = "nat \<Rightarrow> u32 \<Rightarrow> ('h isr_fw_scheme, unit) state"

section \<open>Operations\<close>

definition isr_configure :: "u32 \<Rightarrow> ('h isr_fw_scheme, unit) state" where
  "isr_configure n_lines =
     (if n_lines = 0 \<or> n_lines > ISR_MAX_LINES then State_Monad.return ()
      else State_Monad.update (\<lambda>f. f\<lparr>v_n_lines := n_lines, v_vectors := replicate (unat ISR_MAX_LINES) None\<rparr>))"

definition isr_register :: "u32 \<Rightarrow> isr_handler_t option \<Rightarrow> ('h isr_fw_scheme, unit) state" where
  "isr_register line handler = State_Monad.update (\<lambda>f.
     if line < v_n_lines f then f\<lparr>v_vectors := (v_vectors f)[unat line := handler]\<rparr> else f)"

text \<open>The call through a handler pointer.\<close>

definition isr_call :: "'h isr_env \<Rightarrow> isr_handler_t \<Rightarrow> u32 \<Rightarrow> ('h isr_fw_scheme, unit) state" where
  "isr_call env h line = (case h of Dma_Isr \<Rightarrow> dma_isr line | Handler k \<Rightarrow> env k line)"

text \<open>The body of one round, for a line that was acknowledged.\<close>

definition isr_serve :: "'h isr_env \<Rightarrow> u32 \<Rightarrow> 'h isr_fw_scheme \<Rightarrow> 'h isr_fw_scheme" where
  "isr_serve env line f =
     (let f1 = (case v_vectors f ! unat line of None \<Rightarrow> f | Some h \<Rightarrow> snd (run_state (isr_call env h line) f));
          f2 = snd (run_state (hal_write_reg VLAB_INTC_CLEAR line) f1)
      in f2\<lparr>v_dispatched := v_dispatched f2 + 1\<rparr>)"

function isr_loop :: "'h isr_env \<Rightarrow> u32 \<Rightarrow> int \<Rightarrow> 'h isr_fw_scheme \<Rightarrow> int \<times> 'h isr_fw_scheme" where
  "isr_loop env i handled f =
     (if i < v_n_lines f then
        (case run_state (hal_read_reg VLAB_INTC_ACK) f of (line, f1) \<Rightarrow>
           if line = VLAB_IRQ_NONE \<or> line \<ge> v_n_lines f1 then (handled, f1)
           else isr_loop env (i + 1) (handled + 1) (isr_serve env line f1))
      else (handled, f))"
  by pat_completeness auto
termination
proof (relation "measure (\<lambda>(env, i, handled, f). 2 ^ 32 - unat i)")
  fix env :: "'h isr_env" and i :: u32 and handled :: int and f :: "'h isr_fw_scheme" and line f1 x
  assume "i < v_n_lines f"
  then have "unat (i + 1) = unat i + 1"
    using unat_u32_bound [of "v_n_lines f"] by (simp add: word_less_nat_alt unat_word_ariths)
  then show "((env, i + 1, handled + 1, isr_serve env line f1), (env, i, handled, f)) \<in>
      measure (\<lambda>(env, i, handled, f). 2 ^ 32 - unat i)"
    using unat_u32_bound [of i] by simp
qed simp

declare isr_loop.simps [simp del]

definition isr_dispatch :: "'h isr_env \<Rightarrow> ('h isr_fw_scheme, int) state" where
  "isr_dispatch env = State (isr_loop env 0 0)"

definition isr_dispatched_count :: "('h isr_fw_scheme, u32) state" where
  "isr_dispatched_count = do { f \<leftarrow> State_Monad.get; State_Monad.return (v_dispatched f) }"

text \<open>The invariant of the vector table: eight slots, between one and eight of them live.\<close>

definition isr_wf :: "'h isr_fw_scheme \<Rightarrow> bool" where
  "isr_wf f \<longleftrightarrow> length (v_vectors f) = 8 \<and> 0 < v_n_lines f \<and> v_n_lines f \<le> 8"

lemma isr_configure_wf [wf_intros]: "isr_wf f \<Longrightarrow> isr_wf (snd (run_state (isr_configure n) f))"
  by (auto simp: isr_configure_def isr_wf_def word_gt_0 not_less)

lemma isr_register_wf [wf_intros]: "isr_wf f \<Longrightarrow> isr_wf (snd (run_state (isr_register line h) f))"
  by (simp add: isr_register_def isr_wf_def)

section \<open>Acknowledging through the bus\<close>

lemma isr_ack_none:
  assumes "host_ok f" and "irq_order (s_intc (h_soc f)) = []"
  shows "run_state (hal_read_reg VLAB_INTC_ACK) f = (VLAB_IRQ_NONE, f\<lparr>h_soc := counted (h_soc f)\<rparr>)"
  using assms ack_none [OF assms(2), of "soc_perf_count_mem (s_perf (h_soc f))"]
  by (simp add: hal_read_run host_ok_def register_read_ack counted_def)

text \<open>The SoC after line \<open>l\<close> is acknowledged over the bus.\<close>

definition soc_acked :: "soc_t \<Rightarrow> nat \<Rightarrow> soc_t" where
  "soc_acked s l = s\<lparr>s_intc := intc_taken (s_intc s) l, s_perf := soc_perf_count_irq (soc_perf_count_mem (s_perf s))\<rparr>"

lemma isr_ack_some:
  assumes "host_ok f" and "irq_order (s_intc (h_soc f)) = l # ls"
  shows "run_state (hal_read_reg VLAB_INTC_ACK) f = (of_nat l, f\<lparr>h_soc := soc_acked (h_soc f) l\<rparr>)"
    and "irq_order (s_intc (soc_acked (h_soc f) l)) = ls" and "l < 3" and "soc_wf (soc_acked (h_soc f) l)"
proof -
  have r: "ic_perf (s_intc (h_soc f)) = SocRef"
    using assms(1) by (simp add: host_ok_def soc_wf_def intc_wf_def)
  note s = ack_some [OF assms(2) r]
  show "l < 3"
    using s(3) by (auto simp: irq_lines_def)
  show "irq_order (s_intc (soc_acked (h_soc f) l)) = ls"
    using s(2) by (simp add: soc_acked_def)
  show run: "run_state (hal_read_reg VLAB_INTC_ACK) f = (of_nat l, f\<lparr>h_soc := soc_acked (h_soc f) l\<rparr>)"
    using assms(1) s(1) [of "soc_perf_count_mem (s_perf (h_soc f))"]
    by (simp add: hal_read_run host_ok_def register_read_ack soc_acked_def)
  show "soc_wf (soc_acked (h_soc f) l)"
    using host_read_ok [OF assms(1), of VLAB_INTC_ACK] run by (simp add: host_ok_def)
qed

lemma isr_clear_run:
  "host_ok f \<Longrightarrow> run_state (hal_write_reg VLAB_INTC_CLEAR line) f = ((), f\<lparr>h_soc := (counted (h_soc f))
     \<lparr>s_intc := snd (soc_intc_write (s_intc (h_soc f)) 0xC line)\<rparr>\<rparr>)"
  by (simp add: hal_write_run host_ok_def register_write_values)

section \<open>What the dispatcher relies on\<close>

text \<open>
  What a handler of line \<open>l\<close> may do to what the dispatcher uses: it keeps the host and the vector
  table, raises and enables nothing, and touches the active bit of no other line.
\<close>

definition handler_frame :: "nat \<Rightarrow> 'h isr_fw_scheme \<Rightarrow> 'h isr_fw_scheme \<Rightarrow> bool" where
  "handler_frame l f f' \<longleftrightarrow> host_ok f' \<and> v_vectors f' = v_vectors f \<and> v_n_lines f' = v_n_lines f \<and>
     v_dispatched f' = v_dispatched f \<and>
     ic_pending (s_intc (h_soc f')) = ic_pending (s_intc (h_soc f)) \<and>
     ic_enable (s_intc (h_soc f')) = ic_enable (s_intc (h_soc f)) \<and>
     lines_of (ic_active (s_intc (h_soc f'))) - {l} = lines_of (ic_active (s_intc (h_soc f))) - {l}"

text \<open>One round for line \<open>l\<close>: acknowledge, call, clear, count.\<close>

definition isr_round :: "'h isr_env \<Rightarrow> nat \<Rightarrow> 'h isr_fw_scheme \<Rightarrow> 'h isr_fw_scheme" where
  "isr_round env l f = isr_serve env (of_nat l) (f\<lparr>h_soc := soc_acked (h_soc f) l\<rparr>)"

text \<open>
  The same round as a specification: the handler found in the table at the acknowledged line is
  called with that line, after the acknowledgement and before the line is cleared; nothing is
  called for a line without one.
\<close>

definition isr_spec_round ::
    "'h isr_env \<Rightarrow> isr_handler_t option list \<Rightarrow> nat \<Rightarrow> 'h isr_fw_scheme \<Rightarrow> 'h isr_fw_scheme" where
  "isr_spec_round env table l f =
     (let acked = f\<lparr>h_soc := soc_acked (h_soc f) l\<rparr>;
          handled = (case table ! l of
              None \<Rightarrow> acked
            | Some Dma_Isr \<Rightarrow> snd (run_state (dma_isr (of_nat l)) acked)
            | Some (Handler k) \<Rightarrow> snd (run_state (env k (of_nat l)) acked))
      in handled\<lparr>h_soc := (counted (h_soc handled))
           \<lparr>s_intc := snd (soc_intc_write (s_intc (h_soc handled)) SOC_INTC_CLEAR_OFF (of_nat l))\<rparr>,
         v_dispatched := v_dispatched handled + 1\<rparr>)"

lemma irq_order_cong:
  "ic_pending ic = ic_pending ic' \<Longrightarrow> ic_enable ic = ic_enable ic' \<Longrightarrow> irq_order ic = irq_order ic'"
  by (simp add: irq_order_def gated_def)

lemma soc_acked_simps [simp]:
  "s_dma (soc_acked s l) = s_dma s" "s_sram (soc_acked s l) = s_sram s" "s_uart (soc_acked s l) = s_uart s"
  "s_timer (soc_acked s l) = s_timer s" "s_intc (soc_acked s l) = intc_taken (s_intc s) l"
  by (simp_all add: soc_acked_def)

lemma clear_lines:
  assumes "l < 3"
  shows "lines_of (ic_active (snd (soc_intc_write ic 0xC (of_nat l)))) = lines_of (ic_active ic) - {l}"
    and "ic_pending (snd (soc_intc_write ic 0xC (of_nat l))) = ic_pending ic"
    and "ic_enable (snd (soc_intc_write ic 0xC (of_nat l))) = ic_enable ic"
proof -
  have "unat (of_nat l :: u32) = l" "(of_nat l :: u32) < 3"
    using assms by (simp_all add: unat_of_nat word_less_nat_alt)
  then show "lines_of (ic_active (snd (soc_intc_write ic 0xC (of_nat l)))) = lines_of (ic_active ic) - {l}"
    and "ic_pending (snd (soc_intc_write ic 0xC (of_nat l))) = ic_pending ic"
    and "ic_enable (snd (soc_intc_write ic 0xC (of_nat l))) = ic_enable ic"
    using assms by (simp_all add: clear_active [simplified])
qed

locale isr_table =
  fixes env :: "'h isr_env" and table :: "isr_handler_t option list"
  assumes frame: "l < 3 \<Longrightarrow> table ! l = Some h \<Longrightarrow> host_ok f \<Longrightarrow>
    handler_frame l f (snd (run_state (isr_call env h (of_nat l)) f))"
begin

lemma serve_eq:
  assumes "host_ok f" and "v_vectors f = table" and "l < 3"
  defines "f1 \<equiv> (case table ! l of None \<Rightarrow> f | Some h \<Rightarrow> snd (run_state (isr_call env h (of_nat l)) f))"
  shows "handler_frame l f f1" and "isr_serve env (of_nat l) f =
    f1\<lparr>h_soc := (counted (h_soc f1))\<lparr>s_intc := snd (soc_intc_write (s_intc (h_soc f1)) 0xC (of_nat l))\<rparr>,
      v_dispatched := v_dispatched f1 + 1\<rparr>"
proof -
  have ul: "unat (of_nat l :: u32) = l"
    using assms(3) by (simp add: unat_of_nat)
  show fr: "handler_frame l f f1"
    using frame [OF assms(3) _ assms(1)] assms(1) by (auto simp: f1_def handler_frame_def split: option.split)
  then have ok: "host_ok f1"
    by (simp add: handler_frame_def)
  show "isr_serve env (of_nat l) f =
      f1\<lparr>h_soc := (counted (h_soc f1))\<lparr>s_intc := snd (soc_intc_write (s_intc (h_soc f1)) 0xC (of_nat l))\<rparr>,
        v_dispatched := v_dispatched f1 + 1\<rparr>"
    by (simp add: isr_serve_def assms(2) ul isr_clear_run [OF ok, simplified] flip: f1_def)
qed

lemma serve_frame:
  assumes "host_ok f" and "v_vectors f = table" and "l < 3"
  defines "g \<equiv> isr_serve env (of_nat l) f"
  shows "host_ok g" and "v_vectors g = table" and "v_n_lines g = v_n_lines f"
    and "v_dispatched g = v_dispatched f + 1"
    and "ic_pending (s_intc (h_soc g)) = ic_pending (s_intc (h_soc f))"
    and "ic_enable (s_intc (h_soc g)) = ic_enable (s_intc (h_soc f))"
    and "lines_of (ic_active (s_intc (h_soc g))) = lines_of (ic_active (s_intc (h_soc f))) - {l}"
proof -
  define f1 where "f1 = (case table ! l of None \<Rightarrow> f | Some h \<Rightarrow> snd (run_state (isr_call env h (of_nat l)) f))"
  note fr = serve_eq(1) [OF assms(1-3), folded f1_def] and g = serve_eq(2) [OF assms(1-3), folded f1_def g_def]
  have ok: "host_ok f1"
    using fr by (simp add: handler_frame_def)
  have "host_ok (snd (run_state (hal_write_reg VLAB_INTC_CLEAR (of_nat l)) f1))"
    using ok by (rule host_write_ok)
  then show "host_ok g"
    by (simp add: g isr_clear_run [OF ok, simplified] host_ok_def)
  show "v_vectors g = table" "v_n_lines g = v_n_lines f" "v_dispatched g = v_dispatched f + 1"
      "ic_pending (s_intc (h_soc g)) = ic_pending (s_intc (h_soc f))"
      "ic_enable (s_intc (h_soc g)) = ic_enable (s_intc (h_soc f))"
      "lines_of (ic_active (s_intc (h_soc g))) = lines_of (ic_active (s_intc (h_soc f))) - {l}"
    using fr assms(2) by (simp_all add: g handler_frame_def clear_lines [OF assms(3)])
qed

lemma round_frame:
  assumes "host_ok f" and "v_vectors f = table" and "irq_order (s_intc (h_soc f)) = l # ls"
  defines "g \<equiv> isr_round env l f"
  shows "host_ok g" and "v_vectors g = table" and "v_n_lines g = v_n_lines f"
    and "v_dispatched g = v_dispatched f + 1" and "irq_order (s_intc (h_soc g)) = ls"
    and "lines_of (ic_pending (s_intc (h_soc g))) = lines_of (ic_pending (s_intc (h_soc f))) - {l}"
    and "lines_of (ic_active (s_intc (h_soc g))) = lines_of (ic_active (s_intc (h_soc f))) - {l}"
proof -
  note a = isr_ack_some [OF assms(1,3)]
  let ?f = "f\<lparr>h_soc := soc_acked (h_soc f) l\<rparr>"
  have ok: "host_ok ?f" "v_vectors ?f = table"
    using assms(1,2) a(4) by (simp_all add: host_ok_def)
  note s = serve_frame [OF ok a(3), folded isr_round_def, folded g_def]
  show "host_ok g" "v_vectors g = table" "v_n_lines g = v_n_lines f" "v_dispatched g = v_dispatched f + 1"
    using s by simp_all
  show "irq_order (s_intc (h_soc g)) = ls"
    using irq_order_cong [OF s(5,6)] a(2) by simp
  show "lines_of (ic_pending (s_intc (h_soc g))) = lines_of (ic_pending (s_intc (h_soc f))) - {l}"
    "lines_of (ic_active (s_intc (h_soc g))) = lines_of (ic_active (s_intc (h_soc f))) - {l}"
    using s(5,7) a(3) by (simp_all add: intc_taken_def)
qed

lemma rounds_frame:
  assumes "irq_order (s_intc (h_soc f)) = ls" and "host_ok f" and "v_vectors f = table"
  shows "host_ok (fold (isr_round env) ls f) \<and> v_vectors (fold (isr_round env) ls f) = table \<and>
    v_n_lines (fold (isr_round env) ls f) = v_n_lines f \<and>
    v_dispatched (fold (isr_round env) ls f) = v_dispatched f + of_nat (length ls) \<and>
    irq_order (s_intc (h_soc (fold (isr_round env) ls f))) = [] \<and>
    lines_of (ic_pending (s_intc (h_soc (fold (isr_round env) ls f)))) = lines_of (ic_pending (s_intc (h_soc f))) - set ls \<and>
    lines_of (ic_active (s_intc (h_soc (fold (isr_round env) ls f)))) = lines_of (ic_active (s_intc (h_soc f))) - set ls"
  using assms
proof (induction ls arbitrary: f)
  case (Cons l ls)
  note r = round_frame [OF Cons.prems(2,3,1)]
  from Cons.IH [OF r(5,1,2)] r(3,4,6,7) show ?case
    by auto
qed simp

text \<open>The rounds of the code are the rounds of the specification.\<close>

lemma round_spec:
  assumes "host_ok f" and "v_vectors f = table" and "irq_order (s_intc (h_soc f)) = l # ls"
  shows "isr_round env l f = isr_spec_round env table l f"
proof -
  note a = isr_ack_some [OF assms(1,3)]
  let ?f = "f\<lparr>h_soc := soc_acked (h_soc f) l\<rparr>"
  have ok: "host_ok ?f" "v_vectors ?f = table"
    using assms(1,2) a(4) by (simp_all add: host_ok_def)
  show ?thesis
    unfolding isr_round_def serve_eq(2) [OF ok a(3)] isr_spec_round_def Let_def isr_call_def
    by (simp split: option.split isr_handler_t.split)
qed

lemma rounds_spec:
  assumes "irq_order (s_intc (h_soc f)) = ls" and "host_ok f" and "v_vectors f = table"
  shows "fold (isr_round env) ls f = fold (isr_spec_round env table) ls f"
  using assms
proof (induction ls arbitrary: f)
  case (Cons l ls)
  note r = round_frame [OF Cons.prems(2,3,1)]
  from Cons.IH [OF r(5,1,2)] show ?case
    by (simp add: round_spec [OF Cons.prems(2,3,1)])
qed simp

lemma loop_rounds:
  assumes "irq_order (s_intc (h_soc f)) = ls" and "host_ok f" and "v_vectors f = table" and "3 \<le> v_n_lines f"
    and "unat i + length ls \<le> unat (v_n_lines f)"
  shows "isr_loop env i handled f = (handled + int (length ls),
    (let g = fold (isr_round env) ls f
     in if unat i + length ls < unat (v_n_lines f) then g\<lparr>h_soc := counted (h_soc g)\<rparr> else g))"
  using assms
proof (induction ls arbitrary: f i handled)
  case Nil
  then show ?case
    using isr_ack_none [OF Nil.prems(2,1)] by (simp add: isr_loop.simps [of env i] word_less_nat_alt Let_def)
next
  case (Cons l ls)
  note a = isr_ack_some [OF Cons.prems(2,1)]
  note r = round_frame [OF Cons.prems(2,3,1)]
  have lt: "i < v_n_lines f"
    using Cons.prems(5) by (simp add: word_less_nat_alt)
  have ul: "unat (of_nat l :: u32) = l"
    using a(3) by (simp add: unat_of_nat)
  have "\<not> v_n_lines f \<le> of_nat l" "(of_nat l :: u32) \<noteq> 0xFFFFFFFF"
    using Cons.prems(4) a(3) ul by (auto simp: word_le_nat_alt dest: arg_cong [where f = unat])
  with lt a(1) have step: "isr_loop env i handled f = isr_loop env (i + 1) (handled + 1) (isr_round env l f)"
    by (simp add: isr_loop.simps [of env i] isr_round_def)
  have ui: "unat (i + 1) = unat i + 1"
    using lt unat_u32_bound [of "v_n_lines f"] by (simp add: word_less_nat_alt unat_word_ariths)
  have "3 \<le> v_n_lines (isr_round env l f)" "unat (i + 1) + length ls \<le> unat (v_n_lines (isr_round env l f))"
    using r(3) Cons.prems(4,5) ui by simp_all
  from Cons.IH [OF r(5,1,2) this, of "handled + 1"] show ?case
    unfolding step using r(3) ui by simp
qed

lemma irq_order_short: "length (irq_order ic) \<le> 3"
  using length_filter_le [of "\<lambda>l. l \<in> gated ic" "[1, 2, 0]"] by (simp add: irq_order_def)

text \<open>The whole dispatch.\<close>

lemma dispatch_serves:
  assumes "host_ok f" and "v_vectors f = table" and "3 \<le> v_n_lines f"
  defines "ls \<equiv> irq_order (s_intc (h_soc f))"
  shows "run_state (isr_dispatch env) f = (int (length ls),
    (let g = fold (isr_round env) ls f
     in if length ls < unat (v_n_lines f) then g\<lparr>h_soc := counted (h_soc g)\<rparr> else g))"
proof -
  have "unat (0 :: u32) + length ls \<le> unat (v_n_lines f)"
    using assms(3) irq_order_short [of "s_intc (h_soc f)"] by (simp add: ls_def word_le_nat_alt)
  from loop_rounds [OF ls_def [THEN meta_eq_to_obj_eq, symmetric] assms(1-3) this, of 0] show ?thesis
    by (simp add: isr_dispatch_def)
qed

end

section \<open>The table of the firmware\<close>

definition vlab_table :: "isr_handler_t option list" where
  "vlab_table = (replicate 8 None)[2 := Some Dma_Isr]"

lemma vlab_table_nth [simp]:
  "vlab_table ! 0 = None" "vlab_table ! 1 = None" "vlab_table ! Suc 0 = None" "vlab_table ! 2 = Some Dma_Isr"
  by (simp_all add: vlab_table_def)

lemma dma_cleared_simps [simp]:
  "s_sram (dma_cleared s) = s_sram s" "s_intc (dma_cleared s) = snd (soc_intc_write (s_intc s) 0xC 2)"
  by (simp_all add: dma_cleared_def)

lemma dma_isr_frame:
  assumes "host_ok f"
  shows "handler_frame 2 f (snd (run_state (dma_isr 2) f))"
proof -
  have "soc_wf (dma_cleared (counted (h_soc f)))" "soc_wf (dma_cleared (counted (counted (h_soc f))))"
    using assms by (simp_all add: host_ok_def dma_cleared_wf counted_wf)
  then show ?thesis
    using assms clear_lines [of 2 "s_intc (h_soc f)"]
    by (simp add: dma_isr_run [OF assms] handler_frame_def host_ok_def)
qed

interpretation vlab_isr: isr_table env vlab_table for env
proof unfold_locales
  fix l h and f :: "'a isr_fw_scheme"
  assume h: "l < 3" "vlab_table ! l = Some h" "host_ok f"
  then consider "l = 0" | "l = 1" | "l = 2"
    by linarith
  then show "handler_frame l f (snd (run_state (isr_call env h (of_nat l)) f))"
    using h dma_isr_frame [of f] by cases (simp_all add: isr_call_def)
qed

text \<open>What the dispatcher can change of the driver and the engine, gathered.\<close>

definition fw_config :: "'h firmware_scheme \<Rightarrow> memory_region list option \<times> dma_caps option \<times> dma_periph_ep list option" where
  "fw_config f = (f_map f, f_caps f, f_periphs f)"

lemma fw_vlab_config:
  "fw_vlab f \<longleftrightarrow> host_ok f \<and> fw_config f = (Some vlab_memory_map, Some vlab_dma_caps, Some vlab_dma_periph_eps)"
  by (auto simp: fw_vlab_def fw_config_def)

text \<open>A round of a line without a handler leaves the DMA driver and the engine alone.\<close>

lemma round_unhandled:
  assumes "host_ok f" and "v_vectors f = vlab_table" and "irq_order (s_intc (h_soc f)) = l # ls" and "l \<noteq> 2"
  shows "s_dma (h_soc (isr_round env l f)) = s_dma (h_soc f)" and "s_sram (h_soc (isr_round env l f)) = s_sram (h_soc f)"
    and "f_state (isr_round env l f) = f_state f" and "f_done_flag (isr_round env l f) = f_done_flag f"
    and "f_err_latch (isr_round env l f) = f_err_latch f" and "f_irq_count (isr_round env l f) = f_irq_count f"
    and "fw_config (isr_round env l f) = fw_config f"
proof -
  note a = isr_ack_some [OF assms(1,3)]
  let ?f = "f\<lparr>h_soc := soc_acked (h_soc f) l\<rparr>"
  have ok: "host_ok ?f"
    using assms(1) a(4) by (simp add: host_ok_def)
  have "l = 0 \<or> l = 1"
    using a(3) assms(4) by linarith
  then have "unat (of_nat l :: u32) = l" "vlab_table ! l = None"
    by auto
  then have r: "isr_round env l f = ?f\<lparr>h_soc := (counted (h_soc ?f))
      \<lparr>s_intc := snd (soc_intc_write (s_intc (h_soc ?f)) 0xC (of_nat l))\<rparr>, v_dispatched := v_dispatched f + 1\<rparr>"
    by (simp add: isr_round_def isr_serve_def assms(2) isr_clear_run [OF ok, simplified])
  show "s_dma (h_soc (isr_round env l f)) = s_dma (h_soc f)" "s_sram (h_soc (isr_round env l f)) = s_sram (h_soc f)"
    "f_state (isr_round env l f) = f_state f" "f_done_flag (isr_round env l f) = f_done_flag f"
    "f_err_latch (isr_round env l f) = f_err_latch f" "f_irq_count (isr_round env l f) = f_irq_count f"
    "fw_config (isr_round env l f) = fw_config f"
    by (simp_all add: r fw_config_def)
qed

text \<open>The round of the DMA line, when the engine has ended a transfer one way or the other.\<close>

lemma round_dma:
  fixes f :: "'h isr_fw_scheme" and env :: "'h isr_env"
  assumes "host_ok f" and "v_vectors f = vlab_table" and "irq_order (s_intc (h_soc f)) = 2 # ls"
    and "d_done (s_dma (h_soc f)) \<or> d_error (s_dma (h_soc f))"
  defines "g \<equiv> isr_round env 2 f"
  shows "f_state g = (if d_done (s_dma (h_soc f)) then DMA_S_COMPLETE else DMA_S_ERROR)"
    and "f_done_flag g = (if d_done (s_dma (h_soc f)) then 1 else f_done_flag f)"
    and "f_err_latch g = (if d_done (s_dma (h_soc f)) then f_err_latch f else d_err_code (s_dma (h_soc f)))"
    and "s_sram (h_soc g) = s_sram (h_soc f)" and "f_irq_count g = f_irq_count f + 1"
    and "fw_config g = fw_config f"
    and "s_dma (h_soc g) = (s_dma (h_soc f))\<lparr>d_done := False, d_error := False, d_err_code := 0\<rparr>"
proof -
  note a = isr_ack_some [OF assms(1,3)]
  let ?f = "f\<lparr>h_soc := soc_acked (h_soc f) 2\<rparr>"
  have ok: "host_ok ?f"
    using assms(1) a(4) by (simp add: host_ok_def)
  let ?h = "snd (run_state (dma_isr 2) ?f)"
  have okh: "host_ok ?h"
    using dma_isr_frame [OF ok] by (simp add: handler_frame_def)
  have r: "g = ?h\<lparr>h_soc := (counted (h_soc ?h))
      \<lparr>s_intc := snd (soc_intc_write (s_intc (h_soc ?h)) 0xC 2)\<rparr>, v_dispatched := v_dispatched ?h + 1\<rparr>"
    using isr_clear_run [OF okh, of 2] by (simp add: g_def isr_round_def isr_serve_def assms(2) isr_call_def)
  have "?h = (if d_done (s_dma (h_soc f))
      then ?f\<lparr>h_soc := dma_cleared (counted (h_soc ?f)), f_state := DMA_S_COMPLETE, f_done_flag := 1,
        f_irq_count := f_irq_count f + 1\<rparr>
      else ?f\<lparr>h_soc := dma_cleared (counted (counted (h_soc ?f))), f_state := DMA_S_ERROR,
        f_err_latch := d_err_code (s_dma (h_soc f)), f_irq_count := f_irq_count f + 1\<rparr>)"
    using dma_isr_run [OF ok, of 2] assms(4) by auto
  note h = this
  show "f_state g = (if d_done (s_dma (h_soc f)) then DMA_S_COMPLETE else DMA_S_ERROR)"
    "f_done_flag g = (if d_done (s_dma (h_soc f)) then 1 else f_done_flag f)"
    "f_err_latch g = (if d_done (s_dma (h_soc f)) then f_err_latch f else d_err_code (s_dma (h_soc f)))"
    "s_sram (h_soc g) = s_sram (h_soc f)" "f_irq_count g = f_irq_count f + 1"
    "fw_config g = fw_config f"
    "s_dma (h_soc g) = (s_dma (h_soc f))\<lparr>d_done := False, d_error := False, d_err_code := 0\<rparr>"
    unfolding r unfolding h by (simp_all add: fw_config_def dma_cleared_def)
qed

lemma rounds_unhandled:
  fixes f :: "'h isr_fw_scheme" and env :: "'h isr_env" and xs :: "nat list"
  assumes "irq_order (s_intc (h_soc f)) = xs @ ys" and "host_ok f" and "v_vectors f = vlab_table" and "2 \<notin> set xs"
  defines "g \<equiv> fold (isr_round env) xs f"
  shows "s_dma (h_soc g) = s_dma (h_soc f) \<and> s_sram (h_soc g) = s_sram (h_soc f) \<and> f_state g = f_state f \<and>
    f_done_flag g = f_done_flag f \<and> f_err_latch g = f_err_latch f \<and> f_irq_count g = f_irq_count f \<and>
    fw_config g = fw_config f \<and> host_ok g \<and> v_vectors g = vlab_table \<and> irq_order (s_intc (h_soc g)) = ys"
  using assms(1-4) unfolding g_def
proof (induction xs arbitrary: f)
  case (Cons l xs)
  have ord: "irq_order (s_intc (h_soc f)) = l # (xs @ ys)"
    using Cons.prems(1) by simp
  note r = vlab_isr.round_frame [OF Cons.prems(2,3) ord, of env]
  have "l \<noteq> 2" "2 \<notin> set xs"
    using Cons.prems(4) by auto
  note u = round_unhandled [OF Cons.prems(2,3) ord this(1), of env]
  from Cons.IH [OF r(5) r(1,2) \<open>2 \<notin> set xs\<close>] show ?case
    by (simp add: u)
qed simp

text \<open>Dispatching an ended transfer, whatever other lines are pending.\<close>

lemma dispatch_dma:
  fixes f :: "'h isr_fw_scheme" and env :: "'h isr_env"
  assumes "host_ok f" and "v_vectors f = vlab_table" and "3 \<le> v_n_lines f"
    and "2 \<in> gated (s_intc (h_soc f))" and "d_done (s_dma (h_soc f)) \<or> d_error (s_dma (h_soc f))"
  defines "g \<equiv> snd (run_state (isr_dispatch env) f)"
  shows "f_state g = (if d_done (s_dma (h_soc f)) then DMA_S_COMPLETE else DMA_S_ERROR)"
    and "f_done_flag g = (if d_done (s_dma (h_soc f)) then 1 else f_done_flag f)"
    and "f_err_latch g = (if d_done (s_dma (h_soc f)) then f_err_latch f else d_err_code (s_dma (h_soc f)))"
    and "s_sram (h_soc g) = s_sram (h_soc f)" and "f_irq_count g = f_irq_count f + 1"
    and "fw_config g = fw_config f" and "host_ok g"
    and "s_dma (h_soc g) = (s_dma (h_soc f))\<lparr>d_done := False, d_error := False, d_err_code := 0\<rparr>"
    and "2 \<notin> lines_of (ic_pending (s_intc (h_soc g)))" and "2 \<notin> lines_of (ic_active (s_intc (h_soc g)))"
proof -
  obtain xs ys where ord: "irq_order (s_intc (h_soc f)) = xs @ 2 # ys"
    using assms(4) split_list [of 2 "irq_order (s_intc (h_soc f))"] by auto
  then have n2: "2 \<notin> set xs" "2 \<notin> set ys"
    using distinct_irq_order [of "s_intc (h_soc f)"] by simp_all
  let ?a = "fold (isr_round env) xs f"
  note A = rounds_unhandled [OF ord assms(1,2) n2(1), of env]
  let ?b = "isr_round env 2 ?a" and ?h = "fold (isr_round env) ys (isr_round env 2 (fold (isr_round env) xs f))"
  have okA: "host_ok ?a" "v_vectors ?a = vlab_table" "irq_order (s_intc (h_soc ?a)) = 2 # ys"
      "d_done (s_dma (h_soc ?a)) \<or> d_error (s_dma (h_soc ?a))"
    using A assms(5) by simp_all
  note B = round_dma [OF okA, of env] and Bf = vlab_isr.round_frame [OF okA(1-3), of env]
  have ordB: "irq_order (s_intc (h_soc ?b)) = ys @ []"
    using Bf(5) by simp
  note C = rounds_unhandled [OF ordB Bf(1,2) n2(2), of env]
  have "fold (isr_round env) (irq_order (s_intc (h_soc f))) f = fold (isr_round env) ys ?b"
    by (simp add: ord)
  then have g: "g = ?h \<or> g = ?h\<lparr>h_soc := counted (h_soc ?h)\<rparr>"
    using vlab_isr.dispatch_serves [OF assms(1-3), of env] by (simp add: g_def Let_def)
  have ok: "host_ok ?h" "host_ok (?h\<lparr>h_soc := counted (h_soc ?h)\<rparr>)"
    using C by (simp_all add: host_ok_def counted_wf)
  have G: "f_state g = f_state ?h" "f_done_flag g = f_done_flag ?h" "f_err_latch g = f_err_latch ?h"
      "s_sram (h_soc g) = s_sram (h_soc ?h)" "f_irq_count g = f_irq_count ?h" "fw_config g = fw_config ?h"
      "s_dma (h_soc g) = s_dma (h_soc ?h)" "s_intc (h_soc g) = s_intc (h_soc ?h)"
    using g by (auto simp: fw_config_def)
  show "f_state g = (if d_done (s_dma (h_soc f)) then DMA_S_COMPLETE else DMA_S_ERROR)"
    "f_done_flag g = (if d_done (s_dma (h_soc f)) then 1 else f_done_flag f)"
    "f_err_latch g = (if d_done (s_dma (h_soc f)) then f_err_latch f else d_err_code (s_dma (h_soc f)))"
    "s_sram (h_soc g) = s_sram (h_soc f)" "f_irq_count g = f_irq_count f + 1"
    "fw_config g = fw_config f"
    "s_dma (h_soc g) = (s_dma (h_soc f))\<lparr>d_done := False, d_error := False, d_err_code := 0\<rparr>"
    using A B C by (simp_all add: G)
  have h: "?h = fold (isr_round env) (irq_order (s_intc (h_soc f))) f"
    by (simp add: ord)
  show "2 \<notin> lines_of (ic_pending (s_intc (h_soc g)))" "2 \<notin> lines_of (ic_active (s_intc (h_soc g)))"
    using vlab_isr.rounds_frame [OF refl assms(1,2), of env] assms(4) unfolding G(8) h by auto
  show "host_ok g"
    using g ok by blast
qed

section \<open>Properties\<close>

text \<open>
  C7. Dispatching. With at least the three lines of the controller configured and handlers that
  respect \<open>handler_frame\<close> (they raise and enable nothing, keep the vector table and touch no other
  line), one call takes the lines that are pending and enabled, once each, in the order TIMER,
  DMA, UART, and for each of them acknowledges it, calls the handler registered for it with its
  number (none for a line without a handler), clears it and counts it (\<open>isr_spec_round\<close>); it
  returns their number, and reads a further acknowledgement only if the bound allows it.
  Afterwards no such line is left pending, none of them is active, and no other line changed.
\<close>

theorem isr_dispatch_order:
  fixes f :: "'h isr_fw_scheme" and env :: "'h isr_env"
  assumes "host_ok f" and "3 \<le> v_n_lines f"
    and "\<And>l h g. l < 3 \<Longrightarrow> v_vectors f ! l = Some h \<Longrightarrow> host_ok g \<Longrightarrow>
      handler_frame l g (snd (run_state (isr_call env h (of_nat l)) g))"
    and "order = filter (\<lambda>l. l \<in> gated (s_intc (h_soc f))) [1, 2, 0]"
    and "run_state (isr_dispatch env) f = (handled, f')"
  shows "handled = int (length order) \<and>
    f' = (let g = fold (isr_spec_round env (v_vectors f)) order f
          in if length order < unat (v_n_lines f) then g\<lparr>h_soc := counted (h_soc g)\<rparr> else g) \<and>
    gated (s_intc (h_soc f')) = {} \<and>
    lines_of (ic_pending (s_intc (h_soc f'))) = lines_of (ic_pending (s_intc (h_soc f))) - set order \<and>
    lines_of (ic_active (s_intc (h_soc f'))) = lines_of (ic_active (s_intc (h_soc f))) - set order \<and>
    v_dispatched f' = v_dispatched f + of_nat (length order) \<and> host_ok f'"
proof -
  have tab: "isr_table env (v_vectors f)"
    using assms(3) by unfold_locales
  have ord: "irq_order (s_intc (h_soc f)) = order"
    by (simp add: assms(4) irq_order_def)
  let ?g = "fold (isr_spec_round env (v_vectors f)) order f"
  note spec = isr_table.rounds_spec [OF tab ord assms(1) refl]
  note fr = isr_table.rounds_frame [OF tab ord assms(1) refl, unfolded spec]
  have run: "handled = int (length order)"
      "f' = (let g = ?g in if length order < unat (v_n_lines f) then g\<lparr>h_soc := counted (h_soc g)\<rparr> else g)"
    using isr_table.dispatch_serves [OF tab assms(1) refl assms(2)] assms(5) unfolding ord spec by simp_all
  have "s_intc (h_soc f') = s_intc (h_soc ?g)" "v_dispatched f' = v_dispatched ?g" "host_ok f'"
    using fr by (simp_all add: run(2) Let_def host_counted_ok)
  moreover have "gated (s_intc (h_soc ?g)) = {}"
    using fr by (simp flip: set_irq_order)
  ultimately show ?thesis
    using fr run by simp
qed

text \<open>
  C31. A stray line. If the platform configures fewer lines than the controller has and the
  highest pending line is not among them, the dispatcher acknowledges it and stops: it returns
  0, calls no handler and does not clear the line, which has moved from pending to active and
  stays there.
\<close>

theorem isr_stray_line:
  assumes "host_ok f" and "0 < v_n_lines f" and "irq_order (s_intc (h_soc f)) = l # ls"
    and "v_n_lines f \<le> of_nat l"
  shows "run_state (isr_dispatch env) f = (0, f\<lparr>h_soc := soc_acked (h_soc f) l\<rparr>) \<and>
    l \<in> lines_of (ic_active (s_intc (soc_acked (h_soc f) l))) \<and>
    l \<notin> lines_of (ic_pending (s_intc (soc_acked (h_soc f) l)))"
proof -
  note a = isr_ack_some [OF assms(1,3)]
  have "isr_loop env 0 0 f = (0, f\<lparr>h_soc := soc_acked (h_soc f) l\<rparr>)"
    using a(1) assms(2,4) by (simp add: isr_loop.simps)
  then show ?thesis
    using a(3) by (simp add: isr_dispatch_def intc_taken_def)
qed

lemma soc_tick_enable [simp]: "ic_enable (s_intc (soc_tick malloc s)) = ic_enable (s_intc s)"
proof (rule soc_tick_cases [of s malloc])
  fix u ic1 t ic2 d ic3 p u' sram
  assume h: "soc_uart_step (s_uart s) (s_intc s) = (u, ic1)" "soc_timer_step (s_timer s) ic1 = (t, ic2)"
    "soc_dma_step malloc (s_dma s) ic2 (soc_perf_tick (s_perf s)) (u, s_sram s) = (d, ic3, p, (u', sram))"
    "soc_tick malloc s = s\<lparr>s_ticks := s_ticks s + 1, s_perf := p, s_uart := u', s_timer := t,
       s_dma := d, s_intc := ic3, s_sram := sram\<rparr>"
  have "ic_enable (snd (soc_uart_step (s_uart s) (s_intc s))) = ic_enable (s_intc s)"
      "ic_enable (snd (soc_timer_step (s_timer s) ic1)) = ic_enable ic1"
    by (simp_all add: soc_uart_step_def soc_timer_step_def Let_def)
  moreover have "ic_enable ic3 = ic_enable ic2"
    using dma_step_outcomes(2) [OF h(3)] by (auto simp: dma_signal_def)
  ultimately show ?thesis
    by (simp add: h)
qed

lemma soc_ticks_enable [simp]: "ic_enable (s_intc ((soc_tick malloc ^^ k) s)) = ic_enable (s_intc s)"
  by (induction k) simp_all

text \<open>A memory-to-memory job from its submission to the tick at which it is done.\<close>

lemma ram_job_done:
  fixes f :: "'h firmware_scheme"
  assumes "malloc_sound malloc" and "malloc (unat len) \<noteq> None"
    and "lifecycle f" and "f_state f = DMA_S_IDLE" and "\<not> d_fault_stuck_busy (s_dma (h_soc f))"
    and "2 \<in> lines_of (ic_enable (s_intc (h_soc f)))"
    and "in_vlab_sram src len" and "in_vlab_sram dst len" and "vlab_aligned src dst len" and "unat len \<le> 16384"
    and "T = dma_words len * unat (d_latency_per_word (s_dma (h_soc f))) +
      (dma_bursts (d_burst (s_dma (h_soc f))) len - 1)"
    and "T < 2 ^ 31" and "dma_words len + unat (d_burst (s_dma (h_soc f))) \<le> 2 ^ 32"
  obtains f0 s1 where "run_state (dma_submit src dst len True) f = (Inr (), f0)"
    and "run_state (soc_host_step malloc (of_nat T)) f0 = ((), f\<lparr>h_soc := s1, h_irq_masked := h_irq_masked f AND 1,
      f_state := DMA_S_ACTIVE, f_done_flag := 0, f_err_latch := 0\<rparr>)"
    and "soc_wf s1" "d_done (s_dma s1)" "2 \<in> gated (s_intc s1)"
    and "m_bytes (s_sram s1) = blit (m_bytes (s_sram (h_soc f))) (unat dst - 0x10000000)
      (bytes_at (m_bytes (s_sram (h_soc f))) (unat src - 0x10000000) (unat len))"
proof -
  note ok = lifecycle_ok [OF assms(3)]
  let ?c = "counted (h_soc f)"
  let ?s0 = "dma_program ?c src dst len True"
  let ?s1 = "(soc_tick malloc ^^ T) ?s0"
  have c: "soc_wf ?c"
    using ok(2) by (rule counted_wf)
  have idle: "\<not> d_busy (s_dma ?c)" "\<not> d_fault_stuck_busy (s_dma ?c)"
    using assms(3-5) by (auto simp: lifecycle_def dma_engaged_def)
  have tr: "vlab_transfer src dst len"
    using assms(7,8) by (simp add: vlab_transfer_def)
  have "dma_check (Some vlab_memory_map) (Some vlab_dma_periph_eps) vlab_dma_caps src dst len = 0"
    unfolding vlab_check_zero using assms(9,10) tr by simp
  then have sub: "run_state (dma_submit src dst len True) f = (Inr (), f\<lparr>h_soc := ?s0,
      h_irq_masked := h_irq_masked f AND 1, f_state := DMA_S_ACTIVE, f_done_flag := 0, f_err_latch := 0\<rparr>)"
    using assms(4) idle by (simp add: dma_submit_run [OF ok(1)] fw_vlab_validate [OF ok(3)])
  have T: "T = dma_words len * unat (d_latency_per_word (s_dma ?c)) + (dma_bursts (d_burst (s_dma ?c)) len - 1)"
    "dma_words len + unat (d_burst (s_dma ?c)) \<le> 2 ^ 32"
    using assms(11,13) by simp_all
  have uT: "unat (of_nat T :: u32) = T"
    using assms(12) by (simp add: unat_of_nat)
  note R = ram_transfer_run [OF c idle assms(7-10) T(1) assms(12) T(2) assms(1,2) refl, of True]
  have "ic_enable (s_intc ?s0) = ic_enable (s_intc (h_soc f))"
    using dma_program_accepted(1) [OF c idle assms(10,9) tr T(2), folded T(1), OF assms(12), of True] by simp
  then have "d_done (s_dma ?s1)" "2 \<in> gated (s_intc ?s1)"
    using R assms(6) status_bits(2) [of "s_dma ?s1"] by (simp_all add: gated_def irq_lines_def)
  moreover have "run_state (soc_host_step malloc (of_nat T)) (f\<lparr>h_soc := ?s0, h_irq_masked := h_irq_masked f AND 1,
      f_state := DMA_S_ACTIVE, f_done_flag := 0, f_err_latch := 0\<rparr>) = ((), f\<lparr>h_soc := ?s1,
      h_irq_masked := h_irq_masked f AND 1, f_state := DMA_S_ACTIVE, f_done_flag := 0, f_err_latch := 0\<rparr>)"
    using ok(1) by (simp add: host_ok_def host_step_run soc_step_def uT)
  ultimately show thesis
    using that [OF sub] R by simp
qed

text \<open>
  C2. An interrupt-driven transfer from the call to the completion flag. With the driver idle,
  its handler registered and its line enabled, submitting a valid memory-to-memory request,
  letting the documented number of ticks pass and dispatching once reports success, ends in
  COMPLETE with the completion flag set and one more interrupt counted, the destination holds
  the source bytes, and the flags are clear: STATUS and ERR_CODE of the engine read 0 and the
  DMA line is neither pending nor active; whatever the UART and the timer do, and whichever of
  their interrupts are served in the same call. The duration must be below 2^31 and the sum
  \<open>words + burst - 1\<close> must not wrap.
\<close>

theorem dma_interrupt_transfer:
  fixes f :: "'h isr_fw_scheme" and env :: "'h isr_env"
  assumes "malloc_sound malloc" and "malloc (unat len) \<noteq> None"
    and "lifecycle f" and "f_state f = DMA_S_IDLE" and "\<not> d_fault_stuck_busy (s_dma (h_soc f))"
    and "v_vectors f = vlab_table" and "3 \<le> v_n_lines f" and "2 \<in> lines_of (ic_enable (s_intc (h_soc f)))"
    and "in_vlab_sram src len" and "in_vlab_sram dst len" and "vlab_aligned src dst len" and "unat len \<le> 16384"
    and "T = dma_words len * unat (d_latency_per_word (s_dma (h_soc f))) +
      (dma_bursts (d_burst (s_dma (h_soc f))) len - 1)"
    and "T < 2 ^ 31" and "dma_words len + unat (d_burst (s_dma (h_soc f))) \<le> 2 ^ 32"
  shows "case run_state (do {
      rc \<leftarrow> dma_submit src dst len True;
      soc_host_step malloc (of_nat T);
      handled \<leftarrow> isr_dispatch env;
      st \<leftarrow> dma_state;
      complete \<leftarrow> dma_is_complete;
      n \<leftarrow> dma_irq_count;
      State_Monad.return (rc, st, complete, n)
    }) f of (result, f') \<Rightarrow>
      result = (Inr (), DMA_S_COMPLETE, True, f_irq_count f + 1) \<and>
      m_bytes (s_sram (h_soc f')) = blit (m_bytes (s_sram (h_soc f))) (unat dst - 0x10000000)
        (bytes_at (m_bytes (s_sram (h_soc f))) (unat src - 0x10000000) (unat len)) \<and>
      soc_dma_status (s_dma (h_soc f')) = 0 \<and> d_err_code (s_dma (h_soc f')) = SOC_DMA_ERR_NONE \<and>
      2 \<notin> lines_of (ic_pending (s_intc (h_soc f'))) \<and> 2 \<notin> lines_of (ic_active (s_intc (h_soc f')))"
proof -
  obtain f0 s1 where J: "run_state (dma_submit src dst len True) f = (Inr (), f0)"
      "run_state (soc_host_step malloc (of_nat T)) f0 = ((), f\<lparr>h_soc := s1, h_irq_masked := h_irq_masked f AND 1,
        f_state := DMA_S_ACTIVE, f_done_flag := 0, f_err_latch := 0\<rparr>)" (is "_ = ((), ?f1)")
    and s1: "soc_wf s1" "d_done (s_dma s1)" "2 \<in> gated (s_intc s1)"
      "m_bytes (s_sram s1) = blit (m_bytes (s_sram (h_soc f))) (unat dst - 0x10000000)
        (bytes_at (m_bytes (s_sram (h_soc f))) (unat src - 0x10000000) (unat len))"
    by (rule ram_job_done [OF assms(1-5,8-15)])
  have "host_ok ?f1" "v_vectors ?f1 = vlab_table" "3 \<le> v_n_lines ?f1"
    using lifecycle_ok(1) [OF assms(3)] s1(1) assms(6,7) by (simp_all add: host_ok_def)
  note D = dispatch_dma [OF this, of env]
  have "\<not> d_busy (s_dma s1)"
    using s1(1,2) by (auto simp: soc_wf_def dma_wf_def)
  with D s1 show ?thesis
    by (simp add: soc_dma_status_def J dma_state_def dma_is_complete_def dma_irq_count_def split_def)
qed

text \<open>The firmware with the vector table in place and all lines enabled.\<close>

definition isr_default :: isr_fw where
  "isr_default = snd (run_state (do {
     intc_enable 7;
     isr_configure VLAB_IRQ_COUNT;
     isr_register VLAB_IRQ_DMA (Some Dma_Isr)
   }) (firmware.extend fw_default \<lparr>v_vectors = replicate 8 None, v_n_lines = VLAB_IRQ_COUNT, v_dispatched = 0\<rparr>))"

definition soc_enabled :: soc_t where
  "soc_enabled = (counted (soc_init soc_static (Some soc_config_default)))
     \<lparr>s_intc := (s_intc (soc_init soc_static (Some soc_config_default)))\<lparr>ic_enable := 7\<rparr>\<rparr>"

lemma isr_default_simps [simp]:
  "h_soc isr_default = soc_enabled" "v_vectors isr_default = vlab_table" "v_n_lines isr_default = 3"
  "v_dispatched isr_default = 0" "h_inited isr_default" "h_irq_masked isr_default = 0"
  "f_state isr_default = DMA_S_IDLE" "f_done_flag isr_default = 0" "f_err_latch isr_default = 0"
  "f_irq_count isr_default = 0" "f_map isr_default = Some vlab_memory_map"
  "f_caps isr_default = Some vlab_dma_caps" "f_periphs isr_default = Some vlab_dma_periph_eps"
proof -
  have "soc_wf (soc_init soc_static (Some soc_config_default))"
    by (rule soc_init_wf [OF soc_static_storage])
  then show "h_soc isr_default = soc_enabled" "v_vectors isr_default = vlab_table" "v_n_lines isr_default = 3"
    "v_dispatched isr_default = 0" "h_inited isr_default" "h_irq_masked isr_default = 0"
    "f_state isr_default = DMA_S_IDLE" "f_done_flag isr_default = 0" "f_err_latch isr_default = 0"
    "f_irq_count isr_default = 0" "f_map isr_default = Some vlab_memory_map"
    "f_caps isr_default = Some vlab_dma_caps" "f_periphs isr_default = Some vlab_dma_periph_eps"
    by (simp_all add: isr_default_def firmware.defs intc_enable_def fw_run register_write_values isr_configure_def
        isr_register_def vlab_table_def soc_enabled_def)
qed

lemma soc_enabled_wf: "soc_wf soc_enabled"
proof -
  let ?s = "soc_init soc_static (Some soc_config_default)"
  have wf: "soc_wf ?s"
    by (rule soc_init_wf [OF soc_static_storage])
  have "snd (soc_write ?s 0x20003000 7) = soc_enabled"
    using wf by (simp add: register_write_values soc_enabled_def)
  with soc_write_wf [OF wf, of "0x20003000" 7] show ?thesis by simp
qed

lemma soc_enabled_dma:
  "\<not> dma_engaged (s_dma soc_enabled)" "\<not> d_fault_stuck_busy (s_dma soc_enabled)"
  "d_burst (s_dma soc_enabled) = 4" "d_latency_per_word (s_dma soc_enabled) = 1"
  "ic_enable (s_intc soc_enabled) = 7" "ic_pending (s_intc soc_enabled) = 0"
  by (simp_all add: soc_enabled_def soc_init_def Let_def soc_dma_init_def dma_engaged_def soc_config_default_def
      soc_intc_init_def)

lemma isr_default_life: "lifecycle isr_default"
  using soc_enabled_dma(1) by (simp add: lifecycle_def fw_vlab_def host_ok_def soc_enabled_wf dma_engaged_def)

theorem dma_interrupt_transfer_witness:
  "case run_state (do {
     rc \<leftarrow> dma_submit 0x10000000 0x10000100 16 True;
     soc_host_step (\<lambda>n. Some (replicate n 0)) 4;
     handled \<leftarrow> isr_dispatch (\<lambda>k l. State_Monad.return ());
     st \<leftarrow> dma_state;
     complete \<leftarrow> dma_is_complete;
     n \<leftarrow> dma_irq_count;
     State_Monad.return (rc, st, complete, n)
   }) isr_default of (result, f') \<Rightarrow> result = (Inr (), DMA_S_COMPLETE, True, 1) \<and>
     soc_dma_status (s_dma (h_soc f')) = 0 \<and> 2 \<notin> lines_of (ic_active (s_intc (h_soc f')))"
proof -
  have r: "in_vlab_sram 0x10000000 16" "in_vlab_sram 0x10000100 16" "vlab_aligned 0x10000000 0x10000100 16"
      "unat (16 :: u32) \<le> 16384"
    by (simp_all add: in_vlab_sram_def vlab_aligned_def)
  have "4 = dma_words 16 * unat (d_latency_per_word (s_dma (h_soc isr_default))) +
      (dma_bursts (d_burst (s_dma (h_soc isr_default))) 16 - 1)"
    by (simp add: soc_enabled_dma dma_words_def dma_bursts_def)
  from dma_interrupt_transfer [OF malloc_total _ isr_default_life _ _ _ _ _ r this,
      where env = "\<lambda>k l. State_Monad.return ()"]
  show ?thesis
    by (simp add: soc_enabled_dma irq_lines_def dma_words_def split_def)
qed

text \<open>The DMA line pending on a dispatcher that is configured for a single line.\<close>

definition isr_pending :: "u32 \<Rightarrow> isr_fw" where
  "isr_pending n = isr_default\<lparr>h_soc := soc_enabled\<lparr>s_intc := soc_intc_raise (s_intc soc_enabled) 2\<rparr>, v_n_lines := n\<rparr>"

lemma isr_pending_facts:
  "host_ok (isr_pending n)" "irq_order (s_intc (h_soc (isr_pending n))) = [2]"
  "v_n_lines (isr_pending n) = n" "v_vectors (isr_pending n) = vlab_table"
  "gated (s_intc (h_soc (isr_pending n))) = {2}"
proof -
  have "soc_wf (soc_enabled\<lparr>s_intc := soc_intc_raise (s_intc soc_enabled) 2\<rparr>)"
    using soc_enabled_wf by (simp add: soc_wf_def raise_wf)
  then show "host_ok (isr_pending n)"
    by (simp add: isr_pending_def host_ok_def)
  show g: "gated (s_intc (h_soc (isr_pending n))) = {2}"
    by (simp add: isr_pending_def gated_def soc_enabled_dma soc_intc_raise_def irq_lines_def)
  then show "irq_order (s_intc (h_soc (isr_pending n))) = [2]"
    by (simp add: irq_order_def)
  show "v_n_lines (isr_pending n) = n" "v_vectors (isr_pending n) = vlab_table"
    by (simp_all add: isr_pending_def)
qed

theorem isr_stray_line_witness:
  "fst (run_state (isr_dispatch (\<lambda>k l. State_Monad.return ())) (isr_pending 1)) = 0"
  using isr_stray_line [OF isr_pending_facts(1) _ isr_pending_facts(2), of 1] by (simp add: isr_pending_facts(3))

text \<open>The DMA line is served, and its handler counted the interrupt.\<close>

theorem isr_dispatch_order_witness:
  "case run_state (isr_dispatch (\<lambda>k l. State_Monad.return ())) (isr_pending 3) of
     (handled, f') \<Rightarrow> handled = 1 \<and> f_irq_count f' = 1"
proof -
  let ?e = "\<lambda>(k :: nat) (l :: u32). (State_Monad.return () :: (isr_fw, unit) state)"
  obtain n f' where r: "run_state (isr_dispatch ?e) (isr_pending 3) = (n, f')"
    by (meson surj_pair)
  have c: "l < 3 \<Longrightarrow> v_vectors (isr_pending 3) ! l = Some h \<Longrightarrow> host_ok g \<Longrightarrow>
      handler_frame l g (snd (run_state (isr_call ?e h (of_nat l)) g))" for l h g
    using vlab_isr.frame [of l h g ?e] by (simp add: isr_pending_facts(4))
  have n: "3 \<le> v_n_lines (isr_pending 3)"
    by (simp add: isr_pending_facts(3))
  have "soc_wf (soc_acked (h_soc (isr_pending 3)) 2)"
    by (rule isr_ack_some(4) [OF isr_pending_facts(1,2)])
  then have ok: "host_ok ((isr_pending 3)\<lparr>h_soc := soc_acked (h_soc (isr_pending 3)) 2\<rparr>)"
    by (simp add: host_ok_def isr_pending_def)
  have "f_irq_count (snd (run_state (dma_isr 2) ((isr_pending 3)\<lparr>h_soc := soc_acked (h_soc (isr_pending 3)) 2\<rparr>))) = 1"
    unfolding dma_isr_run [OF ok] by (simp add: isr_pending_def)
  then show ?thesis
    using isr_dispatch_order [OF isr_pending_facts(1) n c refl r] r
    by (simp add: isr_pending_facts(3,4,5) isr_spec_round_def Let_def)
qed

section \<open>Arbitrary handlers\<close>

text \<open>Register accesses leave the vector table alone, on any host.\<close>

lemma isr_wf_access [simp]:
  "isr_wf (snd (run_state (hal_read_reg a) f)) = isr_wf f"
  "isr_wf (snd (run_state (hal_write_reg a v) f)) = isr_wf f"
  "v_n_lines (snd (run_state (hal_read_reg a) f)) = v_n_lines f"
  "v_n_lines (snd (run_state (hal_write_reg a v) f)) = v_n_lines f"
  by (simp_all add: hal_read_reg_def hal_write_reg_def vlab_mmio_read_def vlab_mmio_write_def host_ensure_def
      soc_host_init_def isr_wf_def split_def)

lemma isr_wf_fields [simp]:
  "isr_wf (f\<lparr>f_done_flag := x\<rparr>) = isr_wf f" "isr_wf (f\<lparr>f_state := st\<rparr>) = isr_wf f"
  "isr_wf (f\<lparr>f_err_latch := x\<rparr>) = isr_wf f" "isr_wf (f\<lparr>f_irq_count := x\<rparr>) = isr_wf f"
  "isr_wf (f\<lparr>v_dispatched := x\<rparr>) = isr_wf f"
  by (simp_all add: isr_wf_def)

lemma dma_isr_isr_wf [simp]:
  "isr_wf (snd (run_state (dma_isr line) f)) = isr_wf f"
  "v_n_lines (snd (run_state (dma_isr line) f)) = v_n_lines f"
  by (simp_all add: dma_isr_def split_def dma_clear_def intc_clear_def)

text \<open>The loop makes at most as many rounds as lines are configured at any time while it runs.\<close>

lemma isr_loop_bounded:
  assumes env: "\<And>k l g. isr_wf g \<Longrightarrow> v_n_lines g \<le> N \<Longrightarrow>
    isr_wf (snd (run_state (env k l) g)) \<and> v_n_lines (snd (run_state (env k l) g)) \<le> N"
  shows "isr_wf f \<Longrightarrow> v_n_lines f \<le> N \<Longrightarrow> unat i \<le> unat N \<Longrightarrow>
    handled \<le> fst (isr_loop env i handled f) \<and>
    fst (isr_loop env i handled f) \<le> handled + int (unat N - unat i) \<and> isr_wf (snd (isr_loop env i handled f))"
proof (induction "unat N - unat i" arbitrary: i handled f)
  case 0
  then have "\<not> i < v_n_lines f"
    by (simp add: word_less_nat_alt word_le_nat_alt)
  with 0 show ?case
    by (simp add: isr_loop.simps)
next
  case (Suc n)
  obtain line f1 where r: "run_state (hal_read_reg VLAB_INTC_ACK) f = (line, f1)"
    by (meson surj_pair)
  have w1: "isr_wf f1" "v_n_lines f1 = v_n_lines f"
    using Suc.prems(1) isr_wf_access(1,3) [of VLAB_INTC_ACK f] unfolding r snd_conv by simp_all
  have "isr_wf (isr_serve env line f1) \<and> v_n_lines (isr_serve env line f1) \<le> N"
    using w1 Suc.prems(2) env
    by (simp add: isr_serve_def Let_def isr_call_def split: option.split isr_handler_t.split)
  moreover have "unat (i + 1) = unat i + 1"
    using Suc.hyps(2) unat_u32_bound [of N] by (simp add: unat_word_ariths)
  moreover from this have "n = unat N - unat (i + 1)" "unat (i + 1) \<le> unat N"
    using Suc.hyps(2) by simp_all
  ultimately show ?case
    using Suc.hyps(1) [of "i + 1" "isr_serve env line f1" "handled + 1"] w1 r Suc.prems(1)
    by (subst isr_loop.simps, subst (2) isr_loop.simps, subst (3) isr_loop.simps) auto
qed

text \<open>
  C23. The dispatcher cannot be livelocked. Whatever the registered handlers do - raise their own
  or other lines again, reconfigure the dispatcher, register other handlers - as long as they
  use the interface, which keeps the vector table well formed, a call returns after at most
  eight rounds; and if no handler configures more lines than there were, after at most as many
  rounds as lines were configured at the call, even if every handler raises its line again.
\<close>

theorem isr_dispatch_bounded:
  assumes "isr_wf f" and "\<And>k l g. isr_wf g \<Longrightarrow> isr_wf (snd (run_state (env k l) g))"
    and "run_state (isr_dispatch env) f = (handled, f')"
  shows "0 \<le> handled \<and> handled \<le> 8 \<and> isr_wf f' \<and>
    ((\<forall>k l g. isr_wf g \<longrightarrow> v_n_lines (snd (run_state (env k l) g)) \<le> v_n_lines g) \<longrightarrow>
      handled \<le> int (unat (v_n_lines f)))"
proof -
  have "isr_wf g \<Longrightarrow> v_n_lines g \<le> 8" for g :: "'a isr_fw_scheme"
    by (simp add: isr_wf_def)
  then have "0 \<le> handled" "handled \<le> 8" "isr_wf f'"
    using isr_loop_bounded [of 8 env f 0 0] assms by (auto simp: isr_dispatch_def)
  moreover have "handled \<le> int (unat (v_n_lines f))"
    if "\<forall>k l g. isr_wf g \<longrightarrow> v_n_lines (snd (run_state (env k l) g)) \<le> v_n_lines g"
  proof -
    have "isr_wf (snd (run_state (env k l) g)) \<and> v_n_lines (snd (run_state (env k l) g)) \<le> v_n_lines f"
      if "isr_wf g" "v_n_lines g \<le> v_n_lines f" for k l g
      using assms(2) that \<open>\<forall>k l g. _\<close> by (meson order_trans)
    from isr_loop_bounded [of "v_n_lines f" env f 0 0, OF this] assms(1,3) show ?thesis
      by (simp add: isr_dispatch_def)
  qed
  ultimately show ?thesis
    by blast
qed

text \<open>Handlers that raise their own line again, forever, on the three lines of the platform.\<close>

theorem isr_dispatch_bounded_witness:
  "fst (run_state (isr_dispatch (\<lambda>k l. vlab_test_raise_irq l))
     (isr_default\<lparr>v_vectors := replicate 8 (Some (Handler 0))\<rparr>)) \<le> 3"
proof -
  let ?e = "\<lambda>(k :: nat) l. (vlab_test_raise_irq l :: (isr_fw, unit) state)"
  let ?f = "isr_default\<lparr>v_vectors := replicate 8 (Some (Handler 0))\<rparr>"
  obtain n f' where r: "run_state (isr_dispatch ?e) ?f = (n, f')"
    by (meson surj_pair)
  have "isr_wf ?f"
    by (simp add: isr_wf_def)
  moreover have "isr_wf (snd (run_state (?e k l) g)) = isr_wf g"
      "v_n_lines (snd (run_state (?e k l) g)) = v_n_lines g" for k l g
    by (simp_all add: vlab_test_raise_irq_def host_ensure_def soc_host_init_def isr_wf_def)
  ultimately show ?thesis
    using isr_dispatch_bounded [OF _ _ r] r by simp
qed

end
