(* ===== verification/App.thy ===== *)
theory App
  imports Isr
begin

text \<open>
  Platform bring-up (\<open>firmware/platform/platform_init.c\<close>) and the application
  (\<open>firmware/apps/main.c\<close>), over the whole firmware state. The theorems: bring-up reaches its
  documented state from any state of the firmware, even one in which nothing was initialised,
  and the application, started from reset, always ends with exit code 0, having sent its message
  and no other byte, with the counters it prints.
\<close>

section \<open>Platform bring-up\<close>

definition s_rom_data_init :: "u32 list" where
  "s_rom_data_init = [0x11111111, 0x22222222, 0x33333333, 0x44444444]"

record app_fw = isr_fw +
  p_ram_data :: "u32 list"
  p_ram_bss :: "u32 list"

definition platform_init :: "('h app_fw_scheme, int) state" where
  "platform_init = do {
     hal_write_reg VLAB_INTC_ENABLE 0;
     hal_write_reg VLAB_PERF_CTRL VLAB_PERF_CTRL_RESET;
     hal_write_reg VLAB_PERF_CTRL VLAB_PERF_CTRL_ENABLE;
     State_Monad.update (fold (\<lambda>i f. f\<lparr>p_ram_data := (p_ram_data f)[i := s_rom_data_init ! i]\<rparr>) [0..<4]);
     State_Monad.update (fold (\<lambda>i f. f\<lparr>p_ram_bss := (p_ram_bss f)[i := 0]\<rparr>) [0..<8]);
     _ \<leftarrow> uart_init 0;
     dma_init;
     State_Monad.return 0
   }"

text \<open>The two loops of the self check return at the first difference.\<close>

definition platform_self_check :: "('h app_fw_scheme, int) state" where
  "platform_self_check = do {
     f \<leftarrow> State_Monad.get;
     State_Monad.return
       (if \<exists>i \<in> set [0..<4]. p_ram_data f ! i \<noteq> s_rom_data_init ! i then - 1
        else if \<exists>i \<in> set [0..<8]. p_ram_bss f ! i \<noteq> 0 then - 2
        else 0)
   }"

section \<open>The application\<close>

definition UART_LATENCY_STEPS :: u32 where [simp]: "UART_LATENCY_STEPS = 5"

definition app_msg :: "u8 list" where
  "app_msg = map of_char ''hello vlab-soc''"

text \<open>The send loop over the characters that are left; \<open>Inl 3\<close> is the early return.\<close>

fun app_send :: "(nat \<Rightarrow> u8 list option) \<Rightarrow> u8 list \<Rightarrow> u32 \<Rightarrow> ('h app_fw_scheme, int + u32) state" where
  "app_send malloc [] sent = State_Monad.return (Inr sent)"
| "app_send malloc (b # bs) sent = do {
     rc \<leftarrow> uart_write_byte b;
     if rc \<noteq> Inr () then State_Monad.return (Inl 3)
     else do {
       soc_host_step malloc UART_LATENCY_STEPS;
       app_send malloc bs (sent + 1)
     }
   }"

text \<open>
  The metrics the last line prints: bytes sent, memory accesses, stalls. The two register reads
  are arguments of one call and C leaves their order open: \<open>mem_first\<close> is the compiler's choice.
\<close>

definition app_metrics :: "bool \<Rightarrow> u32 \<Rightarrow> ('h app_fw_scheme, u32 \<times> u32 \<times> u32) state" where
  "app_metrics mem_first sent =
     (if mem_first then do {
        m \<leftarrow> hal_read_reg VLAB_PERF_MEM_ACC;
        s \<leftarrow> hal_read_reg VLAB_PERF_STALLS;
        State_Monad.return (sent, m, s)
      }
      else do {
        s \<leftarrow> hal_read_reg VLAB_PERF_STALLS;
        m \<leftarrow> hal_read_reg VLAB_PERF_MEM_ACC;
        State_Monad.return (sent, m, s)
      })"

text \<open>The exit code, with the metrics when the last line is reached.\<close>

definition app_main ::
    "(nat \<Rightarrow> u8 list option) \<Rightarrow> bool \<Rightarrow> ('h app_fw_scheme, int \<times> (u32 \<times> u32 \<times> u32) option) state" where
  "app_main malloc mem_first = do {
     r1 \<leftarrow> platform_init;
     if r1 \<noteq> 0 then State_Monad.return (1, None)
     else do {
       r2 \<leftarrow> platform_self_check;
       if r2 \<noteq> 0 then State_Monad.return (2, None)
       else do {
         r3 \<leftarrow> app_send malloc app_msg 0;
         case r3 of
           Inl code \<Rightarrow> State_Monad.return (code, None)
         | Inr sent \<Rightarrow> do {
             _ \<leftarrow> timer_start 100 False True;
             soc_host_step malloc 100;
             fired \<leftarrow> timer_fired;
             if \<not> fired then State_Monad.return (4, None)
             else do {
               timer_clear;
               m \<leftarrow> app_metrics mem_first sent;
               State_Monad.return (0, Some m)
             }
           }
       }
     }
   }"

section \<open>Bring-up\<close>

text \<open>The storage of the two simulated sections.\<close>

definition app_storage :: "'h app_fw_scheme \<Rightarrow> bool" where
  "app_storage f \<longleftrightarrow> length (p_ram_data f) = 4 \<and> length (p_ram_bss f) = 8"

lemma data_copy:
  "length xs = 4 \<Longrightarrow> xs[0 := s_rom_data_init ! 0, 1 := s_rom_data_init ! 1, 2 := s_rom_data_init ! 2,
     3 := s_rom_data_init ! 3] = s_rom_data_init"
  by (rule nth_equalityI) (auto simp: s_rom_data_init_def nth_list_update less_Suc_eq eval_nat_numeral)

lemma fold_data:
  assumes "length (p_ram_data f) = 4"
  shows "fold (\<lambda>i f. f\<lparr>p_ram_data := (p_ram_data f)[i := s_rom_data_init ! i]\<rparr>) [0..<4] f =
    f\<lparr>p_ram_data := s_rom_data_init\<rparr>"
proof -
  have "[0..<4 :: nat] = [0, 1, 2, 3]"
    by (simp add: upt_rec)
  then show ?thesis
    using data_copy [OF assms] by simp
qed

lemma fold_bss:
  assumes "length (p_ram_bss f) = 8"
  shows "fold (\<lambda>i f. f\<lparr>p_ram_bss := (p_ram_bss f)[i := 0]\<rparr>) [0..<8] f = f\<lparr>p_ram_bss := replicate 8 0\<rparr>"
proof -
  have "fold (\<lambda>i f. f\<lparr>p_ram_bss := (p_ram_bss f)[i := 0]\<rparr>) [0..<n] f =
      f\<lparr>p_ram_bss := replicate n 0 @ drop n (p_ram_bss f)\<rparr>" if "n \<le> 8" for n
    using that
  proof (induction n)
    case (Suc n)
    then have "n < length (p_ram_bss f)"
      using assms by simp
    then have "drop n (p_ram_bss f) = p_ram_bss f ! n # drop (Suc n) (p_ram_bss f)"
      by (rule Cons_nth_drop_Suc [symmetric])
    with Suc show ?case
      by (simp add: list_update_append replicate_append_same)
  qed simp
  from this [of 8] assms show ?thesis
    by simp
qed

text \<open>The SoC as bring-up leaves it, from the SoC it found.\<close>

definition soc_brought_up :: "soc_t \<Rightarrow> soc_t" where
  "soc_brought_up s = s\<lparr>s_intc := (s_intc s)\<lparr>ic_enable := 0\<rparr>, s_uart := (s_uart s)\<lparr>u_bauddiv := 0, u_ctrl := 1\<rparr>,
     s_perf := \<lparr>pf_cycles = 0, pf_mem_acc = 2, pf_dma_bytes = 0, pf_irq_count = 0, pf_stalls = 0, pf_enabled = True,
       pf_ctrl = 1\<rparr>\<rparr>"

text \<open>A write that succeeds leaves a well-formed SoC.\<close>

lemma soc_write_chain: "soc_wf s \<Longrightarrow> soc_write s a v = (Inr (), s') \<Longrightarrow> soc_wf s'"
  using soc_write_wf [of s a v] by simp

lemma bring_up_writes:
  assumes "soc_wf s"
  defines "s1 \<equiv> snd (soc_write s 0x20003000 0)"
  defines "s2 \<equiv> snd (soc_write s1 0x20004014 2)"
  defines "s3 \<equiv> snd (soc_write s2 0x20004014 1)"
  defines "s4 \<equiv> snd (soc_write s3 0x20000010 0)"
  defines "s5 \<equiv> snd (soc_write s4 0x2000000C 1)"
  shows "s5 = soc_brought_up s" and "soc_wf s5"
proof -
  have wf: "soc_wf s1" "soc_wf s2" "soc_wf s3" "soc_wf s4"
    using assms(1) by (simp_all add: s1_def s2_def s3_def s4_def soc_write_wf)
  then show "soc_wf s5"
    by (simp add: s5_def soc_write_wf)
  have e1: "s1 = (counted s)\<lparr>s_intc := (s_intc s)\<lparr>ic_enable := 0\<rparr>\<rparr>"
    using assms(1) by (simp add: s1_def register_write_values)
  have e2: "s2 = s1\<lparr>s_perf := \<lparr>pf_cycles = 0, pf_mem_acc = 0, pf_dma_bytes = 0, pf_irq_count = 0, pf_stalls = 0,
      pf_enabled = False, pf_ctrl = 2\<rparr>\<rparr>"
    using wf(1) by (cases "s_perf s1")
      (simp add: s2_def register_write_values soc_perf_write_def Let_def soc_perf_reset_counters_def
        soc_perf_count_mem_def bit_numeral_word_iff)
  have e3: "s3 = s2\<lparr>s_perf := (s_perf s2)\<lparr>pf_enabled := True, pf_ctrl := 1\<rparr>\<rparr>"
    using wf(2) by (simp add: s3_def register_write_values soc_perf_write_def Let_def e2 soc_perf_count_mem_def)
  have e5: "s5 = (counted (counted s3))\<lparr>s_uart := (s_uart s3)\<lparr>u_bauddiv := 0, u_ctrl := 1\<rparr>\<rparr>"
    using wf(3,4) by (simp add: s5_def s4_def register_write_values counted_def)
  show "s5 = soc_brought_up s"
    by (cases s) (simp add: e5 e3 e2 e1 soc_brought_up_def counted_def soc_perf_count_mem_def)
qed

lemma platform_init_run:
  assumes "host_ok f" and "app_storage f"
  shows "run_state platform_init f = (0, f\<lparr>h_soc := soc_brought_up (h_soc f), p_ram_data := s_rom_data_init,
      p_ram_bss := replicate 8 0, f_map := Some vlab_memory_map, f_caps := Some vlab_dma_caps,
      f_periphs := Some vlab_dma_periph_eps\<rparr>)"
  using assms bring_up_writes [of "h_soc f"]
  by (cases f)
    (simp add: platform_init_def hal_write_run host_ok_def app_storage_def fold_data fold_bss uart_init_def
      dma_init_def)

text \<open>The first access initialises the host.\<close>

definition ensured :: "'h host_scheme \<Rightarrow> 'h host_scheme" where
  "ensured h = (if h_inited h then h
     else h\<lparr>h_soc := soc_init (h_soc h) (Some soc_config_default), h_inited := True\<rparr>)"

lemma run_host_ensure: "run_state host_ensure h = ((), ensured h)"
  by (simp add: ensured_def host_ensure_fresh)

lemma ensured_inited [simp]: "h_inited (ensured h)" "h_inited h \<Longrightarrow> ensured h = h"
  by (simp_all add: ensured_def)

lemma platform_init_ensured: "run_state platform_init f = run_state platform_init (ensured f)"
  by (simp add: platform_init_def hal_write_reg_def vlab_mmio_write_def run_host_ensure)

lemma app_storage_ensured [simp]: "app_storage (ensured f) = app_storage f"
  by (simp add: app_storage_def ensured_def)

section \<open>Sending\<close>

text \<open>
  The states between two bytes: the UART idle and enabled with the default latency, no transfer
  running, the timer at rest, \<open>n\<close> accesses counted, no stall, and \<open>xs\<close> sent so far.
\<close>

definition app_quiet :: "nat \<Rightarrow> u8 list \<Rightarrow> 'h host_scheme \<Rightarrow> bool" where
  "app_quiet n xs h \<longleftrightarrow> host_ok h \<and>
     (let u = s_uart (h_soc h); t = s_timer (h_soc h); p = s_perf (h_soc h) in
       bit (u_ctrl u) 0 \<and> u_busy u \<le> 0 \<and> \<not> u_fault_stuck_busy u \<and> u_latency_ticks u = 5 \<and>
       uart_tx_stream u = xs \<and> \<not> dma_running (s_dma (h_soc h)) \<and>
       \<not> bit (t_ctrl t) 0 \<and> t_value t = 0 \<and> t_irq_status t = 0 \<and>
       pf_enabled p \<and> pf_mem_acc p = of_nat n \<and> pf_stalls p = 0)"

lemma uart_looped_frame [simp]:
  "u_ctrl (uart_looped u) = u_ctrl u" "u_busy (uart_looped u) = 0"
  "u_fault_stuck_busy (uart_looped u) = u_fault_stuck_busy u" "u_latency_ticks (uart_looped u) = u_latency_ticks u"
  by (simp_all add: uart_looped_def soc_uart_dma_tx_append_def Let_def)

lemma uart_loaded_frame [simp]:
  "u_ctrl (uart_loaded u b) = u_ctrl u" "u_fault_stuck_busy (uart_loaded u b) = u_fault_stuck_busy u"
  "u_latency_ticks (uart_loaded u b) = u_latency_ticks u" "u_txdata (uart_loaded u b) = ucast b"
  "uart_tx_stream (uart_loaded u b) = uart_tx_stream u" "uart_wf (uart_loaded u b) = uart_wf u"
  by (simp_all add: uart_loaded_def uart_tx_stream_def uart_wf_def)

lemma soc_ticks_perf:
  assumes "\<not> dma_running (s_dma s)"
  shows "s_perf ((soc_tick malloc ^^ k) s) = (soc_perf_tick ^^ k) (s_perf s)"
proof (induction k)
  case (Suc k)
  have "\<not> dma_running (s_dma ((soc_tick malloc ^^ k) s))"
    using assms soc_ticks_no_dma [OF assms, of k malloc] by simp
  with Suc soc_tick_no_dma(5) show ?case by simp
qed simp

lemma perf_ticks_frame [simp]:
  "pf_enabled ((soc_perf_tick ^^ k) p) = pf_enabled p" "pf_mem_acc ((soc_perf_tick ^^ k) p) = pf_mem_acc p"
  "pf_stalls ((soc_perf_tick ^^ k) p) = pf_stalls p"
  by (induction k) (simp_all add: soc_perf_tick_def)

lemma counted_perf:
  "pf_enabled (s_perf s) \<Longrightarrow> s_perf ((counted ^^ n) s) = (s_perf s)\<lparr>pf_mem_acc := pf_mem_acc (s_perf s) + of_nat n\<rparr>"
  by (induction n) (simp_all add: soc_perf_count_mem_def ac_simps)

text \<open>One byte on its way: the SoC after the write and five ticks.\<close>

lemma byte_sent:
  fixes b :: u8 and malloc :: "nat \<Rightarrow> u8 list option"
  assumes "app_quiet n xs h" and "length xs < 16384"
  defines "s \<equiv> h_soc h"
  defines "s1 \<equiv> ((counted ^^ 3) s)\<lparr>s_uart := uart_loaded (s_uart s) b\<rparr>"
  defines "s2 \<equiv> (soc_tick malloc ^^ 5) s1"
  shows "s_uart s2 = uart_looped (uart_loaded (s_uart s) b)" and "uart_tx_stream (s_uart s2) = xs @ [b]"
    and "s_timer s2 = s_timer s" and "\<not> dma_running (s_dma s2)"
    and "s_perf s2 = (soc_perf_tick ^^ 5) ((s_perf s)\<lparr>pf_mem_acc := pf_mem_acc (s_perf s) + of_nat 3\<rparr>)"
proof -
  note q = assms(1) [unfolded app_quiet_def Let_def, folded s_def]
  have u: "uart_wf (s_uart s)" "byte_ticks (s_uart s) = 5" "unat (byte_ticks (s_uart s)) < 2 ^ 31"
    using q by (simp_all add: host_ok_def soc_wf_def s_def byte_ticks_def)
  have nd: "\<not> dma_running (s_dma s1)"
    using q by (simp add: s1_def)
  show uart: "s_uart s2 = uart_looped (uart_loaded (s_uart s) b)"
    using soc_ticks_uart [OF nd, of 5 malloc intc_static] uart_loaded_completes(1) [OF u(1) _ u(3), of b intc_static] q u(2)
    by (simp add: s2_def s1_def)
  show "uart_tx_stream (s_uart s2) = xs @ [b]"
    using uart_looped_streams(1) [of "uart_loaded (s_uart s) b"] assms(2) q u(1)
    by (simp add: uart ucast_byte_mask ucast_byte_back)
  show "s_timer s2 = s_timer s"
    using soc_ticks_timer [of 5 malloc s1 intc_static] timer_idle_forever [of "s_timer s" 5 intc_static] q
    by (simp add: s2_def s1_def timer_armed_def)
  show "s_perf s2 = (soc_perf_tick ^^ 5) ((s_perf s)\<lparr>pf_mem_acc := pf_mem_acc (s_perf s) + of_nat 3\<rparr>)"
    using soc_ticks_perf [OF nd, of 5 malloc] counted_perf [of s 3] q by (simp add: s2_def s1_def)
  show "\<not> dma_running (s_dma s2)"
    using soc_ticks_no_dma [OF nd, of 5 malloc] nd by (simp add: s2_def)
qed

lemma send_byte:
  fixes h :: "'h host_scheme" and b :: u8 and malloc :: "nat \<Rightarrow> u8 list option"
  assumes "app_quiet n xs h" and "malloc_sound malloc" and "length xs < 16384"
  defines "h1 \<equiv> snd (run_state (uart_write_byte b) h)"
  defines "h2 \<equiv> h1\<lparr>h_soc := soc_step malloc (h_soc h1) 5\<rparr>"
  shows "run_state (uart_write_byte b) h = (Inr (), h1)"
    and "run_state (soc_host_step malloc 5) h1 = ((), h2)" and "app_quiet (n + 3) (xs @ [b]) h2"
proof -
  note q = assms(1) [unfolded app_quiet_def Let_def]
  have ok: "host_ok h"
    using q by simp
  let ?s1 = "((counted ^^ 3) (h_soc h))\<lparr>s_uart := uart_loaded (s_uart (h_soc h)) b\<rparr>"
  have run: "run_state (uart_write_byte b) h = (Inr (), h\<lparr>h_soc := ?s1\<rparr>)"
    using q by (simp add: uart_write_byte_run [OF ok])
  then show "run_state (uart_write_byte b) h = (Inr (), h1)"
    by (simp add: h1_def)
  have h1: "h1 = h\<lparr>h_soc := ?s1\<rparr>"
    by (simp add: h1_def run)
  show "run_state (soc_host_step malloc 5) h1 = ((), h2)"
    using ok by (simp add: h2_def h1 host_step_run host_ok_def)
  have s2: "h2 = h\<lparr>h_soc := (soc_tick malloc ^^ 5) ?s1\<rparr>"
    by (simp add: h2_def h1 soc_step_def)
  have "soc_wf ?s1"
    using counted_pow_wf [of "h_soc h" 3] ok by (simp add: host_ok_def soc_wf_def)
  then have "host_ok h2"
    using ok soc_ticks_wf [OF _ assms(2)] by (simp add: s2 host_ok_def)
  then show "app_quiet (n + 3) (xs @ [b]) h2"
    using q byte_sent(2,4) [OF assms(1,3), where b = b and malloc = malloc]
    by (simp add: app_quiet_def Let_def s2 byte_sent(1,3,5) [OF assms(1,3)])
qed

lemma app_send_run:
  assumes "malloc_sound malloc"
  shows "app_quiet n xs f \<Longrightarrow> length xs + length bs \<le> 16384 \<Longrightarrow>
    \<exists>f'. run_state (app_send malloc bs sent) f = (Inr (sent + of_nat (length bs)), f') \<and>
      app_quiet (n + 3 * length bs) (xs @ bs) f'"
proof (induction bs arbitrary: n xs f sent)
  case (Cons b bs)
  let ?f1 = "snd (run_state (uart_write_byte b) f)"
  have "length xs < 16384"
    using Cons.prems(2) by simp
  note s = send_byte [OF Cons.prems(1) assms this, of b]
  have "length (xs @ [b]) + length bs \<le> 16384"
    using Cons.prems(2) by simp
  note ih = Cons.IH [OF s(3) this, of "sent + 1"]
  have "fst (run_state (uart_write_byte b) f) = Inr ()"
    using s(1) by (metis fst_conv)
  with ih s(2) show ?case
    by (simp add: split_def ac_simps)
qed simp

section \<open>The tail of the application\<close>

text \<open>The timer is started, fires at its hundredth tick, and the metrics are read.\<close>

lemma timer_expired:
  fixes malloc :: "nat \<Rightarrow> u8 list option"
  assumes "app_quiet n xs f"
  defines "s \<equiv> h_soc f"
  defines "s1 \<equiv> (counted (counted s))\<lparr>s_timer := (s_timer s)\<lparr>t_load := 100, t_ctrl := 5, t_value := 100\<rparr>\<rparr>"
  defines "s2 \<equiv> (soc_tick malloc ^^ 100) s1"
  shows "t_irq_status (s_timer s2) = 1" and "s_uart s2 = s_uart s"
    and "s_perf s2 = (soc_perf_tick ^^ 100) ((s_perf s)\<lparr>pf_mem_acc := pf_mem_acc (s_perf s) + 2\<rparr>)"
proof -
  note q = assms(1) [unfolded app_quiet_def Let_def, folded s_def]
  have nd: "\<not> dma_running (s_dma s1)"
    using q by (simp add: s1_def)
  have armed: "timer_armed (s_timer s1)" "\<not> bit (t_ctrl (s_timer s1)) 1" "0 < unat (t_value (s_timer s1))"
    by (simp_all add: s1_def timer_armed_def bit_numeral_word_iff)
  have "s_timer s2 = timer_fired_once (s_timer s1)"
    using soc_ticks_timer [of 100 malloc s1 intc_static] timer_oneshot_run [OF armed, of 100 intc_static]
    by (simp add: s2_def s1_def)
  then show "t_irq_status (s_timer s2) = 1"
    using q by (simp add: timer_fired_once_def s1_def)
  show "s_uart s2 = s_uart s"
    using soc_ticks_uart [OF nd, of 100 malloc intc_static] uart_idle_forever [of "s_uart s" 100 intc_static] q
    by (simp add: s2_def s1_def uart_armed_def)
  show "s_perf s2 = (soc_perf_tick ^^ 100) ((s_perf s)\<lparr>pf_mem_acc := pf_mem_acc (s_perf s) + 2\<rparr>)"
    using soc_ticks_perf [OF nd, of 100 malloc] counted_perf [of s 2] q by (simp add: s2_def s1_def numeral_2_eq_2)
qed

lemma timer_tail:
  assumes "app_quiet n xs f" and "malloc_sound malloc"
  shows "\<exists>f1 f2 f3 f4. run_state (timer_start 100 False True) f = (0, f1) \<and>
    run_state (soc_host_step malloc 100) f1 = ((), f2) \<and> run_state timer_fired f2 = (True, f3) \<and>
    run_state timer_clear f3 = ((), f4) \<and> host_ok f4 \<and> pf_enabled (s_perf (h_soc f4)) \<and>
    pf_mem_acc (s_perf (h_soc f4)) = of_nat (n + 4) \<and> pf_stalls (s_perf (h_soc f4)) = 0 \<and>
    uart_tx_stream (s_uart (h_soc f4)) = xs \<and> t_irq_status (s_timer (h_soc f4)) = 0"
proof -
  note q = assms(1) [unfolded app_quiet_def Let_def]
  let ?s = "h_soc f"
  let ?s1 = "(counted (counted ?s))\<lparr>s_timer := (s_timer ?s)\<lparr>t_load := 100, t_ctrl := 5, t_value := 100\<rparr>\<rparr>"
  let ?s2 = "(soc_tick malloc ^^ 100) ?s1"
  let ?s4 = "(counted (counted ?s2))\<lparr>s_timer := (s_timer ?s2)\<lparr>t_irq_status := 0\<rparr>\<rparr>"
  note E = timer_expired [OF assms(1), of malloc]
  have ok: "host_ok f" "soc_wf ?s"
    using q by (simp_all add: host_ok_def)
  have start: "run_state (timer_start 100 False True) f = (0, f\<lparr>h_soc := ?s1\<rparr>)"
    using timer_start_run [OF ok(1), of 100 False True] q by (simp add: soc_timer_write_def Let_def)
  have "soc_wf ?s1"
    using counted_wf [OF counted_wf [OF ok(2)]] by (simp add: soc_wf_def timer_wf_def)
  then have wf2: "soc_wf ?s2"
    by (rule soc_ticks_wf [OF _ assms(2)])
  have step: "run_state (soc_host_step malloc 100) (f\<lparr>h_soc := ?s1\<rparr>) = ((), f\<lparr>h_soc := ?s2\<rparr>)"
    using ok(1) by (simp add: host_step_run host_ok_def soc_step_def)
  have fired: "run_state timer_fired (f\<lparr>h_soc := ?s2\<rparr>) = (True, f\<lparr>h_soc := counted ?s2\<rparr>)"
    using ok(1) wf2 E(1) by (simp add: timer_fired_def fw_run host_ok_def)
  have "snd (soc_timer_write (s_timer ?s2) 0x10 1) = (s_timer ?s2)\<lparr>t_irq_status := 0\<rparr>"
    using E(1) by (simp add: soc_timer_write_def)
  then have clear: "run_state timer_clear (f\<lparr>h_soc := counted ?s2\<rparr>) = ((), f\<lparr>h_soc := ?s4\<rparr>)"
    using ok(1) counted_wf [OF wf2] by (simp add: timer_clear_def fw_run host_ok_def)
  have wf4: "soc_wf ?s4"
    using counted_wf [OF counted_wf [OF wf2]] by (simp add: soc_wf_def timer_wf_def)
  have "pf_mem_acc (s_perf ?s4) = of_nat (n + 4)" "pf_enabled (s_perf ?s4)" "pf_stalls (s_perf ?s4) = 0"
    using q by (simp_all add: E(3) soc_perf_count_mem_def)
  then show ?thesis
    using start step fired clear wf4 ok(1) q E(2) by (auto simp: host_ok_def)
qed

lemma app_metrics_run:
  assumes "host_ok f" and "pf_enabled (s_perf (h_soc f))" and "pf_stalls (s_perf (h_soc f)) = 0"
    and "pf_mem_acc (s_perf (h_soc f)) = m"
  shows "run_state (app_metrics mem_first sent) f =
    ((sent, if mem_first then m + 1 else m + 2, 0), f\<lparr>h_soc := counted (counted (h_soc f))\<rparr>)"
  using assms counted_wf [of "h_soc f"]
  by (simp add: app_metrics_def fw_run host_ok_def soc_perf_count_mem_def)

lemma brought_up_quiet:
  assumes "host_ok f" and "s_uart (h_soc f) = s_uart (soc_init s (Some soc_config_default))"
    and "s_timer (h_soc f) = s_timer (soc_init s (Some soc_config_default))"
    and "s_dma (h_soc f) = s_dma (soc_init s (Some soc_config_default))"
  shows "app_quiet 2 [] (f\<lparr>h_soc := soc_brought_up (h_soc f)\<rparr>)"
proof -
  have "soc_wf (soc_brought_up (h_soc f))"
    using bring_up_writes [of "h_soc f"] assms(1) by (simp add: host_ok_def)
  then show ?thesis
    using assms(1)
    by (simp add: app_quiet_def Let_def host_ok_def soc_brought_up_def assms(2-4) soc_init_def soc_uart_init_def
        soc_timer_init_def soc_dma_init_def dma_running_def soc_config_default_def uart_tx_stream_def)
qed

lemma app_quiet_cong:
  "h_soc f = h_soc g \<Longrightarrow> h_inited f = h_inited g \<Longrightarrow> app_quiet n xs f = app_quiet n xs g"
  by (simp add: app_quiet_def host_ok_def)

section \<open>Properties\<close>

text \<open>
  C22. Bring-up. From any well-formed state of the firmware, and also from reset, where its first
  register access initialises the SoC, \<open>platform_init\<close> returns 0 and leaves every interrupt
  disabled, the counters reset and enabled (showing its last two accesses), the UART enabled,
  the driver configured with the platform tables, and the simulated sections as the self check
  wants them, so that \<open>platform_self_check\<close> returns 0. It never touches memory, the timer, a
  running transfer or a pending interrupt.
\<close>

theorem platform_init_establishes:
  assumes "app_storage f" and "h_inited f \<and> soc_wf (h_soc f) \<or> \<not> h_inited f \<and> soc_storage (h_soc f)"
    and "run_state platform_init f = (rc, f')"
    and "s = (if h_inited f then h_soc f else soc_init (h_soc f) (Some soc_config_default))"
  shows "rc = 0 \<and> fw_vlab f' \<and> fst (run_state platform_self_check f') = 0 \<and>
    ic_enable (s_intc (h_soc f')) = 0 \<and> ic_pending (s_intc (h_soc f')) = ic_pending (s_intc s) \<and>
    ic_active (s_intc (h_soc f')) = ic_active (s_intc s) \<and>
    pf_enabled (s_perf (h_soc f')) \<and> pf_mem_acc (s_perf (h_soc f')) = 2 \<and> pf_cycles (s_perf (h_soc f')) = 0 \<and>
    u_ctrl (s_uart (h_soc f')) = VLAB_UART_CTRL_ENABLE \<and> s_dma (h_soc f') = s_dma s \<and>
    s_timer (h_soc f') = s_timer s \<and> s_sram (h_soc f') = s_sram s \<and> s_rom (h_soc f') = s_rom s"
proof -
  have e: "h_soc (ensured f) = s" "host_ok (ensured f)"
    using assms(2,4) soc_init_wf [of "h_soc f" "Some soc_config_default"] by (auto simp: ensured_def host_ok_def)
  have wf: "soc_wf (soc_brought_up s)"
    using bring_up_writes [of s] e by (simp add: host_ok_def)
  have r: "rc = 0" "f' = (ensured f)\<lparr>h_soc := soc_brought_up s, p_ram_data := s_rom_data_init,
      p_ram_bss := replicate 8 0, f_map := Some vlab_memory_map, f_caps := Some vlab_dma_caps,
      f_periphs := Some vlab_dma_periph_eps\<rparr>"
    using assms(3) platform_init_run [OF e(2)] assms(1) by (simp_all add: platform_init_ensured [of f] e(1))
  have "fst (run_state platform_self_check f') = 0"
    by (auto simp: platform_self_check_def r(2))
  then show ?thesis
    using wf by (simp add: r fw_vlab_def host_ok_def soc_brought_up_def)
qed

text \<open>
  C21. The application runs to its end. Started from reset, whatever the allocator does, \<open>main\<close>
  exits with 0: no check fails, no byte write times out and the timer fires in time. It prints
  14 bytes sent, no stalls, and 49 memory accesses (50 if the compiler reads the stall counter
  first); the UART has transmitted exactly the message, and no transfer was ever started.
\<close>

theorem app_main_succeeds:
  assumes "malloc_sound malloc" and "app_storage f" and "\<not> h_inited f" and "soc_storage (h_soc f)"
  shows "case run_state (app_main malloc mem_first) f of ((code, metrics), f') \<Rightarrow>
    code = 0 \<and> metrics = Some (14, if mem_first then 49 else 50, 0) \<and>
    uart_tx_stream (s_uart (h_soc f')) = map of_char ''hello vlab-soc'' \<and>
    t_irq_status (s_timer (h_soc f')) = 0 \<and> soc_wf (h_soc f')"
proof -
  let ?i = "soc_init (h_soc f) (Some soc_config_default)"
  have e: "h_soc (ensured f) = ?i" "host_ok (ensured f)"
    using assms(3,4) soc_init_wf [of "h_soc f" "Some soc_config_default"] by (auto simp: ensured_def host_ok_def)
  let ?f1 = "(ensured f)\<lparr>h_soc := soc_brought_up ?i, p_ram_data := s_rom_data_init,
      p_ram_bss := replicate 8 0, f_map := Some vlab_memory_map, f_caps := Some vlab_dma_caps,
      f_periphs := Some vlab_dma_periph_eps\<rparr>"
  have init: "run_state platform_init f = (0, ?f1)"
    using platform_init_run [OF e(2)] assms(2) by (simp add: platform_init_ensured [of f] e(1))
  have check: "run_state platform_self_check ?f1 = (0, ?f1)"
    by (auto simp: platform_self_check_def)
  have "app_quiet 2 [] ((ensured f)\<lparr>h_soc := soc_brought_up (h_soc (ensured f))\<rparr>)"
    by (rule brought_up_quiet [OF e(2), of "h_soc f"]) (simp_all add: e(1))
  then have "app_quiet 2 [] ?f1"
    using app_quiet_cong [of ?f1 "(ensured f)\<lparr>h_soc := soc_brought_up (h_soc (ensured f))\<rparr>"] by (simp add: e(1))
  from app_send_run [OF assms(1) this, of app_msg 0] obtain f2 where
    send: "run_state (app_send malloc app_msg 0) ?f1 = (Inr 14, f2)" "app_quiet 44 app_msg f2"
    by (auto simp: app_msg_def)
  from timer_tail [OF send(2) assms(1)] obtain f3 f4 f5 f6 where
    tail: "run_state (timer_start 100 False True) f2 = (0, f3)" "run_state (soc_host_step malloc 100) f3 = ((), f4)"
      "run_state timer_fired f4 = (True, f5)" "run_state timer_clear f5 = ((), f6)" and
    fin: "host_ok f6" "pf_enabled (s_perf (h_soc f6))" "pf_stalls (s_perf (h_soc f6)) = 0"
      "pf_mem_acc (s_perf (h_soc f6)) = 48" "uart_tx_stream (s_uart (h_soc f6)) = app_msg"
      "t_irq_status (s_timer (h_soc f6)) = 0"
    by auto
  have run: "run_state (app_main malloc mem_first) f =
      ((0, Some (14, if mem_first then 49 else 50, 0)), f6\<lparr>h_soc := counted (counted (h_soc f6))\<rparr>)"
    unfolding app_main_def by (simp add: init check send(1) tail app_metrics_run [OF fin(1-4)])
  show ?thesis
    unfolding run using fin(1,5,6) by (simp add: app_msg_def host_ok_def counted_wf)
qed

definition app_static :: app_fw where
  "app_static = isr_fw.extend (firmware.extend fw_static
       \<lparr>v_vectors = replicate 8 None, v_n_lines = VLAB_IRQ_COUNT, v_dispatched = 0\<rparr>)
     \<lparr>p_ram_data = replicate 4 0, p_ram_bss = replicate 8 0\<rparr>"

lemma app_static_facts:
  "app_storage app_static" "\<not> h_inited app_static" "soc_storage (h_soc app_static)"
  using soc_static_storage
  by (simp_all add: app_storage_def app_static_def fw_static_def host_static_def host.defs firmware.defs isr_fw.defs)

theorem app_main_succeeds_witness:
  "fst (run_state (app_main (\<lambda>n. None) True) app_static) = (0, Some (14, 49, 0))"
proof -
  have "malloc_sound (\<lambda>n. None)"
    by (simp add: malloc_sound_def)
  from app_main_succeeds [OF this app_static_facts, of True] show ?thesis
    by (simp add: split_def prod_eq_iff)
qed

theorem platform_init_establishes_witness:
  "fst (run_state platform_self_check (snd (run_state platform_init app_static))) = 0"
proof -
  obtain rc f' where r: "run_state platform_init app_static = (rc, f')"
    by (meson surj_pair)
  from platform_init_establishes [OF app_static_facts(1) _ r refl] app_static_facts(2,3) r show ?thesis
    by simp
qed

end
