(* ===== verification/Bench.thy ===== *)
theory Bench
  imports App
begin

text \<open>
  The two benchmark programs of \<open>soc_c/bench\<close>. Each starts from an uninitialised \<open>soc_t\<close> on the
  stack, which is an argument here: nothing is assumed of it but the sizes of its arrays. The
  theorems say what the programs print: the boot time, and for every transfer size and burst
  length the documented number of ticks, with the destination equal to the source.
\<close>

section \<open>Boot time\<close>

text \<open>The printed boot information and the exit code.\<close>

definition boot_time_main :: "(nat \<Rightarrow> u8 list option) \<Rightarrow> soc_t \<Rightarrow> soc_boot_info_t \<times> int" where
  "boot_time_main malloc s =
     (let s1 = soc_init s (Some soc_config_default);
          (info, s2) = soc_boot malloc s1 None
      in (info, if bi_boot_ticks info = 5 then 0 else 1))"

section \<open>CPU against DMA\<close>

definition BENCH_SRC :: u32 where [simp]: "BENCH_SRC = SOC_DMA_BASE + 0x00"
definition BENCH_DST :: u32 where [simp]: "BENCH_DST = SOC_DMA_BASE + 0x04"
definition BENCH_LEN :: u32 where [simp]: "BENCH_LEN = SOC_DMA_BASE + 0x08"
definition BENCH_CTRL :: u32 where [simp]: "BENCH_CTRL = SOC_DMA_BASE + 0x0C"
definition BENCH_STATUS :: u32 where [simp]: "BENCH_STATUS = SOC_DMA_BASE + 0x10"
definition BENCH_DONE :: u32 where [simp]: "BENCH_DONE = 2"
definition BENCH_ERROR :: u32 where [simp]: "BENCH_ERROR = 4"

definition pred_done :: soc_pred_t where
  "pred_done s = (case soc_read s BENCH_STATUS of (rc, s1) \<Rightarrow>
     ((case rc of Inl e \<Rightarrow> 0 | Inr st \<Rightarrow> st) AND (BENCH_DONE OR BENCH_ERROR) \<noteq> 0, s1))"

record bench_row =
  b_size :: u32
  b_burst :: u32
  b_words :: u32
  b_nbursts :: u32
  b_dma_ticks :: int
  b_cpu_ticks :: u32

definition bench_sizes :: "u32 list" where
  "bench_sizes = [16, 64, 256, 1024, 4096, 16384]"

definition bench_bursts :: "u32 list" where
  "bench_bursts = [1, 2, 4, 8, 16]"

text \<open>The fill loop writes word \<open>i\<close> of the source, for \<open>i\<close> below \<open>n\<close>.\<close>

definition bench_fill :: "nat \<Rightarrow> soc_t \<Rightarrow> soc_t" where
  "bench_fill n s = fold (\<lambda>i s. snd (soc_sram_write_word s (SOC_SRAM_BASE + of_nat i * 4) (0xA5000000 OR of_nat i))) [0..<n] s"

text \<open>The comparison loop: \<open>False\<close> at the first difference. A refused read leaves the variable at 0.\<close>

fun bench_same :: "nat list \<Rightarrow> soc_t \<Rightarrow> bool" where
  "bench_same [] s = True"
| "bench_same (i # is) s =
     (case soc_sram_read_word s (SOC_SRAM_BASE + of_nat i * 4) of (ra, s1) \<Rightarrow>
      case soc_sram_read_word s1 (SOC_SRAM_BASE + 0x8000 + of_nat i * 4) of (rb, s2) \<Rightarrow>
        if reg_value ra \<noteq> reg_value rb then False else bench_same is s2)"

text \<open>One iteration of the inner loop; \<open>None\<close> is the mismatch.\<close>

definition bench_case :: "(nat \<Rightarrow> u8 list option) \<Rightarrow> soc_t \<Rightarrow> u32 \<Rightarrow> u32 \<Rightarrow> bench_row option" where
  "bench_case malloc s sz burst =
     (let cfg = soc_config_default\<lparr>cfg_dma_burst := burst\<rparr>;
          s1 = snd (soc_boot malloc (soc_init s (Some cfg)) None);
          s2 = bench_fill (unat (sz div 4)) s1;
          s3 = snd (soc_write s2 BENCH_SRC SOC_SRAM_BASE);
          s4 = snd (soc_write s3 BENCH_DST (SOC_SRAM_BASE + 0x8000));
          s5 = snd (soc_write s4 BENCH_LEN sz);
          s6 = snd (soc_write s5 BENCH_CTRL 1);
          (dma_ticks, s7) = soc_run_until malloc s6 (Some pred_done) 100000;
          words = sz div 4;
          nbursts = (words + burst - 1) div burst;
          cpu_ticks = words * 3
      in if bench_same [0..<unat words] s7
         then Some \<lparr>b_size = sz, b_burst = burst, b_words = words, b_nbursts = nbursts,
                b_dma_ticks = dma_ticks, b_cpu_ticks = cpu_ticks\<rparr>
         else None)"

text \<open>
  The nested loops, over the pairs of size and burst that are left: the rows printed and the exit
  code. \<open>stack\<close> gives the uninitialised \<open>soc_t\<close> of each iteration.
\<close>

fun bench_rows ::
    "(nat \<Rightarrow> u8 list option) \<Rightarrow> (u32 \<times> u32 \<Rightarrow> soc_t) \<Rightarrow> (u32 \<times> u32) list \<Rightarrow> bench_row list \<times> int" where
  "bench_rows malloc stack [] = ([], 0)"
| "bench_rows malloc stack ((sz, burst) # ps) =
     (case bench_case malloc (stack (sz, burst)) sz burst of
        None \<Rightarrow> ([], 1)
      | Some r \<Rightarrow> (case bench_rows malloc stack ps of (rs, code) \<Rightarrow> (r # rs, code)))"

definition cpu_vs_dma_main :: "(nat \<Rightarrow> u8 list option) \<Rightarrow> (u32 \<times> u32 \<Rightarrow> soc_t) \<Rightarrow> bench_row list \<times> int" where
  "cpu_vs_dma_main malloc stack = bench_rows malloc stack (List.product bench_sizes bench_bursts)"

section \<open>Waiting for the engine\<close>

lemma soc_read_sram_frame [simp]: "s_sram (snd (soc_read s a)) = s_sram s"
proof -
  have "s_sram (snd (soc_read_device t kind a)) = s_sram t" for t kind
    by (cases kind rule: device_kinds) (simp_all add: soc_read_device_def split_def)
  then show ?thesis
    by (simp add: soc_read_def Let_def split_def soc_stall_def split: sum.split)
qed

lemma pred_done_snd: "snd (pred_done s) = snd (soc_read s 0x20002010)"
  by (simp add: pred_done_def split_def)

lemma pred_done_fst:
  assumes "soc_wf s"
  shows "fst (pred_done s) \<longleftrightarrow> d_done (s_dma s) \<or> d_error (s_dma s)"
proof -
  have "soc_dma_status d AND 6 \<noteq> 0 \<longleftrightarrow> d_done d \<or> d_error d" for d :: "dma_mem soc_dma_t"
    by (simp add: soc_dma_status_def Let_def)
  then show ?thesis
    using assms by (simp add: pred_done_def register_read_values)
qed

text \<open>The wait is a countdown too: the predicate only reads.\<close>

interpretation bench_cd: countdown "wait_round malloc (Some pred_done)"
  "\<lambda>s. dma_running (s_dma s)" "\<lambda>s. nat (d_remaining (s_dma s))"
  "\<lambda>s. ((s_dma s)\<lparr>d_remaining := 0\<rparr>, s_sram s)" for malloc
proof unfold_locales
  fix s :: soc_t
  assume h: "dma_running (s_dma s)" "1 < nat (d_remaining (s_dma s))"
  let ?s = "snd (soc_read s 0x20002010)"
  have "dma_running (s_dma ?s)" "1 < d_remaining (s_dma ?s)"
    using h by simp_all
  note t = soc_tick_running [OF this, of malloc]
  have w: "wait_round malloc (Some pred_done) s = soc_tick malloc ?s"
    by (simp add: wait_round_def pred_holds_def pred_done_snd)
  show "dma_running (s_dma (wait_round malloc (Some pred_done) s))"
    using h(1) by (simp add: w t)
  show "nat (d_remaining (s_dma (wait_round malloc (Some pred_done) s))) = nat (d_remaining (s_dma s)) - 1"
    by (simp add: w t nat_diff_distrib)
  show "((s_dma (wait_round malloc (Some pred_done) s))\<lparr>d_remaining := 0\<rparr>, s_sram (wait_round malloc (Some pred_done) s)) =
      ((s_dma s)\<lparr>d_remaining := 0\<rparr>, s_sram s)"
    by (simp add: w t)
qed

lemma wait_rounds_wf:
  assumes "soc_wf s" and "malloc_sound malloc"
  shows "soc_wf ((wait_round malloc (Some pred_done) ^^ k) s)"
proof (induction k)
  case (Suc k)
  then show ?case
    using soc_tick_wf [OF soc_read_wf assms(2)] by (simp add: wait_round_def pred_holds_def pred_done_snd)
qed (simp add: assms(1))

text \<open>While the transfer runs, the predicate does not hold.\<close>

lemma bench_busy:
  assumes "soc_wf s" and "malloc_sound malloc" and "dma_running (s_dma s)" and "\<not> d_done (s_dma s)"
    and "\<not> d_error (s_dma s)" and "j < nat (d_remaining (s_dma s))"
  shows "\<not> fst (pred_holds (Some pred_done) ((wait_round malloc (Some pred_done) ^^ j) s))"
proof -
  let ?t = "(wait_round malloc (Some pred_done) ^^ j) s"
  have "(s_dma ?t)\<lparr>d_remaining := 0\<rparr> = (s_dma s)\<lparr>d_remaining := 0\<rparr>"
    using bench_cd.running [of s j malloc] assms(3,6) by simp
  then have "\<not> d_done (s_dma ?t)" "\<not> d_error (s_dma ?t)"
    using assms(4,5) by (cases "s_dma ?t"; cases "s_dma s"; simp)+
  then show ?thesis
    by (simp add: pred_holds_def pred_done_fst [OF wait_rounds_wf [OF assms(1,2)]])
qed

text \<open>The round that completes a memory-to-memory transfer.\<close>

lemma bench_last:
  assumes "soc_wf s" and "malloc_sound malloc" and "malloc (unat (d_length (s_dma s))) \<noteq> None"
    and "dma_running (s_dma s)" and "0 < d_remaining (s_dma s)"
    and "in_vlab_sram (d_src (s_dma s)) (d_length (s_dma s))" and "in_vlab_sram (d_dst (s_dma s)) (d_length (s_dma s))"
  defines "s' \<equiv> (wait_round malloc (Some pred_done) ^^ nat (d_remaining (s_dma s))) s"
  shows "d_done (s_dma s')"
    and "m_bytes (s_sram s') = blit (m_bytes (s_sram s)) (unat (d_dst (s_dma s)) - 0x10000000)
      (bytes_at (m_bytes (s_sram s)) (unat (d_src (s_dma s)) - 0x10000000) (unat (d_length (s_dma s))))"
proof -
  let ?d = "s_dma s"
  obtain k where k: "nat (d_remaining ?d) = Suc k"
    using assms(5) by (cases "nat (d_remaining ?d)") auto
  define t where "t = (wait_round malloc (Some pred_done) ^^ k) s"
  have tf: "dma_running (s_dma t)" "nat (d_remaining (s_dma t)) = 1"
      "(s_dma t)\<lparr>d_remaining := 0\<rparr> = ?d\<lparr>d_remaining := 0\<rparr>" "s_sram t = s_sram s"
    using bench_cd.running [of s k malloc] assms(4) k by (simp_all add: t_def)
  then have one: "d_remaining (s_dma t) = 1"
    by linarith
  let ?t = "snd (soc_read t 0x20002010)"
  have td: "d_src (s_dma t) = d_src ?d" "d_dst (s_dma t) = d_dst ?d" "d_length (s_dma t) = d_length ?d"
    using tf(3) by (cases "s_dma t"; cases ?d; simp)+
  have s': "s' = soc_tick malloc ?t"
    by (simp add: s'_def k t_def wait_round_def pred_holds_def pred_done_snd)
  have tr: "vlab_transfer (d_src ?d) (d_dst ?d) (d_length ?d)"
    using assms(6,7) by (simp add: vlab_transfer_def)
  have "soc_wf ?t"
    using soc_read_wf [OF wait_rounds_wf [OF assms(1,2)]] by (simp add: t_def)
  note L = soc_tick_last(1,2) [OF this, of malloc, simplified td tf(1,4) one soc_read_dma_frame soc_read_sram_frame,
      OF TrueI order_refl tr assms(2,3)]
  show "d_done (s_dma s')"
    by (simp add: s' L(1) dma_finished_def)
  have "d_src ?d \<noteq> 0x20000004" "d_dst ?d \<noteq> 0x20000000" "m_data (s_sram s) \<noteq> None"
    using assms(1,6,7) by (auto simp: in_vlab_sram_def soc_wf_def sram_ok_def mem_wf_def)
  then show "m_bytes (s_sram s') = blit (m_bytes (s_sram s)) (unat (d_dst ?d) - 0x10000000)
      (bytes_at (m_bytes (s_sram s)) (unat (d_src ?d) - 0x10000000) (unat (d_length ?d)))"
    using L(2) by (simp add: s' vlab_moved_def m_bytes_store)
qed

text \<open>The wait ends exactly when the transfer does, with the bytes moved.\<close>

lemma bench_wait:
  assumes "soc_wf s" and "malloc_sound malloc" and "malloc (unat (d_length (s_dma s))) \<noteq> None"
    and "dma_running (s_dma s)" and "0 < d_remaining (s_dma s)"
    and "in_vlab_sram (d_src (s_dma s)) (d_length (s_dma s))" and "in_vlab_sram (d_dst (s_dma s)) (d_length (s_dma s))"
    and "\<not> d_done (s_dma s)" and "\<not> d_error (s_dma s)" and "d_remaining (s_dma s) \<le> 100000"
  shows "\<exists>s'. soc_run_until malloc s (Some pred_done) 100000 = (d_remaining (s_dma s), s') \<and> soc_wf s' \<and>
    m_bytes (s_sram s') = blit (m_bytes (s_sram s)) (unat (d_dst (s_dma s)) - 0x10000000)
      (bytes_at (m_bytes (s_sram s)) (unat (d_src (s_dma s)) - 0x10000000) (unat (d_length (s_dma s))))"
proof -
  let ?T = "nat (d_remaining (s_dma s))"
  let ?s = "(wait_round malloc (Some pred_done) ^^ ?T) s"
  have wf: "soc_wf ?s"
    using assms(1,2) by (rule wait_rounds_wf)
  note L = bench_last [OF assms(1-7)]
  have hit: "fst (pred_holds (Some pred_done) ?s)"
    using L(1) by (simp add: pred_holds_def pred_done_fst [OF wf])
  have "soc_run_until malloc s (Some pred_done) 100000 = (int ?T, snd (pred_holds (Some pred_done) ?s))"
    using assms(10) hit bench_busy [OF assms(1,2,4,8,9)] by (intro soc_run_until_hit) simp_all
  moreover have "soc_wf (snd (pred_holds (Some pred_done) ?s))"
      "s_sram (snd (pred_holds (Some pred_done) ?s)) = s_sram ?s"
    using soc_read_wf [OF wf] by (simp_all add: pred_holds_def pred_done_snd)
  ultimately show ?thesis
    using L(2) assms(5) by auto
qed

section \<open>The loops around the transfer\<close>

lemma bench_addr:
  assumes "i < 4096"
  shows "unat (0x10000000 + of_nat i * 4 :: u32) = 0x10000000 + 4 * i"
    and "unat (0x10008000 + of_nat i * 4 :: u32) = 0x10008000 + 4 * i"
  using assms by (simp_all add: unat_word_ariths unat_of_nat)

lemma bench_addr_ok:
  assumes "i < 4096"
  shows "(0x10000000 + of_nat i * 4 :: u32) mod 4 = 0" "(0x10008000 + of_nat i * 4 :: u32) mod 4 = 0"
    and "in_sram_word (0x10000000 + of_nat i * 4)" "in_sram_word (0x10008000 + of_nat i * 4)"
  using assms by (simp_all add: word_mod_4_iff bench_addr in_sram_word_def)

lemma bench_fill_frame:
  assumes "soc_wf s"
  shows "n \<le> 4096 \<Longrightarrow> soc_wf (bench_fill n s) \<and> s_dma (bench_fill n s) = s_dma s"
proof (induction n)
  case (Suc n)
  let ?a = "0x10000000 + of_nat n * 4 :: u32"
  have step: "bench_fill (Suc n) s = snd (soc_write (bench_fill n s) ?a (0xA5000000 OR of_nat n))"
    by (simp add: bench_fill_def soc_sram_write_word_def)
  have "\<not> dma_window ?a"
    using Suc.prems by (simp add: dma_window_def bench_addr)
  with Suc show ?case
    by (simp add: step soc_write_wf soc_write_dma_frame)
qed (simp add: bench_fill_def assms)

lemma sram_word_at:
  assumes "sram_ok m" and "unat a = 0x10000000 + k" and "k mod 4 = 0" and "k < 0x10000"
  shows "soc_mem_read_word m a =
    Inr (word_of_bytes (m_bytes m ! k) (m_bytes m ! (k + 1)) (m_bytes m ! (k + 2)) (m_bytes m ! (k + 3)))"
proof -
  have "in_sram_word a"
    using assms(2-4) unfolding in_sram_word_def by presburger
  then have c: "soc_mem_contains m a 4"
    using assms(1) by (simp add: image_contains)
  have "unat (a - m_base m) = k"
    using contains_off(1) [OF c] assms(1,2) by (simp add: sram_ok_def)
  moreover have "a mod 4 = 0"
    using assms(2,3) by (simp add: word_mod_4_iff mod_add_eq [symmetric, of "0x10000000"])
  ultimately show ?thesis
    using c by (simp add: soc_mem_read_word_def soc_mem_offset_eq Let_def)
qed

lemma bench_same_equal:
  assumes "\<forall>i \<in> set is. i < 4096 \<and> (\<forall>j < 4. m_bytes (s_sram s) ! (0x8000 + 4 * i + j) = m_bytes (s_sram s) ! (4 * i + j))"
    and "soc_wf s"
  shows "bench_same is s"
  using assms
proof (induction "is" arbitrary: s)
  case (Cons i "is")
  let ?m = "s_sram s" and ?a = "0x10000000 + of_nat i * 4 :: u32" and ?b = "0x10008000 + of_nat i * 4 :: u32"
  let ?c = "\<lambda>s. s\<lparr>s_perf := soc_perf_count_mem (s_perf s)\<rparr>"
  have i: "i < 4096" and eq: "\<And>j. j < 4 \<Longrightarrow> m_bytes ?m ! (0x8000 + 4 * i + j) = m_bytes ?m ! (4 * i + j)"
    using Cons.prems(1) by auto
  have sok: "sram_ok ?m"
    using Cons.prems(2) by (simp add: soc_wf_def)
  have wf1: "soc_wf (?c s)"
    using Cons.prems(2) by (rule count_mem_wf)
  then have wf2: "soc_wf (?c (?c s))"
    by (rule count_mem_wf)
  have ra: "soc_read s ?a = (soc_mem_read_word ?m ?a, ?c s)"
    using soc_read_sram [OF Cons.prems(2) bench_addr_ok(1,3) [OF i]] .
  have rb: "soc_read (?c s) ?b = (soc_mem_read_word ?m ?b, ?c (?c s))"
    using soc_read_sram [OF wf1 bench_addr_ok(2,4) [OF i]] by simp
  have "soc_mem_read_word ?m ?b = soc_mem_read_word ?m ?a"
    using sram_word_at [OF sok bench_addr(1) [OF i]] sram_word_at [OF sok, of ?b "0x8000 + 4 * i"]
      bench_addr(2) [OF i] i eq [of 0] eq [of 1] eq [of 2] eq [of 3]
    by (simp add: ac_simps)
  moreover have "bench_same is (?c (?c s))"
    using Cons.prems(1) by (intro Cons.IH wf2) simp
  ultimately show ?case
    by (simp add: soc_sram_read_word_def ra rb)
qed simp

text \<open>The engine after boot with a given burst length.\<close>

lemma bench_booted:
  fixes malloc :: "nat \<Rightarrow> u8 list option" and s :: soc_t and burst :: u32
  assumes "soc_storage s" and "0 < burst"
  defines "b \<equiv> snd (soc_boot malloc (soc_init s (Some (soc_config_default\<lparr>cfg_dma_burst := burst\<rparr>))) None)"
  shows "soc_wf b" and "\<not> d_busy (s_dma b)" and "\<not> d_fault_stuck_busy (s_dma b)" and "d_burst (s_dma b) = burst"
    and "d_latency_per_word (s_dma b) = 1"
proof -
  let ?s = "soc_init s (Some (soc_config_default\<lparr>cfg_dma_burst := burst\<rparr>))"
  have wf: "soc_wf ?s"
    using assms(1) by (rule soc_init_wf)
  then show "soc_wf b"
    unfolding b_def by (rule soc_boot_wf)
  have "s_dma b = soc_dma_reset (s_dma ?s)"
    by (simp add: b_def soc_boot_eq [OF wf] Let_def boot_ready_def soc_reset_peripherals_def)
  then show "\<not> d_busy (s_dma b)" "\<not> d_fault_stuck_busy (s_dma b)" "d_burst (s_dma b) = burst"
      "d_latency_per_word (s_dma b) = 1"
    using assms(2) by (simp_all add: soc_dma_reset_def soc_init_def Let_def soc_dma_init_def soc_config_default_def)
qed

lemma bench_copy_equal:
  assumes "unat len \<le> 16384" and "0x10000 \<le> length d" and "i < unat len div 4" and "j < 4"
    and "d' = blit d 0x8000 (bytes_at d 0 (unat len))"
  shows "d' ! (0x8000 + 4 * i + j) = d' ! (4 * i + j)"
proof -
  have k: "4 * i + j < unat len"
    using assms(3,4) by presburger
  then have "d' ! (0x8000 + (4 * i + j)) = bytes_at d 0 (unat len) ! (4 * i + j)"
    using assms(1,2) by (simp add: assms(5) nth_blit)
  also have "\<dots> = d ! (4 * i + j)"
    using k assms(1,2) nth_bytes_at [of "4 * i + j" "unat len" 0 d] by simp
  also have "\<dots> = d' ! (4 * i + j)"
    using k assms(1,2) by (simp add: assms(5) nth_blit)
  finally show ?thesis
    by (simp add: ac_simps)
qed

text \<open>The row of a size and a burst length.\<close>

definition bench_row_of :: "u32 \<times> u32 \<Rightarrow> bench_row" where
  "bench_row_of = (\<lambda>(sz, burst). \<lparr>b_size = sz, b_burst = burst, b_words = sz div 4,
     b_nbursts = (sz div 4 + burst - 1) div burst,
     b_dma_ticks = int (dma_words sz + (dma_bursts burst sz - 1)), b_cpu_ticks = sz div 4 * 3\<rparr>)"

definition bench_valid :: "u32 \<times> u32 \<Rightarrow> bool" where
  "bench_valid = (\<lambda>(sz, burst). 0 < unat sz \<and> unat sz \<le> 16384 \<and> unat sz mod 4 = 0 \<and> 0 < unat burst \<and>
     unat burst \<le> 1024)"

lemma bench_duration:
  assumes "bench_valid (sz, burst)"
  shows "dma_words sz + (dma_bursts burst sz - 1) \<le> 100000"
proof -
  have v: "unat sz \<le> 16384" "unat burst \<le> 1024"
    using assms by (simp_all add: bench_valid_def)
  have "dma_bursts burst sz \<le> dma_words sz + unat burst"
    unfolding dma_bursts_def by (meson diff_le_self div_le_dividend le_trans)
  moreover have "dma_words sz \<le> 4096"
    using v(1) div_le_mono [of "unat sz + 3" 16387 4] by (simp add: dma_words_def)
  ultimately show ?thesis
    using v(2) by linarith
qed

text \<open>The engine of a case, right after its START.\<close>

lemma bench_programmed:
  fixes malloc :: "nat \<Rightarrow> u8 list option"
  assumes "soc_storage s" and "bench_valid (sz, burst)"
  defines "s2 \<equiv> bench_fill (unat (sz div 4)) (snd (soc_boot malloc (soc_init s (Some (soc_config_default\<lparr>cfg_dma_burst := burst\<rparr>))) None))"
  defines "s6 \<equiv> dma_program s2 0x10000000 0x10008000 sz False"
  shows "soc_wf s6" and "dma_running (s_dma s6)" and "0 < d_remaining (s_dma s6)"
    and "d_remaining (s_dma s6) = int (dma_words sz + (dma_bursts burst sz - 1))"
    and "d_src (s_dma s6) = 0x10000000" and "d_dst (s_dma s6) = 0x10008000" and "d_length (s_dma s6) = sz"
    and "\<not> d_done (s_dma s6)" and "\<not> d_error (s_dma s6)" and "s_sram s6 = s_sram s2" and "soc_wf s2"
proof -
  note v = assms(2) [unfolded bench_valid_def, simplified]
  have "0 < burst"
    using v by (simp add: word_gt_0 unat_gt_0)
  note B = bench_booted [OF assms(1) this, of malloc]
  have "unat (sz div 4) \<le> 4096"
    using v div_le_mono [of "unat sz" 16384 4] by (simp add: unat_div)
  note F = bench_fill_frame [OF B(1) this, folded s2_def]
  have geo: "vlab_aligned 0x10000000 0x10008000 sz" "vlab_transfer 0x10000000 0x10008000 sz" "unat sz \<le> 16384"
    using v by (simp_all add: in_vlab_sram_def vlab_aligned_def vlab_transfer_def)
  have "\<not> d_busy (s_dma s2)" "\<not> d_fault_stuck_busy (s_dma s2)" "dma_words sz + unat (d_burst (s_dma s2)) \<le> 2 ^ 32"
      "dma_words sz * unat (d_latency_per_word (s_dma s2)) + (dma_bursts (d_burst (s_dma s2)) sz - 1) < 2 ^ 31"
    using F B v bench_duration [OF assms(2)] by simp_all
  note P = dma_program_accepted [OF conjunct1 [OF F] this(1,2) geo(3,1,2) this(3,4), of False, folded s6_def]
  show "soc_wf s6" "dma_running (s_dma s6)" "0 < d_remaining (s_dma s6)" "soc_wf s2"
    using P F by simp_all
  show "d_remaining (s_dma s6) = int (dma_words sz + (dma_bursts burst sz - 1))"
    using P(4) F B by simp
  show "d_src (s_dma s6) = 0x10000000" "d_dst (s_dma s6) = 0x10008000" "d_length (s_dma s6) = sz"
      "\<not> d_done (s_dma s6)" "\<not> d_error (s_dma s6)" "s_sram s6 = s_sram s2"
    by (simp_all add: P(1) dma_started_def dma_request_def)
qed

lemma bench_case_row:
  assumes "soc_storage s" and "malloc_sound malloc" and "malloc (unat sz) \<noteq> None" and "bench_valid (sz, burst)"
  shows "bench_case malloc s sz burst = Some (bench_row_of (sz, burst))"
proof -
  let ?s1 = "snd (soc_boot malloc (soc_init s (Some (soc_config_default\<lparr>cfg_dma_burst := burst\<rparr>))) None)"
  let ?s2 = "bench_fill (unat (sz div 4)) ?s1"
  let ?s6 = "dma_program ?s2 0x10000000 0x10008000 sz False"
  let ?T = "dma_words sz + (dma_bursts burst sz - 1)"
  note v = assms(4) [unfolded bench_valid_def, simplified]
  note P = bench_programmed [OF assms(1,4), of malloc]
  have geo: "in_vlab_sram 0x10000000 sz" "in_vlab_sram 0x10008000 sz"
    using v by (simp_all add: in_vlab_sram_def)
  obtain s7 where w: "soc_run_until malloc ?s6 (Some pred_done) 100000 = (int ?T, s7)" "soc_wf s7"
      "m_bytes (s_sram s7) = blit (m_bytes (s_sram ?s2)) 0x8000 (bytes_at (m_bytes (s_sram ?s2)) 0 (unat sz))"
    using bench_wait [OF P(1) assms(2) _ P(2,3)] P(4-10) bench_duration [OF assms(4)] geo assms(3) by auto
  have "0x10000 \<le> length (m_bytes (s_sram ?s2))"
    using P(11) by (auto simp: soc_wf_def sram_ok_def mem_wf_def)
  then have "\<forall>i \<in> set [0..<unat sz div 4]. i < 4096 \<and>
      (\<forall>j < 4. m_bytes (s_sram s7) ! (0x8000 + 4 * i + j) = m_bytes (s_sram s7) ! (4 * i + j))"
    using bench_copy_equal [OF _ _ _ _ w(3)] v by auto
  then have "bench_same [0..<unat sz div 4] s7"
    using w(2) by (rule bench_same_equal)
  then show ?thesis
    using w(1) by (simp add: bench_case_def bench_row_of_def Let_def dma_program_def unat_div)
qed

lemma bench_rows_all:
  assumes "malloc_sound malloc" and "\<And>n. n \<le> 16384 \<Longrightarrow> malloc n \<noteq> None" and "\<And>p. soc_storage (stack p)"
  shows "\<forall>p \<in> set ps. bench_valid p \<Longrightarrow> bench_rows malloc stack ps = (map bench_row_of ps, 0)"
proof (induction ps)
  case (Cons p ps)
  obtain sz burst where p: "p = (sz, burst)"
    by (cases p)
  have "bench_valid (sz, burst)"
    using Cons.prems by (simp add: p)
  then have "bench_case malloc (stack (sz, burst)) sz burst = Some (bench_row_of (sz, burst))"
    using bench_case_row [OF assms(3,1,2), of sz burst "(sz, burst)"] by (simp add: bench_valid_def)
  with Cons show ?case
    by (simp add: p)
qed simp

lemma bench_table_valid: "\<forall>p \<in> set (List.product bench_sizes bench_bursts). bench_valid p"
  by (simp add: bench_sizes_def bench_bursts_def bench_valid_def)

text \<open>What a row says, as numbers.\<close>

lemma bench_row_numbers:
  assumes "bench_valid (sz, burst)"
  defines "r \<equiv> bench_row_of (sz, burst)"
  shows "4 * unat (b_words r) = unat sz"
    and "unat (b_nbursts r) = (unat (b_words r) + unat burst - 1) div unat burst"
    and "b_dma_ticks r = int (unat (b_words r)) + int (unat (b_nbursts r)) - 1"
    and "unat (b_cpu_ticks r) = 3 * unat (b_words r)"
    and "b_dma_ticks r < int (unat (b_cpu_ticks r))"
proof -
  have v: "0 < unat sz" "unat sz \<le> 16384" "unat sz mod 4 = 0" "0 < unat burst" "unat burst \<le> 1024"
    using assms(1) by (simp_all add: bench_valid_def)
  have w: "unat (b_words r) = unat sz div 4"
    by (simp add: r_def bench_row_of_def unat_div)
  show w4: "4 * unat (b_words r) = unat sz"
    using v(3) unfolding w by presburger
  have words: "dma_words sz = unat (b_words r)"
    using v(3) unfolding w dma_words_def by presburger
  have "unat (sz div 4 + burst) = unat sz div 4 + unat burst"
    using v by (simp add: unat_word_ariths unat_div)
  then have "unat (sz div 4 + burst - 1) = unat sz div 4 + unat burst - 1"
    using v(4) by (subst unat_sub) (simp_all add: word_le_nat_alt)
  then show nb: "unat (b_nbursts r) = (unat (b_words r) + unat burst - 1) div unat burst"
    by (simp add: r_def bench_row_of_def unat_div)
  then have bursts: "dma_bursts burst sz = unat (b_nbursts r)"
    by (simp add: dma_bursts_def words)
  have wpos: "0 < unat (b_words r)"
    using w4 v(1) by linarith
  note ceil = ceil_div_bounds [OF wpos v(4), folded nb]
  have "b_dma_ticks r = int (dma_words sz + (dma_bursts burst sz - 1))"
    by (simp add: r_def bench_row_of_def)
  then show ticks: "b_dma_ticks r = int (unat (b_words r)) + int (unat (b_nbursts r)) - 1"
    unfolding words bursts using ceil(1) by linarith
  show "unat (b_cpu_ticks r) = 3 * unat (b_words r)"
    using v(2) w by (simp add: r_def bench_row_of_def unat_word_ariths unat_div)
  then show "b_dma_ticks r < int (unat (b_cpu_ticks r))"
    unfolding ticks using wpos ceil(2) by linarith
qed

section \<open>Properties\<close>

text \<open>
  C27. The CPU-against-DMA benchmark. With an allocator that can serve 16 KiB, the program exits
  with 0 after one row per pair of size and burst length: no destination differs from its
  source, the measured ticks are words plus bursts minus one, the ticks of a CPU copy are three
  per word, and every transfer is faster than the CPU copy.
\<close>

theorem cpu_vs_dma_table:
  assumes "malloc_sound malloc" and "\<And>n. n \<le> 16384 \<Longrightarrow> malloc n \<noteq> None" and "\<And>p. soc_storage (stack p)"
    and "cpu_vs_dma_main malloc stack = (rows, code)"
  shows "code = 0 \<and> map (\<lambda>r. (b_size r, b_burst r)) rows = List.product bench_sizes bench_bursts \<and>
    (\<forall>r \<in> set rows. 4 * unat (b_words r) = unat (b_size r) \<and>
       unat (b_nbursts r) = (unat (b_words r) + unat (b_burst r) - 1) div unat (b_burst r) \<and>
       b_dma_ticks r = int (unat (b_words r)) + int (unat (b_nbursts r)) - 1 \<and>
       unat (b_cpu_ticks r) = 3 * unat (b_words r) \<and> b_dma_ticks r < int (unat (b_cpu_ticks r)))"
proof -
  let ?ps = "List.product bench_sizes bench_bursts"
  have r: "rows = map bench_row_of ?ps" "code = 0"
    using bench_rows_all [OF assms(1-3) bench_table_valid] assms(4) by (simp_all add: cpu_vs_dma_main_def)
  have id: "b_size (bench_row_of p) = fst p" "b_burst (bench_row_of p) = snd p" for p
    by (simp_all add: bench_row_of_def split_def)
  have "4 * unat (b_words r) = unat (b_size r) \<and>
       unat (b_nbursts r) = (unat (b_words r) + unat (b_burst r) - 1) div unat (b_burst r) \<and>
       b_dma_ticks r = int (unat (b_words r)) + int (unat (b_nbursts r)) - 1 \<and>
       unat (b_cpu_ticks r) = 3 * unat (b_words r) \<and> b_dma_ticks r < int (unat (b_cpu_ticks r))" if "r \<in> set rows" for r
  proof -
    from that r(1) have "r \<in> bench_row_of ` set ?ps"
      by (simp only: set_map)
    then obtain p where p: "r = bench_row_of p" "p \<in> set ?ps"
      by blast
    then have "bench_valid p"
      using bench_table_valid by blast
    with p(1) show ?thesis
      using bench_row_numbers [of "fst p" "snd p"] id [of p] by simp
  qed
  moreover have "map (\<lambda>r. (b_size r, b_burst r)) rows = ?ps"
    by (simp add: r(1) comp_def id)
  ultimately show ?thesis
    using r(2) by blast
qed

text \<open>
  The boot benchmark. Whatever the stack held, the program reports five ticks at 100 MHz,
  which is 50 ns, and exits with 0.
\<close>

theorem boot_time_exact:
  assumes "soc_storage s"
  shows "boot_time_main malloc s =
    (\<lparr>bi_boot_ticks = 5, bi_cpu_frequency_mhz = 100, bi_boot_ns = 50\<rparr>, 0)"
proof -
  have "soc_wf (soc_init s (Some soc_config_default))"
    using assms by (rule soc_init_wf)
  moreover have "cfg_cpu_frequency_mhz (s_config (soc_init s (Some soc_config_default))) = 100"
    by (simp add: soc_init_def Let_def soc_config_default_def)
  ultimately show ?thesis
    by (simp add: boot_time_main_def soc_boot_eq Let_def)
qed

theorem boot_time_exact_witness:
  "snd (boot_time_main (\<lambda>n. None) soc_static) = 0"
  using boot_time_exact [OF soc_static_storage, of "\<lambda>n. None"] by simp

theorem cpu_vs_dma_table_witness:
  "snd (cpu_vs_dma_main (\<lambda>n. Some (replicate n 0)) (\<lambda>p. soc_static)) = 0 \<and>
   length (fst (cpu_vs_dma_main (\<lambda>n. Some (replicate n 0)) (\<lambda>p. soc_static))) = 30"
proof -
  obtain rows code where r: "cpu_vs_dma_main (\<lambda>n. Some (replicate n 0)) (\<lambda>p. soc_static) = (rows, code)"
    by (meson surj_pair)
  have t: "code = 0" "map (\<lambda>r. (b_size r, b_burst r)) rows = List.product bench_sizes bench_bursts"
    using cpu_vs_dma_table [OF malloc_total _ soc_static_storage r] by simp_all
  have "length rows = length bench_sizes * length bench_bursts"
    using arg_cong [OF t(2), of length] by (simp only: length_map length_product)
  then show ?thesis
    using r t(1) by (simp add: bench_sizes_def bench_bursts_def)
qed

end
