(* ===== verification/Soc_Faults.thy ===== *)
theory Soc_Faults
  imports Soc_Dma
begin

text \<open>
  What can go wrong while a transfer runs, and how the SoC recovers: an allocator that fails at
  arbitrary ticks, request registers that change after the START, the stuck-busy latch of the
  fault-injection tests, and a peripheral reset in the middle of a transfer. The document
  \<open>docs/fault-injection.md\<close> gives the intended behaviour of the last two, \<open>docs/soc-spec.md\<close> that of the
  second.
\<close>

section \<open>An allocator that changes its mind\<close>

text \<open>Ticks with an allocator of their own each: \<open>ms i\<close> serves tick \<open>i\<close>.\<close>

primrec soc_ticks_with :: "(nat \<Rightarrow> nat \<Rightarrow> u8 list option) \<Rightarrow> nat \<Rightarrow> soc_t \<Rightarrow> soc_t" where
  "soc_ticks_with ms 0 s = s"
| "soc_ticks_with ms (Suc k) s = soc_tick (ms k) (soc_ticks_with ms k s)"

lemma soc_ticks_with_wf [wf_intros]:
  "soc_wf s \<Longrightarrow> \<forall>i. malloc_sound (ms i) \<Longrightarrow> soc_wf (soc_ticks_with ms k s)"
  by (induction k) (simp_all add: soc_tick_wf)

lemma soc_ticks_with_const: "soc_ticks_with (\<lambda>i. malloc) k s = (soc_tick malloc ^^ k) s"
  by (induction k) simp_all

text \<open>As long as ticks are left or no buffer is to be had, nothing but the count moves.\<close>

lemma soc_waiting:
  assumes "dma_running (s_dma s)"
    and "\<forall>i < k. int i + 1 < d_remaining (s_dma s) \<or> ms i (dma_tmp_size (s_dma s)) = None"
  shows "s_dma (soc_ticks_with ms k s) = (s_dma s)\<lparr>d_remaining := d_remaining (s_dma s) - int k\<rparr> \<and>
    s_sram (soc_ticks_with ms k s) = s_sram s \<and>
    (s_perf (soc_ticks_with ms k s))\<lparr>pf_cycles := 0\<rparr> = (s_perf s)\<lparr>pf_cycles := 0\<rparr> \<and>
    (2 \<in> lines_of (ic_pending (s_intc (soc_ticks_with ms k s))) \<longleftrightarrow> 2 \<in> lines_of (ic_pending (s_intc s)))"
  using assms(2)
proof (induction k)
  case (Suc k)
  let ?t = "soc_ticks_with ms k s"
  have t: "s_dma ?t = (s_dma s)\<lparr>d_remaining := d_remaining (s_dma s) - int k\<rparr>" "s_sram ?t = s_sram s"
      "(s_perf ?t)\<lparr>pf_cycles := 0\<rparr> = (s_perf s)\<lparr>pf_cycles := 0\<rparr>"
      "2 \<in> lines_of (ic_pending (s_intc ?t)) \<longleftrightarrow> 2 \<in> lines_of (ic_pending (s_intc s))"
    using Suc by simp_all
  have run: "dma_running (s_dma ?t)"
    using assms(1) by (simp add: t)
  have perf: "(soc_perf_tick p)\<lparr>pf_cycles := 0\<rparr> = p\<lparr>pf_cycles := 0\<rparr>" for p
    by (simp add: soc_perf_tick_def)
  show ?case
  proof (cases "int k + 1 < d_remaining (s_dma s)")
    case True
    then show ?thesis
      using soc_tick_running [OF run, of "ms k"] t perf by (simp add: algebra_simps)
  next
    case False
    then have "ms k (dma_tmp_size (s_dma ?t)) = None" "d_remaining (s_dma ?t) \<le> 1"
      using Suc.prems by (auto simp: t)
    then show ?thesis
      using soc_tick_retry [OF run, of "ms k"] t perf by (simp add: algebra_simps)
  qed
qed simp

text \<open>The tick that ends a transfer inside SRAM.\<close>

lemma ram_tick_last:
  assumes "soc_wf s" and "dma_running (s_dma s)" and "d_remaining (s_dma s) \<le> 1"
    and "in_vlab_sram (d_src (s_dma s)) (d_length (s_dma s))" and "in_vlab_sram (d_dst (s_dma s)) (d_length (s_dma s))"
    and "malloc_sound malloc" and "malloc (unat (d_length (s_dma s))) \<noteq> None"
  shows "soc_dma_status (s_dma (soc_tick malloc s)) = SOC_DMA_STATUS_DONE"
    and "m_bytes (s_sram (soc_tick malloc s)) = blit (m_bytes (s_sram s)) (unat (d_dst (s_dma s)) - 0x10000000)
      (bytes_at (m_bytes (s_sram s)) (unat (d_src (s_dma s)) - 0x10000000) (unat (d_length (s_dma s))))"
    and "pf_dma_bytes (s_perf (soc_tick malloc s)) = (if pf_enabled (s_perf s)
      then pf_dma_bytes (s_perf s) + d_length (s_dma s) else pf_dma_bytes (s_perf s))"
    and "2 \<in> lines_of (ic_pending (s_intc (soc_tick malloc s))) \<longleftrightarrow>
      d_irq_enable_latched (s_dma s) \<or> 2 \<in> lines_of (ic_pending (s_intc s))"
proof -
  have tr: "vlab_transfer (d_src (s_dma s)) (d_dst (s_dma s)) (d_length (s_dma s))"
    using assms(4,5) by (simp add: vlab_transfer_def)
  have "d_src (s_dma s) \<noteq> 0x20000004" "d_dst (s_dma s) \<noteq> 0x20000000" "m_data (s_sram s) \<noteq> None"
    using assms(1,4,5) by (auto simp: in_vlab_sram_def soc_wf_def sram_ok_def mem_wf_def)
  with soc_tick_last [OF assms(1-3) tr assms(6,7)]
  show "soc_dma_status (s_dma (soc_tick malloc s)) = SOC_DMA_STATUS_DONE"
    and "m_bytes (s_sram (soc_tick malloc s)) = blit (m_bytes (s_sram s)) (unat (d_dst (s_dma s)) - 0x10000000)
      (bytes_at (m_bytes (s_sram s)) (unat (d_src (s_dma s)) - 0x10000000) (unat (d_length (s_dma s))))"
    and "pf_dma_bytes (s_perf (soc_tick malloc s)) = (if pf_enabled (s_perf s)
      then pf_dma_bytes (s_perf s) + d_length (s_dma s) else pf_dma_bytes (s_perf s))"
    and "2 \<in> lines_of (ic_pending (s_intc (soc_tick malloc s))) \<longleftrightarrow>
      d_irq_enable_latched (s_dma s) \<or> 2 \<in> lines_of (ic_pending (s_intc s))"
    by (simp_all add: dma_finished_def dma_status_values vlab_moved_def m_bytes_store soc_perf_count_dma_def
        soc_perf_tick_def)
qed

text \<open>
  C13. A failing allocator only delays a transfer. The buffer of the copy is allocated at the tick
  that would complete the transfer, and that allocation may fail at any tick, independently of
  the others. STATUS stays BUSY and every SRAM byte unchanged until the first tick, not before the
  documented duration, at which the allocator serves the request; that tick completes the
  transfer exactly as one that was never delayed. The count of the engine, which goes below
  zero meanwhile, is asked to stay within the range of its \<open>int32_t\<close>; the duration must be
  below 2^31 and the sum \<open>words + burst - 1\<close> must not wrap.
\<close>

theorem dma_alloc_retry:
  assumes "soc_wf s" and "\<not> d_busy (s_dma s)" and "\<not> d_fault_stuck_busy (s_dma s)"
    and "in_vlab_sram src len" and "in_vlab_sram dst len" and "vlab_aligned src dst len"
    and "unat len \<le> 16384"
    and "T = dma_words len * unat (d_latency_per_word (s_dma s)) + (dma_bursts (d_burst (s_dma s)) len - 1)"
    and "T < 2 ^ 31" and "dma_words len + unat (d_burst (s_dma s)) \<le> 2 ^ 32"
    and "\<forall>i. malloc_sound (ms i)" and "T \<le> Suc n" and "n < T + 2 ^ 31"
    and "\<forall>i < n. T \<le> Suc i \<longrightarrow> ms i (unat len) = None" and "ms n (unat len) \<noteq> None"
    and "run = (\<lambda>k. soc_ticks_with ms k (dma_program s src dst len irq))"
  shows "(\<forall>k \<le> n. soc_dma_status (s_dma (run k)) = SOC_DMA_STATUS_BUSY \<and>
      m_bytes (s_sram (run k)) = m_bytes (s_sram s)) \<and>
    soc_dma_status (s_dma (run (Suc n))) = SOC_DMA_STATUS_DONE \<and>
    m_bytes (s_sram (run (Suc n))) =
      blit (m_bytes (s_sram s)) (unat dst - 0x10000000)
        (bytes_at (m_bytes (s_sram s)) (unat src - 0x10000000) (unat len)) \<and>
    pf_dma_bytes (s_perf (run (Suc n))) =
      (if pf_enabled (s_perf s) then pf_dma_bytes (s_perf s) + len else pf_dma_bytes (s_perf s)) \<and>
    (2 \<in> lines_of (ic_pending (s_intc (run (Suc n)))) \<longleftrightarrow> irq \<or> 2 \<in> lines_of (ic_pending (s_intc s)))"
proof -
  let ?s0 = "dma_program s src dst len irq"
  have tr: "vlab_transfer src dst len" and pos: "len \<noteq> 0"
    using assms(4,5) by (auto simp: vlab_transfer_def in_vlab_sram_def)
  note P = dma_program_accepted [OF assms(1-3) assms(7,6) tr assms(10), folded assms(8), OF assms(9), of irq]
  have d0: "d_src (s_dma ?s0) = src" "d_dst (s_dma ?s0) = dst" "d_length (s_dma ?s0) = len"
      "d_busy (s_dma ?s0)" "\<not> d_done (s_dma ?s0)" "\<not> d_error (s_dma ?s0)"
      "d_irq_enable_latched (s_dma ?s0) = irq" "s_sram ?s0 = s_sram s" "s_intc ?s0 = s_intc s"
      "s_perf ?s0 = (soc_perf_count_mem ^^ 4) (s_perf s)"
    by (simp_all add: P(1) dma_started_def dma_request_def)
  have "\<forall>i < n. int i + 1 < d_remaining (s_dma ?s0) \<or> ms i (dma_tmp_size (s_dma ?s0)) = None"
    using assms(14) pos by (auto simp: P(4) dma_tmp_size_def d0)
  then have W: "s_dma (run k) = (s_dma ?s0)\<lparr>d_remaining := int T - int k\<rparr> \<and> s_sram (run k) = s_sram s \<and>
      (s_perf (run k))\<lparr>pf_cycles := 0\<rparr> = ((soc_perf_count_mem ^^ 4) (s_perf s))\<lparr>pf_cycles := 0\<rparr> \<and>
      (2 \<in> lines_of (ic_pending (s_intc (run k))) \<longleftrightarrow> 2 \<in> lines_of (ic_pending (s_intc s)))" if "k \<le> n" for k
    using soc_waiting [OF P(2), of k ms] that by (simp add: P(4) d0 assms(16))
  have busy: "soc_dma_status (s_dma (run k)) = SOC_DMA_STATUS_BUSY \<and>
      m_bytes (s_sram (run k)) = m_bytes (s_sram s)" if "k \<le> n" for k
    using W [OF that] d0 by (simp add: dma_status_values)
  have n: "s_dma (run n) = (s_dma ?s0)\<lparr>d_remaining := int T - int n\<rparr>" "s_sram (run n) = s_sram s"
      "2 \<in> lines_of (ic_pending (s_intc (run n))) \<longleftrightarrow> 2 \<in> lines_of (ic_pending (s_intc s))"
    using W [of n] by simp_all
  have perf: "pf_enabled (s_perf (run n)) = pf_enabled (s_perf s)" "pf_dma_bytes (s_perf (run n)) = pf_dma_bytes (s_perf s)"
    using W [of n] count_mem_4 [of 4 "s_perf s"]
    by (cases "s_perf (run n)"; cases "(soc_perf_count_mem ^^ 4) (s_perf s)"; simp)+
  have "soc_wf (run n)"
    using soc_ticks_with_wf [OF P(6) assms(11)] by (simp add: assms(16))
  note L = ram_tick_last [OF this _ _ _ _ assms(11) [rule_format, of n], unfolded n d0 perf, simplified]
  have "run (Suc n) = soc_tick (ms n) (run n)"
    by (simp add: assms(16))
  then show ?thesis
    using busy L P(2) assms(4,5,12,15) d0 by simp
qed

theorem dma_alloc_retry_witness:
  "soc_dma_status (s_dma (soc_ticks_with (\<lambda>i n. if i < 9 then None else Some (replicate n 0)) 10
     (dma_program (soc_init soc_static None) 0x10000000 0x10000100 16 True))) = SOC_DMA_STATUS_DONE"
proof -
  let ?s = "soc_init soc_static None" and ?ms = "\<lambda>i n. if i < 9 then None else Some (replicate n (0 :: u8))"
  have wf: "soc_wf ?s"
    by (rule soc_init_wf [OF soc_static_storage])
  have r: "in_vlab_sram 0x10000000 16" "in_vlab_sram 0x10000100 16" "vlab_aligned 0x10000000 0x10000100 16"
      "unat (16 :: u32) \<le> 16384"
    by (simp_all add: in_vlab_sram_def vlab_aligned_def)
  have T: "4 = dma_words 16 * unat (d_latency_per_word (s_dma ?s)) + (dma_bursts (d_burst (s_dma ?s)) 16 - 1)"
    by (simp add: soc_default_dma dma_words_def dma_bursts_def)
  have b: "dma_words 16 + unat (d_burst (s_dma ?s)) \<le> 2 ^ 32"
    by (simp add: soc_default_dma dma_words_def)
  have m: "\<forall>i. malloc_sound (?ms i)"
    by (simp add: malloc_sound_def)
  have "soc_dma_status (s_dma (soc_ticks_with ?ms (Suc 9) (dma_program ?s 0x10000000 0x10000100 16 True))) =
      SOC_DMA_STATUS_DONE"
    using dma_alloc_retry [OF wf soc_default_dma(1,2) r T _ b m _ _ _ _ refl, of 9 True] by simp
  then show ?thesis
    by simp
qed

section \<open>A running transfer from any point of its count\<close>

lemma soc_running_for:
  assumes "dma_running (s_dma s)" and "k < nat (d_remaining (s_dma s))"
  shows "s_dma ((soc_tick malloc ^^ k) s) = (s_dma s)\<lparr>d_remaining := d_remaining (s_dma s) - int k\<rparr>"
    and "s_sram ((soc_tick malloc ^^ k) s) = s_sram s"
    and "pf_enabled (s_perf ((soc_tick malloc ^^ k) s)) = pf_enabled (s_perf s)"
    and "pf_dma_bytes (s_perf ((soc_tick malloc ^^ k) s)) = pf_dma_bytes (s_perf s)"
    and "2 \<in> lines_of (ic_pending (s_intc ((soc_tick malloc ^^ k) s))) \<longleftrightarrow> 2 \<in> lines_of (ic_pending (s_intc s))"
proof -
  have "\<forall>i < k. int i + 1 < d_remaining (s_dma s) \<or> malloc (dma_tmp_size (s_dma s)) = None"
    using assms(2) by auto
  from soc_waiting [OF assms(1), where ms = "\<lambda>i. malloc", OF this, unfolded soc_ticks_with_const]
  show "s_dma ((soc_tick malloc ^^ k) s) = (s_dma s)\<lparr>d_remaining := d_remaining (s_dma s) - int k\<rparr>"
    and "s_sram ((soc_tick malloc ^^ k) s) = s_sram s"
    and "pf_enabled (s_perf ((soc_tick malloc ^^ k) s)) = pf_enabled (s_perf s)"
    and "pf_dma_bytes (s_perf ((soc_tick malloc ^^ k) s)) = pf_dma_bytes (s_perf s)"
    and "2 \<in> lines_of (ic_pending (s_intc ((soc_tick malloc ^^ k) s))) \<longleftrightarrow> 2 \<in> lines_of (ic_pending (s_intc s))"
    by (simp_all, (cases "s_perf ((soc_tick malloc ^^ k) s)"; cases "s_perf s"; simp)+)
qed

lemma busy_status: "dma_wf d \<Longrightarrow> d_busy d \<Longrightarrow> soc_dma_status d = SOC_DMA_STATUS_BUSY"
  by (auto simp: dma_wf_def dma_status_values)

lemma soc_running_busy:
  assumes "soc_wf s" and "dma_running (s_dma s)" and "malloc_sound malloc" and "k < nat (d_remaining (s_dma s))"
  shows "soc_dma_status (s_dma ((soc_tick malloc ^^ k) s)) = SOC_DMA_STATUS_BUSY \<and>
    s_sram ((soc_tick malloc ^^ k) s) = s_sram s"
proof
  have "dma_wf (s_dma ((soc_tick malloc ^^ k) s))"
    using soc_ticks_wf [OF assms(1,3)] by (simp add: soc_wf_def)
  then show "soc_dma_status (s_dma ((soc_tick malloc ^^ k) s)) = SOC_DMA_STATUS_BUSY"
    by (rule busy_status) (use soc_running_for(1) [OF assms(2,4)] assms(2) in \<open>simp add: dma_running_def\<close>)
qed (rule soc_running_for(2) [OF assms(2,4)])

lemma funpow_last: "0 < n \<Longrightarrow> (f ^^ n) x = f ((f ^^ (n - 1)) x)"
  by (cases n) simp_all

text \<open>A transfer of 16 bytes on the SoC in its default configuration, right after the START.\<close>

definition soc_copying :: soc_t where
  "soc_copying = dma_program (soc_init soc_static None) 0x10000000 0x10000100 16 True"

lemma soc_copying:
  "soc_wf soc_copying" "d_busy (s_dma soc_copying)" "\<not> d_fault_stuck_busy (s_dma soc_copying)"
  "d_remaining (s_dma soc_copying) = 4" "d_src (s_dma soc_copying) = 0x10000000"
  "d_dst (s_dma soc_copying) = 0x10000100" "d_length (s_dma soc_copying) = 16"
  "d_latency_per_word (s_dma soc_copying) = 1" "d_burst (s_dma soc_copying) = 4"
proof -
  let ?s = "soc_init soc_static None"
  have wf: "soc_wf ?s"
    by (rule soc_init_wf [OF soc_static_storage])
  have r: "unat (16 :: u32) \<le> 16384" "vlab_aligned 0x10000000 0x10000100 16" "vlab_transfer 0x10000000 0x10000100 16"
      "dma_words 16 + unat (d_burst (s_dma ?s)) \<le> 2 ^ 32"
      "dma_words 16 * unat (d_latency_per_word (s_dma ?s)) + (dma_bursts (d_burst (s_dma ?s)) 16 - 1) = 4"
    by (simp_all add: soc_default_dma dma_words_def dma_bursts_def vlab_transfer_def in_vlab_sram_def vlab_aligned_def)
  note P = dma_program_accepted [OF wf soc_default_dma(1,2) r(1-4), unfolded r(5), simplified, of True, folded soc_copying_def]
  show "soc_wf soc_copying" "d_busy (s_dma soc_copying)" "\<not> d_fault_stuck_busy (s_dma soc_copying)"
    "d_remaining (s_dma soc_copying) = 4"
    using P(2,4,6) by (simp_all add: dma_running_def)
  show "d_src (s_dma soc_copying) = 0x10000000" "d_dst (s_dma soc_copying) = 0x10000100"
    "d_length (s_dma soc_copying) = 16" "d_latency_per_word (s_dma soc_copying) = 1"
    "d_burst (s_dma soc_copying) = 4"
    by (simp_all add: P(1) dma_started_def dma_request_def soc_default_dma)
qed

section \<open>A request that changes after the START\<close>

text \<open>The port on plain memory: both ranges have to lie in SRAM, and nothing else is asked.\<close>

lemma ram_port_transfer:
  assumes "sram_ok sram" and "src \<noteq> VLAB_UART_RXDATA" and "dst \<noteq> VLAB_UART_TXDATA"
  shows "dma_transfer port_load port_store (u, sram) src dst len =
    (if in_vlab_sram src len \<and> in_vlab_sram dst len
     then (True, u, m_store sram (unat dst - 0x10000000) (bytes_at (m_bytes sram) (unat src - 0x10000000) (unat len)))
     else (False, u, sram))"
proof (cases "in_vlab_sram src len")
  case True
  note s = in_vlab_sram_off [OF assms(1) True]
  let ?xs = "bytes_at (m_bytes sram) (unat src - 0x10000000) (unat len)"
  have xs: "length ?xs = unat len"
    using contains_off(2) [OF s(1)] assms(1) by (intro length_bytes_at) (auto simp: s(2) sram_ok_def mem_wf_def)
  have "soc_mem_contains sram dst len = in_vlab_sram dst len"
    using sram_contains [OF assms(1)] by (auto simp: in_vlab_sram_def)
  moreover have "in_vlab_sram dst len \<Longrightarrow> unat (dst - m_base sram) = unat dst - 0x10000000"
    by (rule in_vlab_sram_off(2) [OF assms(1)])
  ultimately show ?thesis
    using True s assms(2,3) xs unat_u32_bound [of len] by (simp add: dma_transfer_def port_load_def port_store_def)
next
  case False
  then have "\<not> soc_mem_contains sram src len"
    using sram_contains [OF assms(1)] by (auto simp: in_vlab_sram_def)
  with False assms(2) show ?thesis
    by (simp add: dma_transfer_def port_load_def)
qed



section \<open>The stuck-busy latch\<close>

text \<open>Setting or clearing the latch, as the fault-injection tests do.\<close>

definition dma_latch :: "soc_t \<Rightarrow> bool \<Rightarrow> soc_t" where
  "dma_latch s b = s\<lparr>s_dma := (s_dma s)\<lparr>d_fault_stuck_busy := b\<rparr>\<rparr>"

lemma dma_latch_wf [wf_intros]: "soc_wf s \<Longrightarrow> soc_wf (dma_latch s b)"
  by (auto simp: soc_wf_def dma_latch_def dma_wf_def dma_bound_def)

lemma dma_latch_simps [simp]:
  "s_dma (dma_latch s b) = (s_dma s)\<lparr>d_fault_stuck_busy := b\<rparr>" "s_sram (dma_latch s b) = s_sram s"
  "s_perf (dma_latch s b) = s_perf s" "s_intc (dma_latch s b) = s_intc s"
  by (simp_all add: dma_latch_def)

lemma latched_not_running [simp]: "\<not> dma_running (d\<lparr>d_fault_stuck_busy := True\<rparr>)"
  by (simp add: dma_running_def)

text \<open>The counters and the DMA line while the engine stands still.\<close>

lemma soc_tick_still:
  assumes "\<not> dma_running (s_dma s)"
  shows "pf_enabled (s_perf (soc_tick malloc s)) = pf_enabled (s_perf s)"
    and "pf_dma_bytes (s_perf (soc_tick malloc s)) = pf_dma_bytes (s_perf s)"
    and "2 \<in> lines_of (ic_pending (s_intc (soc_tick malloc s))) \<longleftrightarrow> 2 \<in> lines_of (ic_pending (s_intc s))"
  using assms uart_step_line2 [of "s_uart s" "s_intc s"]
    timer_step_line2 [of "s_timer s" "snd (soc_uart_step (s_uart s) (s_intc s))"]
  by (simp_all add: soc_tick_def Let_def split_def dma_step_idle soc_perf_tick_def)

lemma soc_ticks_still:
  assumes "\<not> dma_running (s_dma s)"
  shows "s_dma ((soc_tick malloc ^^ k) s) = s_dma s \<and> s_sram ((soc_tick malloc ^^ k) s) = s_sram s \<and>
    pf_enabled (s_perf ((soc_tick malloc ^^ k) s)) = pf_enabled (s_perf s) \<and>
    pf_dma_bytes (s_perf ((soc_tick malloc ^^ k) s)) = pf_dma_bytes (s_perf s) \<and>
    (2 \<in> lines_of (ic_pending (s_intc ((soc_tick malloc ^^ k) s))) \<longleftrightarrow> 2 \<in> lines_of (ic_pending (s_intc s)))"
  by (induction k) (use assms in \<open>simp_all add: soc_tick_no_dma(1,2) soc_tick_still\<close>)

text \<open>The rest of a transfer inside SRAM.\<close>

lemma ram_transfer_rest:
  assumes "soc_wf s" and "dma_running (s_dma s)" and "0 < d_remaining (s_dma s)"
    and "in_vlab_sram (d_src (s_dma s)) (d_length (s_dma s))" and "in_vlab_sram (d_dst (s_dma s)) (d_length (s_dma s))"
    and "malloc_sound malloc" and "malloc (unat (d_length (s_dma s))) \<noteq> None"
  defines "s' \<equiv> (soc_tick malloc ^^ nat (d_remaining (s_dma s))) s"
  shows "soc_dma_status (s_dma s') = SOC_DMA_STATUS_DONE"
    and "m_bytes (s_sram s') = blit (m_bytes (s_sram s)) (unat (d_dst (s_dma s)) - 0x10000000)
      (bytes_at (m_bytes (s_sram s)) (unat (d_src (s_dma s)) - 0x10000000) (unat (d_length (s_dma s))))"
    and "pf_dma_bytes (s_perf s') = (if pf_enabled (s_perf s)
      then pf_dma_bytes (s_perf s) + d_length (s_dma s) else pf_dma_bytes (s_perf s))"
    and "2 \<in> lines_of (ic_pending (s_intc s')) \<longleftrightarrow>
      d_irq_enable_latched (s_dma s) \<or> 2 \<in> lines_of (ic_pending (s_intc s))"
proof -
  let ?T = "nat (d_remaining (s_dma s))" and ?t = "(soc_tick malloc ^^ (nat (d_remaining (s_dma s)) - 1)) s"
  have T: "0 < ?T" "?T - 1 < ?T"
    using assms(3) by simp_all
  note t = soc_running_for [OF assms(2) T(2), of malloc]
  have wf: "soc_wf ?t"
    by (rule soc_ticks_wf [OF assms(1,6)])
  have s': "s' = soc_tick malloc ?t"
    unfolding s'_def by (rule funpow_last [OF T(1)])
  have pre: "dma_running (s_dma ?t)" "d_remaining (s_dma ?t) \<le> 1"
      "in_vlab_sram (d_src (s_dma ?t)) (d_length (s_dma ?t))" "in_vlab_sram (d_dst (s_dma ?t)) (d_length (s_dma ?t))"
      "malloc (unat (d_length (s_dma ?t))) \<noteq> None"
    unfolding t using assms(2-5,7) by simp_all
  from ram_tick_last [OF wf pre(1-4) assms(6) pre(5), folded s', unfolded t]
  show "soc_dma_status (s_dma s') = SOC_DMA_STATUS_DONE"
    and "m_bytes (s_sram s') = blit (m_bytes (s_sram s)) (unat (d_dst (s_dma s)) - 0x10000000)
      (bytes_at (m_bytes (s_sram s)) (unat (d_src (s_dma s)) - 0x10000000) (unat (d_length (s_dma s))))"
    and "pf_dma_bytes (s_perf s') = (if pf_enabled (s_perf s)
      then pf_dma_bytes (s_perf s) + d_length (s_dma s) else pf_dma_bytes (s_perf s))"
    and "2 \<in> lines_of (ic_pending (s_intc s')) \<longleftrightarrow>
      d_irq_enable_latched (s_dma s) \<or> 2 \<in> lines_of (ic_pending (s_intc s))"
    by simp_all
qed

text \<open>
  C25. The stuck-busy fault freezes a transfer and loses nothing. Latched at any tick of a
  running memory-to-memory transfer, it keeps the engine BUSY with its count suspended and memory
  unchanged for as long as it is set, so DONE is never reported; once it is cleared the transfer
  completes after exactly the ticks that were left, with the bytes, the byte counter and the
  interrupt of a transfer that was never disturbed.
\<close>

theorem dma_stuck_resume:
  assumes "soc_wf s" and "d_busy (s_dma s)" and "\<not> d_fault_stuck_busy (s_dma s)"
    and "in_vlab_sram (d_src (s_dma s)) (d_length (s_dma s))" and "in_vlab_sram (d_dst (s_dma s)) (d_length (s_dma s))"
    and "malloc_sound malloc" and "malloc (unat (d_length (s_dma s))) \<noteq> None"
    and "T = nat (d_remaining (s_dma s))" and "j < T"
    and "frozen = (\<lambda>k. (soc_tick malloc ^^ k) (dma_latch ((soc_tick malloc ^^ j) s) True))"
    and "s' = (soc_tick malloc ^^ (T - j)) (dma_latch (frozen k) False)"
  shows "(\<forall>i. soc_dma_status (s_dma (frozen i)) = SOC_DMA_STATUS_BUSY \<and>
      d_remaining (s_dma (frozen i)) = int (T - j) \<and> s_sram (frozen i) = s_sram s) \<and>
    soc_dma_status (s_dma s') = SOC_DMA_STATUS_DONE \<and>
    m_bytes (s_sram s') = blit (m_bytes (s_sram s)) (unat (d_dst (s_dma s)) - 0x10000000)
      (bytes_at (m_bytes (s_sram s)) (unat (d_src (s_dma s)) - 0x10000000) (unat (d_length (s_dma s)))) \<and>
    pf_dma_bytes (s_perf s') = (if pf_enabled (s_perf s)
      then pf_dma_bytes (s_perf s) + d_length (s_dma s) else pf_dma_bytes (s_perf s)) \<and>
    (2 \<in> lines_of (ic_pending (s_intc s')) \<longleftrightarrow>
      d_irq_enable_latched (s_dma s) \<or> 2 \<in> lines_of (ic_pending (s_intc s)))"
proof -
  let ?l = "dma_latch ((soc_tick malloc ^^ j) s) True" and ?u = "dma_latch (frozen k) False"
  have run: "dma_running (s_dma s)"
    using assms(2,3) by (simp add: dma_running_def)
  have j: "j < nat (d_remaining (s_dma s))"
    using assms(8,9) by simp
  note J = soc_running_for [OF run j, of malloc]
  have wf: "soc_wf (frozen i)" for i
    unfolding assms(10) by (intro soc_ticks_wf dma_latch_wf assms(1,6))
  have F: "s_dma (frozen i) = (s_dma s)\<lparr>d_remaining := d_remaining (s_dma s) - int j, d_fault_stuck_busy := True\<rparr>"
      "s_sram (frozen i) = s_sram s" "pf_enabled (s_perf (frozen i)) = pf_enabled (s_perf s)"
      "pf_dma_bytes (s_perf (frozen i)) = pf_dma_bytes (s_perf s)"
      "2 \<in> lines_of (ic_pending (s_intc (frozen i))) \<longleftrightarrow> 2 \<in> lines_of (ic_pending (s_intc s))" for i
    using soc_ticks_still [of ?l i malloc] by (simp_all add: assms(10) J)
  have busy: "soc_dma_status (s_dma (frozen i)) = SOC_DMA_STATUS_BUSY" for i
    using wf [of i] assms(2) by (intro busy_status) (simp_all add: F soc_wf_def)
  have rem: "d_remaining (s_dma (frozen i)) = int (T - j)" for i
    using assms(8,9) by (simp add: F)
  have u: "s_dma ?u = (s_dma s)\<lparr>d_remaining := int (T - j)\<rparr>"
    using F(1) [of k] rem [of k] assms(3) by simp
  have pre: "dma_running (s_dma ?u)" "0 < d_remaining (s_dma ?u)"
      "in_vlab_sram (d_src (s_dma ?u)) (d_length (s_dma ?u))" "in_vlab_sram (d_dst (s_dma ?u)) (d_length (s_dma ?u))"
      "malloc (unat (d_length (s_dma ?u))) \<noteq> None" "nat (d_remaining (s_dma ?u)) = T - j"
    unfolding u using run assms(4,5,7,9) by simp_all
  have wfu: "soc_wf ?u"
    by (rule dma_latch_wf [OF wf])
  note R = ram_transfer_rest [OF wfu pre(1-4) assms(6) pre(5), unfolded pre(6), folded assms(11), unfolded u]
  show ?thesis
    using R busy rem F by simp
qed

theorem dma_stuck_resume_witness:
  "soc_dma_status (s_dma ((soc_tick (\<lambda>n. Some (replicate n 0)) ^^ 3) (dma_latch
     ((soc_tick (\<lambda>n. Some (replicate n 0)) ^^ 50) (dma_latch ((soc_tick (\<lambda>n. Some (replicate n 0)) ^^ 1) soc_copying) True))
     False))) = SOC_DMA_STATUS_DONE"
proof -
  have r: "in_vlab_sram (d_src (s_dma soc_copying)) (d_length (s_dma soc_copying))"
      "in_vlab_sram (d_dst (s_dma soc_copying)) (d_length (s_dma soc_copying))"
      "4 = nat (d_remaining (s_dma soc_copying))" "(1 :: nat) < 4"
    by (simp_all add: soc_copying in_vlab_sram_def)
  show ?thesis
    using dma_stuck_resume [OF soc_copying(1-3) r(1,2) malloc_total _ r(3,4) refl refl, of 50] by simp
qed

section \<open>Reset in the middle of a transfer\<close>

text \<open>
  C26. A peripheral reset aborts a transfer, and the SoC is as good as new. In any state, busy or
  stuck, \<open>soc_reset_peripherals\<close> leaves STATUS and ERR_CODE at 0 and no interrupt enabled, pending
  or active; no byte of memory changes, then or at any later tick (a transfer is never partly
  done); and a valid request submitted after it completes in the documented time, if that is
  below 2^31 and the sum \<open>words + burst - 1\<close> does not wrap.
\<close>

theorem dma_reset_abort:
  assumes "soc_wf s" and "in_vlab_sram src len" and "in_vlab_sram dst len" and "vlab_aligned src dst len"
    and "unat len \<le> 16384"
    and "T = dma_words len * unat (d_latency_per_word (s_dma s)) + (dma_bursts (d_burst (s_dma s)) len - 1)"
    and "T < 2 ^ 31" and "dma_words len + unat (d_burst (s_dma s)) \<le> 2 ^ 32"
    and "malloc_sound malloc" and "malloc (unat len) \<noteq> None"
    and "r = (\<lambda>k. (soc_tick malloc ^^ k) (soc_reset_peripherals s))"
    and "s' = (soc_tick malloc ^^ T) (dma_program (r k) src dst len irq)"
  shows "soc_dma_status (s_dma (r k)) = 0 \<and> d_err_code (s_dma (r k)) = SOC_DMA_ERR_NONE \<and>
    s_sram (r k) = s_sram s \<and> s_rom (r k) = s_rom s \<and>
    ic_enable (s_intc (r 0)) = 0 \<and> ic_pending (s_intc (r 0)) = 0 \<and> ic_active (s_intc (r 0)) = 0 \<and>
    soc_dma_status (s_dma s') = SOC_DMA_STATUS_DONE \<and>
    m_bytes (s_sram s') = blit (m_bytes (s_sram s)) (unat dst - 0x10000000)
      (bytes_at (m_bytes (s_sram s)) (unat src - 0x10000000) (unat len))"
proof -
  let ?r = "soc_reset_peripherals s"
  have d: "s_dma ?r = soc_dma_reset (s_dma s)" "s_sram ?r = s_sram s" "s_rom ?r = s_rom s"
      "s_intc ?r = soc_intc_reset (s_intc s)"
    by (simp_all add: soc_reset_peripherals_def)
  then have "\<not> dma_running (s_dma ?r)"
    by (simp add: dma_running_def soc_dma_reset_def)
  from soc_ticks_still [OF this, of k malloc]
  have k: "s_dma (r k) = soc_dma_reset (s_dma s)" "s_sram (r k) = s_sram s"
    by (simp_all add: assms(11) d)
  have rom: "s_rom ((soc_tick malloc ^^ i) t) = s_rom t" for i t
    by (induction i) (simp_all add: soc_tick_def Let_def split_def)
  have wf: "soc_wf (r k)"
    unfolding assms(11) by (intro soc_ticks_wf soc_reset_wf assms(1,9))
  have idle: "\<not> d_busy (s_dma (r k))" "\<not> d_fault_stuck_busy (s_dma (r k))"
      "d_latency_per_word (s_dma (r k)) = d_latency_per_word (s_dma s)" "d_burst (s_dma (r k)) = d_burst (s_dma s)"
    by (simp_all add: k soc_dma_reset_def)
  note R = ram_transfer_run [OF wf idle(1,2) assms(2-5), unfolded idle(3,4), OF assms(6-10) refl, of irq]
  show ?thesis
    using R by (simp add: assms(12) k) (simp add: assms(11) d rom soc_dma_reset_def soc_dma_status_def soc_intc_reset_def)
qed

theorem dma_reset_abort_witness:
  "soc_dma_status (s_dma ((soc_tick (\<lambda>n. Some (replicate n 0)) ^^ 4)
     (dma_program (soc_reset_peripherals (dma_latch soc_copying True)) 0x10000000 0x10000100 16 False))) =
     SOC_DMA_STATUS_DONE"
proof -
  let ?s = "dma_latch soc_copying True"
  have r: "in_vlab_sram 0x10000000 16" "in_vlab_sram 0x10000100 16" "vlab_aligned 0x10000000 0x10000100 16"
      "unat (16 :: u32) \<le> 16384" "dma_words 16 + unat (d_burst (s_dma ?s)) \<le> 2 ^ 32"
      "4 = dma_words 16 * unat (d_latency_per_word (s_dma ?s)) + (dma_bursts (d_burst (s_dma ?s)) 16 - 1)"
    by (simp_all add: soc_copying in_vlab_sram_def vlab_aligned_def dma_words_def dma_bursts_def)
  show ?thesis
    using dma_reset_abort [OF dma_latch_wf [OF soc_copying(1)] r(1-4,6) _ r(5) malloc_total _ refl refl, of 0 False]
    by simp
qed

end
