(* ===== verification/Recovery.thy ===== *)
theory Recovery
  imports Isr Soc_Faults
begin

text \<open>
  The test hooks of \<open>host_bridge.c\<close> and the recovery of the DMA driver from a failed job: the hook
  that steps a transfer to its end, the hook that makes the engine fail, and the way back from
  the interrupt of the failure through \<open>dma_recover\<close> to the next job.
\<close>

section \<open>Stepping a transfer to its end\<close>

lemma soc_read_dma_status:
  assumes "soc_wf s"
  shows "soc_read s (SOC_DMA_BASE + 0x10) = (Inr (soc_dma_status (s_dma s)), counted s)"
proof (rule soc_read_routed [OF assms, where k = 4])
  show "soc_read_device (counted s) 4 (SOC_DMA_BASE + 0x10) = (Inr (soc_dma_status (s_dma s)), counted s)"
    by (simp add: soc_read_device_def soc_dma_read_def)
qed (simp_all add: vlab_route_def)

lemma dma_complete_round:
  assumes "soc_wf s"
  shows "dma_complete_loop malloc (Suc n) st s =
    (if d_busy (s_dma s) then dma_complete_loop malloc n (soc_dma_status (s_dma s)) (soc_tick malloc (counted s))
     else counted s)"
proof -
  have "soc_dma_status (s_dma s) AND (SOC_DMA_STATUS_DONE OR SOC_DMA_STATUS_ERROR) \<noteq> 0 \<longleftrightarrow>
      d_done (s_dma s) \<or> d_error (s_dma s)" "soc_dma_status (s_dma s) AND SOC_DMA_STATUS_BUSY = 0 \<longleftrightarrow> \<not> d_busy (s_dma s)"
    by (simp_all add: soc_dma_status_def Let_def)
  moreover have "d_busy (s_dma s) \<Longrightarrow> \<not> d_done (s_dma s) \<and> \<not> d_error (s_dma s)"
    using assms by (auto simp: soc_wf_def dma_wf_def)
  ultimately show ?thesis
    by (simp add: soc_read_dma_status [OF assms, simplified] soc_step_def Let_def)
qed

declare dma_complete_loop.simps(2) [simp del]

lemma soc_tick_ticks [simp]: "s_ticks (soc_tick malloc s) = s_ticks s + 1"
  by (simp add: soc_tick_def Let_def split_def)

lemma dma_complete_runs:
  assumes "malloc_sound malloc"
  shows "soc_wf s \<Longrightarrow> dma_running (s_dma s) \<Longrightarrow> d_remaining (s_dma s) = int (Suc r) \<Longrightarrow>
    in_vlab_sram (d_src (s_dma s)) (d_length (s_dma s)) \<Longrightarrow> in_vlab_sram (d_dst (s_dma s)) (d_length (s_dma s)) \<Longrightarrow>
    malloc (unat (d_length (s_dma s))) \<noteq> None \<Longrightarrow> Suc r < n \<Longrightarrow> s' = dma_complete_loop malloc n st s \<Longrightarrow>
    soc_dma_status (s_dma s') = SOC_DMA_STATUS_DONE \<and> s_ticks s' = s_ticks s + of_nat (Suc r) \<and>
    m_bytes (s_sram s') = blit (m_bytes (s_sram s)) (unat (d_dst (s_dma s)) - 0x10000000)
      (bytes_at (m_bytes (s_sram s)) (unat (d_src (s_dma s)) - 0x10000000) (unat (d_length (s_dma s)))) \<and>
    (2 \<in> lines_of (ic_pending (s_intc s')) \<longleftrightarrow>
      d_irq_enable_latched (s_dma s) \<or> 2 \<in> lines_of (ic_pending (s_intc s)))"
proof (induction r arbitrary: s n st)
  case 0
  obtain k where n: "n = Suc (Suc k)"
    using less_imp_Suc_add [OF 0(7)] by auto
  let ?t = "soc_tick malloc (counted s)"
  have wf: "soc_wf (counted s)" "soc_wf ?t"
    using counted_wf [OF 0(1)] soc_tick_wf [OF _ assms] by blast+
  note L = ram_tick_last [OF wf(1), simplified, OF 0(2) _ 0(4,5) assms 0(6) [unfolded not_None_eq]]
  have D: "soc_dma_status (s_dma ?t) = 2"
    using L(1) 0(3) by simp
  then have "\<not> d_busy (s_dma ?t)"
    using status_bits(1) [of "s_dma ?t"] by (simp del: status_bits)
  moreover have "d_busy (s_dma s)"
    using 0(2) by (simp add: dma_running_def)
  ultimately have s': "s' = counted ?t"
    using 0(8) by (simp add: n dma_complete_round 0(1) wf)
  show ?case
    using L(2,4) D 0(3) by (simp add: s')
next
  case (Suc r)
  obtain k where n: "n = Suc k" "Suc r < k"
    using Suc.prems(7) by (cases n) auto
  let ?t = "soc_tick malloc (counted s)"
  have wf: "soc_wf ?t"
    by (intro soc_tick_wf counted_wf Suc.prems(1) assms)
  have "dma_running (s_dma (counted s))" "1 < d_remaining (s_dma (counted s))"
    using Suc.prems(2,3) by simp_all
  note t = soc_tick_running [OF this, of malloc]
  have "s' = dma_complete_loop malloc k (soc_dma_status (s_dma s)) ?t"
    using Suc.prems(2,8) by (simp add: n(1) dma_complete_round Suc.prems(1) dma_running_def)
  from Suc.IH [OF wf _ _ _ _ _ n(2) this] Suc.prems(2-6) show ?case
    by (simp add: t add.assoc add.left_commute)
qed

text \<open>
  The hook that completes a transfer. Its loop of polls and single steps drives a running
  memory-to-memory transfer to DONE, with its bytes moved and its interrupt raised, in exactly
  the ticks that were left to it, as long as they fit its budget of 100000 rounds; on an engine
  that is not busy it does nothing but the one read it needs to see that.
\<close>

theorem dma_complete_hook:
  fixes h :: "'h host_scheme"
  assumes "host_ok h" and "malloc_sound malloc"
    and "s = h_soc h" and "s' = h_soc (snd (run_state (vlab_test_dma_complete malloc) h))"
  shows "(\<not> d_busy (s_dma s) \<longrightarrow> s' = counted s) \<and>
    (d_busy (s_dma s) \<and> \<not> d_fault_stuck_busy (s_dma s) \<and> 0 < d_remaining (s_dma s) \<and> d_remaining (s_dma s) \<le> 99999 \<and>
      in_vlab_sram (d_src (s_dma s)) (d_length (s_dma s)) \<and> in_vlab_sram (d_dst (s_dma s)) (d_length (s_dma s)) \<and>
      malloc (unat (d_length (s_dma s))) \<noteq> None \<longrightarrow>
     soc_dma_status (s_dma s') = SOC_DMA_STATUS_DONE \<and> s_ticks s' = s_ticks s + of_int (d_remaining (s_dma s)) \<and>
     m_bytes (s_sram s') = blit (m_bytes (s_sram s)) (unat (d_dst (s_dma s)) - 0x10000000)
       (bytes_at (m_bytes (s_sram s)) (unat (d_src (s_dma s)) - 0x10000000) (unat (d_length (s_dma s)))) \<and>
     (2 \<in> lines_of (ic_pending (s_intc s')) \<longleftrightarrow>
       d_irq_enable_latched (s_dma s) \<or> 2 \<in> lines_of (ic_pending (s_intc s))))"
proof -
  have wf: "soc_wf s" and s': "s' = dma_complete_loop malloc (Suc 99999) 0 s"
    using assms(1) by (simp_all add: host_ok_def assms(3,4) vlab_test_dma_complete_def)
  have idle: "\<not> d_busy (s_dma s) \<Longrightarrow> s' = counted s"
    unfolding s' dma_complete_round [OF wf] by simp
  show ?thesis
  proof (cases "0 < d_remaining (s_dma s) \<and> d_remaining (s_dma s) \<le> 99999")
    case True
    define r where "r = nat (d_remaining (s_dma s)) - 1"
    have r: "d_remaining (s_dma s) = int (Suc r)" "Suc r < Suc 99999"
      using True unfolding r_def by linarith+
    show ?thesis
      using dma_complete_runs [OF assms(2) wf _ r(1) _ _ _ r(2) s'] idle r(1) by (simp add: dma_running_def)
  qed (use idle in blast)
qed

section \<open>From a failed job to the next\<close>

text \<open>Submitting a request that breaks no rule to an idle driver.\<close>

lemma submit_valid:
  assumes "fw_vlab f" and "f_state f = DMA_S_IDLE" and "\<not> d_busy (s_dma (h_soc f))"
    and "\<forall>r. \<not> vlab_violates src dst len r"
  shows "run_state (dma_submit src dst len irq) f =
    (Inr (), f\<lparr>h_soc := dma_program (counted (h_soc f)) src dst len irq, h_irq_masked := h_irq_masked f AND 1,
       f_state := DMA_S_ACTIVE, f_done_flag := 0, f_err_latch := 0\<rparr>)"
    and "s_dma (dma_program (counted (h_soc f)) src dst len irq) =
      (dma_started (dma_request (s_dma (h_soc f)) src dst len) irq)\<lparr>d_ctrl := ctrl_word irq\<rparr>"
    and "s_intc (dma_program (counted (h_soc f)) src dst len irq) = s_intc (h_soc f)"
    and "s_sram (dma_program (counted (h_soc f)) src dst len irq) = s_sram (h_soc f)"
    and "soc_wf (dma_program (counted (h_soc f)) src dst len irq)"
proof -
  have chk: "dma_check (Some vlab_memory_map) (Some vlab_dma_periph_eps) vlab_dma_caps src dst len = 0"
    using assms(4) vlab_check_accepts by blast
  have ok: "host_ok f" "soc_wf (counted (h_soc f))" "\<not> d_busy (s_dma (counted (h_soc f)))"
    using assms(1,3) by (simp_all add: fw_vlab_def host_ok_def counted_wf)
  show "run_state (dma_submit src dst len irq) f =
    (Inr (), f\<lparr>h_soc := dma_program (counted (h_soc f)) src dst len irq, h_irq_masked := h_irq_masked f AND 1,
       f_state := DMA_S_ACTIVE, f_done_flag := 0, f_err_latch := 0\<rparr>)"
    using dma_submit_run [OF ok(1)] fw_vlab_validate [OF assms(1)] chk assms(2,3) by simp
  show "s_dma (dma_program (counted (h_soc f)) src dst len irq) =
      (dma_started (dma_request (s_dma (h_soc f)) src dst len) irq)\<lparr>d_ctrl := ctrl_word irq\<rparr>"
    "s_intc (dma_program (counted (h_soc f)) src dst len irq) = s_intc (h_soc f)"
    "s_sram (dma_program (counted (h_soc f)) src dst len irq) = s_sram (h_soc f)"
    by (simp_all add: dma_program_checked [OF ok(2,3) chk])
  show "soc_wf (dma_program (counted (h_soc f)) src dst len irq)"
    by (rule dma_program_wf [OF ok(2)])
qed

text \<open>A job that breaks down right after its submission, and the way back to IDLE.\<close>

lemma submit_broken:
  fixes f :: "'h firmware_scheme"
  assumes "fw_vlab f" and "f_state f = DMA_S_IDLE" and "\<not> d_busy (s_dma (h_soc f))"
    and "\<forall>r. \<not> vlab_violates src dst len r" and "code \<in> {1, 2, 3, 4}"
  obtains f0 s1 where "run_state (dma_submit src dst len True) f = (Inr (), f0)"
    and "run_state (vlab_test_dma_error code) f0 = ((), f\<lparr>h_soc := s1, h_irq_masked := h_irq_masked f AND 1,
      f_state := DMA_S_ACTIVE, f_done_flag := 0, f_err_latch := 0\<rparr>)"
    and "soc_wf s1" "\<not> d_busy (s_dma s1)" "\<not> d_done (s_dma s1)" "d_error (s_dma s1)" "d_err_code (s_dma s1) = code"
    and "s_sram s1 = s_sram (h_soc f)" "s_intc s1 = soc_intc_raise (s_intc (h_soc f)) 2"
proof -
  define s0 where "s0 = dma_program (counted (h_soc f)) src dst len True"
  define f0 where "f0 = f\<lparr>h_soc := s0, h_irq_masked := h_irq_masked f AND 1, f_state := DMA_S_ACTIVE,
    f_done_flag := 0, f_err_latch := 0\<rparr>"
  note S = submit_valid [OF assms(1-4), of True, folded s0_def, folded f0_def]
  have ok0: "host_ok f0" "bit (d_ctrl (s_dma (h_soc f0))) 1" "h_soc f0 = s0"
    using assms(1) S(5) by (simp_all add: f0_def fw_vlab_def host_ok_def S(2) ctrl_word_def bit_simps)
  note H = test_dma_error_run [OF ok0(1) assms(5), unfolded ok0(3)]
  show thesis
    by (rule that [OF S(1) _ H(2)]) (use ok0(2) H(1) S(3,4) in \<open>simp_all add: f0_def\<close>)
qed

lemma recover_idle:
  fixes g :: "'h firmware_scheme"
  assumes "fw_vlab g" and "f_state g = DMA_S_ERROR \<or> f_state g = DMA_S_COMPLETE" and "\<not> d_busy (s_dma (h_soc g))"
  obtains h where "run_state dma_recover g = ((), h)" "fw_vlab h" "f_state h = DMA_S_IDLE" "\<not> d_busy (s_dma (h_soc h))"
    "s_sram (h_soc h) = s_sram (h_soc g)"
proof
  have ok: "host_ok g" "soc_wf (h_soc g)"
    using assms(1) by (simp_all add: fw_vlab_def host_ok_def)
  show "run_state dma_recover g = ((), g\<lparr>h_soc := dma_cleared (h_soc g), h_irq_masked := h_irq_masked g AND 1,
      f_state := DMA_S_IDLE, f_done_flag := 0, f_err_latch := 0\<rparr>)"
    using assms(2) by (simp add: dma_recover_run [OF ok(1)])
qed (use assms(1,3) in \<open>simp_all add: fw_vlab_def host_ok_def dma_cleared_wf\<close>)

text \<open>
  C11. A failed job is reported, cleaned up and can be retried. With the driver idle, its handler
  registered and its line enabled: a valid job is accepted; when the engine fails with a
  documented code, one dispatch puts the driver in ERROR with that code latched and no
  completion flag; \<open>dma_recover\<close> returns it to IDLE, and the same job is accepted again. No
  byte of SRAM changes on the way, and it does not matter what else is pending.
\<close>

theorem dma_error_recovery:
  fixes f :: "'h isr_fw_scheme" and env :: "'h isr_env"
  assumes "lifecycle f" and "f_state f = DMA_S_IDLE" and "v_vectors f = vlab_table" and "3 \<le> v_n_lines f"
    and "2 \<in> lines_of (ic_enable (s_intc (h_soc f)))"
    and "\<forall>r. \<not> vlab_violates src dst len r" and "code \<in> {1, 2, 3, 4}"
  shows "case run_state (do {
      rc1 \<leftarrow> dma_submit src dst len True;
      vlab_test_dma_error code;
      handled \<leftarrow> isr_dispatch env;
      st1 \<leftarrow> dma_state;
      latched \<leftarrow> dma_latched_error;
      complete \<leftarrow> dma_is_complete;
      dma_recover;
      st2 \<leftarrow> dma_state;
      rc2 \<leftarrow> dma_submit src dst len irq;
      st3 \<leftarrow> dma_state;
      State_Monad.return (rc1, (st1, latched, complete), st2, rc2, st3)
    }) f of (result, f') \<Rightarrow>
      result = (Inr (), (DMA_S_ERROR, code, False), DMA_S_IDLE, Inr (), DMA_S_ACTIVE) \<and>
      s_sram (h_soc f') = s_sram (h_soc f)"
proof -
  note ok = lifecycle_ok [OF assms(1)]
  have idle: "\<not> d_busy (s_dma (h_soc f))"
    using assms(1,2) by (simp add: lifecycle_def dma_engaged_def)
  obtain f0 s1 where S: "run_state (dma_submit src dst len True) f = (Inr (), f0)"
      "run_state (vlab_test_dma_error code) f0 = ((), f\<lparr>h_soc := s1, h_irq_masked := h_irq_masked f AND 1,
        f_state := DMA_S_ACTIVE, f_done_flag := 0, f_err_latch := 0\<rparr>)" (is "_ = ((), ?f1)")
    and s1: "soc_wf s1" "\<not> d_busy (s_dma s1)" "\<not> d_done (s_dma s1)" "d_error (s_dma s1)" "d_err_code (s_dma s1) = code"
      "s_sram s1 = s_sram (h_soc f)" "s_intc s1 = soc_intc_raise (s_intc (h_soc f)) 2"
    by (rule submit_broken [OF ok(3) assms(2) idle assms(6,7)])
  have ok1: "host_ok ?f1" "v_vectors ?f1 = vlab_table" "3 \<le> v_n_lines ?f1" "2 \<in> gated (s_intc (h_soc ?f1))"
      "d_done (s_dma (h_soc ?f1)) \<or> d_error (s_dma (h_soc ?f1))"
    using ok(1) s1 assms(3-5) raise_pending [of 2 "s_intc (h_soc f)"] by (simp_all add: host_ok_def gated_def irq_lines_def)
  define g where "g = snd (run_state (isr_dispatch env) ?f1)"
  have G: "f_state g = DMA_S_ERROR" "f_done_flag g = 0" "f_err_latch g = code"
      "s_sram (h_soc g) = s_sram (h_soc f)" "\<not> d_busy (s_dma (h_soc g))" "fw_vlab g"
    using dispatch_dma [OF ok1, of env, folded g_def] s1 ok(3) by (simp_all add: fw_vlab_config fw_config_def)
  obtain h where h: "run_state dma_recover g = ((), h)" "fw_vlab h" "f_state h = DMA_S_IDLE" "\<not> d_busy (s_dma (h_soc h))"
      "s_sram (h_soc h) = s_sram (h_soc g)"
    using recover_idle [OF G(6) _ G(5)] G(1) by metis
  note S2 = submit_valid [OF h(2-4) assms(6), of irq]
  show ?thesis
    using G(1-4) h(3,5)
    by (simp add: S h(1) S2(1,4) dma_state_def dma_latched_error_def dma_is_complete_def split_def flip: g_def)
qed

theorem dma_error_recovery_witness:
  "fst (run_state (do {
     rc1 \<leftarrow> dma_submit 0x10000000 0x10000100 16 True;
     vlab_test_dma_error 1;
     handled \<leftarrow> isr_dispatch (\<lambda>k l. State_Monad.return ());
     st1 \<leftarrow> dma_state;
     latched \<leftarrow> dma_latched_error;
     complete \<leftarrow> dma_is_complete;
     dma_recover;
     st2 \<leftarrow> dma_state;
     rc2 \<leftarrow> dma_submit 0x10000000 0x10000100 16 False;
     st3 \<leftarrow> dma_state;
     State_Monad.return (rc1, (st1, latched, complete), st2, rc2, st3)
   }) isr_default) = (Inr (), (DMA_S_ERROR, 1, False), DMA_S_IDLE, Inr (), DMA_S_ACTIVE)"
proof -
  have v: "\<forall>r. \<not> vlab_violates 0x10000000 0x10000100 16 r"
  proof
    fix r
    show "\<not> vlab_violates 0x10000000 0x10000100 16 r"
      by (cases r) (simp_all add: vlab_mapped_def vlab_region_bounds_def vlab_transfer_def in_vlab_sram_def)
  qed
  show ?thesis
    using dma_error_recovery [OF isr_default_life _ _ _ _ v, of 1 "\<lambda>k l. State_Monad.return ()" False]
    by (simp add: soc_enabled_dma irq_lines_def split_def)
qed

text \<open>The hook on the host whose SoC is in the middle of a transfer.\<close>

theorem dma_complete_hook_witness:
  "soc_dma_status (s_dma (h_soc (snd (run_state (vlab_test_dma_complete (\<lambda>n. Some (replicate n 0)))
     \<lparr>h_soc = soc_copying, h_inited = True, h_irq_masked = 0\<rparr>)))) = SOC_DMA_STATUS_DONE"
proof -
  let ?h = "\<lparr>h_soc = soc_copying, h_inited = True, h_irq_masked = 0\<rparr>"
  have ok: "host_ok ?h"
    by (simp add: host_ok_def soc_copying)
  show ?thesis
    using dma_complete_hook [OF ok malloc_total refl refl] by (simp add: soc_copying in_vlab_sram_def)
qed

end
