(* ===== verification/Soc_Trace.thy ===== *)
theory Soc_Trace
  imports Soc_Dma
begin

text \<open>
  Sequences of operations on the SoC: bus reads and writes, steps and boots in any order. Every
  sequence keeps the invariant and the sizes of all arrays, only a boot touches ROM, and the
  performance counters account for exactly the events the code counts.
\<close>

section \<open>Operations\<close>

datatype soc_op = Op_Read u32 | Op_Write u32 u32 | Op_Step u32 | Op_Boot "u32 list option"

fun soc_exec :: "(nat \<Rightarrow> u8 list option) \<Rightarrow> soc_op \<Rightarrow> soc_t \<Rightarrow> soc_t" where
  "soc_exec malloc (Op_Read a) s = snd (soc_read s a)"
| "soc_exec malloc (Op_Write a v) s = snd (soc_write s a v)"
| "soc_exec malloc (Op_Step n) s = soc_step malloc s n"
| "soc_exec malloc (Op_Boot ws) s = snd (soc_boot malloc s ws)"

lemma soc_exec_wf: "soc_wf s \<Longrightarrow> malloc_sound malloc \<Longrightarrow> soc_wf (soc_exec malloc op s)"
  by (cases op) (simp_all add: soc_read_wf soc_write_wf soc_step_wf soc_boot_wf)

lemma soc_execs_wf: "soc_wf s \<Longrightarrow> malloc_sound malloc \<Longrightarrow> soc_wf (fold (soc_exec malloc) ops s)"
  by (induction ops arbitrary: s) (simp_all add: soc_exec_wf)

lemma soc_wf_status:
  assumes "soc_wf s"
  shows "soc_dma_status (s_dma s) \<in> {0, 1, 2, 4}" and "soc_dma_status (s_dma s) = 4 \<longleftrightarrow> d_err_code (s_dma s) \<noteq> 0"
  using assms by (auto simp: soc_wf_def dma_wf_def soc_dma_status_def Let_def)

lemma rom_write_refused: "m_readonly m \<Longrightarrow> snd (soc_mem_write_word m a v) = m"
  by (simp add: soc_mem_write_word_def)

lemma soc_exec_rom:
  assumes "soc_wf s" and "\<And>ws. op \<noteq> Op_Boot ws"
  shows "s_rom (soc_exec malloc op s) = s_rom s"
proof (cases op)
  case (Op_Read a)
  have "s_rom (snd (soc_read_device t kind a)) = s_rom t" for t kind
    by (cases kind rule: device_kinds) (simp_all add: soc_read_device_def split_def)
  then show ?thesis
    by (simp add: Op_Read soc_read_def Let_def split_def soc_stall_def split: sum.split)
next
  case (Op_Write a v)
  have "m_readonly (s_rom s)"
    using assms(1) by (simp add: soc_wf_def rom_ok_def)
  then have "s_rom (snd (soc_write_device (s\<lparr>s_perf := p\<rparr>) kind a v)) = s_rom s" for p kind
    by (cases kind rule: device_kinds) (simp_all add: soc_write_device_def split_def rom_write_refused)
  then show ?thesis
    by (simp add: Op_Write soc_write_def Let_def split_def soc_stall_def split: sum.split)
next
  case (Op_Step n)
  then show ?thesis
    by (simp add: soc_step_def)
qed (use assms(2) in blast)

lemma soc_execs_rom:
  assumes "malloc_sound malloc"
  shows "soc_wf s \<Longrightarrow> \<forall>ws. Op_Boot ws \<notin> set ops \<Longrightarrow> s_rom (fold (soc_exec malloc) ops s) = s_rom s"
proof (induction ops arbitrary: s)
  case (Cons op ops)
  from Cons.IH [OF soc_exec_wf [OF Cons.prems(1) assms]] Cons.prems show ?case
    using soc_exec_rom [OF Cons.prems(1), of op malloc] by auto
qed simp

section \<open>The sizes of the arrays\<close>

text \<open>
  A store outside an array would make the list longer, and nothing makes one shorter; so a
  constant length says that no store ever left its array. The DMA port keeps the length of SRAM:
  a second interpretation of \<open>dma_port\<close>, with the length in its invariant.
\<close>

interpretation sized_port: dma_port soc_dma_reader_bridge soc_dma_writer_bridge
  "\<lambda>m. port_inv m \<and> length (m_bytes (snd m)) = N" port_load port_store for N
proof unfold_locales
  fix m a n xs m1
  assume "port_inv m \<and> length (m_bytes (snd m)) = N" "port_load m a n = Some (xs, m1)"
  then show "(port_inv m1 \<and> length (m_bytes (snd m1)) = N) \<and> length xs = unat n"
    using port_load_inv [of m a n xs m1] by (auto simp: port_load_def split: prod.splits if_splits)
next
  fix m a xs m1
  assume h: "port_inv m \<and> length (m_bytes (snd m)) = N" "port_store m a xs = Some m1"
  have "length (m_bytes (snd m1)) = N"
  proof (cases "a = 0x20000000")
    case True
    with h show ?thesis
      by (auto simp: port_store_def split: prod.splits)
  next
    case False
    with h have c: "soc_mem_contains (snd m) a (of_nat (length xs))" "length xs < 4294967296"
        "snd m1 = m_store (snd m) (unat (a - m_base (snd m))) xs"
      by (auto simp: port_store_def split: prod.splits if_splits)
    then show ?thesis
      using h contains_off(2) [OF c(1)] by (auto simp: m_store_length port_inv_def sram_ok_def unat_of_nat_u32)
  qed
  with h show "port_inv m1 \<and> length (m_bytes (snd m1)) = N"
    using port_store_inv by blast
qed (use reader_bridge_load writer_bridge_store in blast)+

definition array_sizes :: "soc_t \<Rightarrow> nat \<times> nat \<times> nat \<times> nat" where
  "array_sizes s = (length (m_bytes (s_rom s)), length (m_bytes (s_sram s)),
     length (u_dma_tx_fifo (s_uart s)), length (u_dma_rx_fifo (s_uart s)))"

lemma soc_init_sizes:
  assumes "soc_storage s"
  shows "array_sizes (soc_init s cfg) = (65536, 262144, 16384, 16384)"
proof -
  obtain rom sram where "m_data (s_rom s) = Some rom" "length rom = 65536"
      "m_data (s_sram s) = Some sram" "length sram = 262144"
      "length (u_dma_tx_fifo (s_uart s)) = 16384" "length (u_dma_rx_fifo (s_uart s)) = 16384"
    using assms by (auto simp: soc_storage_def)
  then show ?thesis
    by (simp add: array_sizes_def soc_init_def Let_def m_bytes_init vlab_map_nth [simplified] soc_uart_init_def)
qed

lemma soc_tick_sram_length:
  assumes "soc_wf s" and "malloc_sound malloc"
  shows "length (m_bytes (s_sram (soc_tick malloc s))) = length (m_bytes (s_sram s))"
proof (rule soc_tick_cases [of s malloc])
  fix u ic1 t ic2 d ic3 p u' sram
  assume h: "soc_uart_step (s_uart s) (s_intc s) = (u, ic1)"
    "soc_dma_step malloc (s_dma s) ic2 (soc_perf_tick (s_perf s)) (u, s_sram s) = (d, ic3, p, (u', sram))"
    "soc_tick malloc s = s\<lparr>s_ticks := s_ticks s + 1, s_perf := p, s_uart := u', s_timer := t,
       s_dma := d, s_intc := ic3, s_sram := sram\<rparr>"
  have "uart_wf u"
    using assms(1) uart_step_wf [of "s_uart s" "s_intc s"] h(1) by (simp add: soc_wf_def)
  then have "port_inv (u', sram) \<and> length (m_bytes (snd (u', sram))) = length (m_bytes (s_sram s))"
    using assms(1) by (intro sized_port.step_inv [OF _ _ _ assms(2) h(2)])
      (simp_all add: soc_wf_def port_inv_def dma_bound_def)
  then show ?thesis
    by (simp add: h(3))
qed

lemma soc_step_sram_length:
  assumes "soc_wf s" and "malloc_sound malloc"
  shows "length (m_bytes (s_sram (soc_step malloc s n))) = length (m_bytes (s_sram s))"
proof -
  have "length (m_bytes (s_sram ((soc_tick malloc ^^ k) s))) = length (m_bytes (s_sram s))" for k
    by (induction k) (simp_all add: soc_tick_sram_length soc_ticks_wf assms)
  then show ?thesis
    by (simp add: soc_step_def)
qed

lemma soc_access_lengths:
  assumes "soc_wf s"
  shows "s_sram (snd (soc_read s a)) = s_sram s"
    and "length (m_bytes (s_sram (snd (soc_write s a v)))) = length (m_bytes (s_sram s))"
proof -
  have "s_sram (snd (soc_read_device t kind a)) = s_sram t" for t kind
    by (cases kind rule: device_kinds) (simp_all add: soc_read_device_def split_def)
  then show "s_sram (snd (soc_read s a)) = s_sram s"
    by (simp add: soc_read_def Let_def split_def soc_stall_def split: sum.split)
  have "mem_wf (s_sram s)"
    using assms by (simp add: soc_wf_def sram_ok_def)
  then have "length (m_bytes (s_sram (snd (soc_write_device (s\<lparr>s_perf := p\<rparr>) kind a v)))) =
      length (m_bytes (s_sram s))" for p kind
    by (cases kind rule: device_kinds) (simp_all add: soc_write_device_def split_def)
  then show "length (m_bytes (s_sram (snd (soc_write s a v)))) = length (m_bytes (s_sram s))"
    by (simp add: soc_write_def Let_def split_def soc_stall_def split: sum.split)
qed

lemma boot_lengths:
  assumes "soc_wf s"
  shows "length (m_bytes (s_sram (snd (soc_boot malloc s ws)))) = length (m_bytes (s_sram s))"
    and "length (m_bytes (s_rom (snd (soc_boot malloc s ws)))) = length (m_bytes (s_rom s))"
proof -
  have w: "mem_wf (s_sram s)" "rom_ok (s_rom s)"
    using assms by (simp_all add: soc_wf_def sram_ok_def)
  then show "length (m_bytes (s_sram (snd (soc_boot malloc s ws)))) = length (m_bytes (s_sram s))"
    by (simp add: soc_boot_eq [OF assms] Let_def boot_ready_def m_bytes_zero mem_wf_def)
  let ?m = "(s_rom s)\<lparr>m_data := map_option (\<lambda>d. memset_at d 0 0 16384) (m_data (s_rom s))\<rparr>"
  have "length (m_bytes ?m) = length (m_bytes (s_rom s))"
    using w(2) by (auto simp: rom_ok_def mem_wf_def m_bytes_def)
  moreover have "length (m_bytes (snd (soc_mem_load_words ?m xs))) = length (m_bytes ?m)" for xs
    using load_words_keeps [of ?m xs] rom_cleared_ok [OF w(2)] by (simp add: rom_ok_def)
  ultimately show "length (m_bytes (s_rom (snd (soc_boot malloc s ws)))) = length (m_bytes (s_rom s))"
    by (simp add: soc_boot_eq [OF assms] Let_def boot_ready_def boot_rom_def split: option.split list.split)
qed

lemma soc_exec_sizes:
  assumes "soc_wf s" and "malloc_sound malloc"
  shows "array_sizes (soc_exec malloc op s) = array_sizes s"
proof -
  have "uart_wf (s_uart s)" "uart_wf (s_uart (soc_exec malloc op s))"
    using assms soc_exec_wf [OF assms, of op] by (simp_all add: soc_wf_def)
  moreover have "length (m_bytes (s_rom (soc_exec malloc op s))) = length (m_bytes (s_rom s))"
    using boot_lengths(2) [OF assms(1)] soc_exec_rom [OF assms(1), of op malloc] by (cases op) simp_all
  moreover have "length (m_bytes (s_sram (soc_exec malloc op s))) = length (m_bytes (s_sram s))"
    using boot_lengths(1) [OF assms(1)] soc_access_lengths [OF assms(1)] soc_step_sram_length [OF assms]
    by (cases op) simp_all
  ultimately show ?thesis
    by (simp add: array_sizes_def uart_wf_def)
qed

lemma soc_execs_sizes:
  "soc_wf s \<Longrightarrow> malloc_sound malloc \<Longrightarrow> array_sizes (fold (soc_exec malloc) ops s) = array_sizes s"
  by (induction ops arbitrary: s) (simp_all add: soc_exec_sizes soc_exec_wf)

section \<open>What the counters count\<close>

text \<open>Counting, all five counters at once; it is gated by the enable bit and it adds up.\<close>

definition perf_add :: "soc_perf_t \<Rightarrow> u32 \<Rightarrow> u32 \<Rightarrow> u32 \<Rightarrow> u32 \<Rightarrow> u32 \<Rightarrow> soc_perf_t" where
  "perf_add p cycles accesses bytes irqs stalls =
     (if pf_enabled p
      then p\<lparr>pf_cycles := pf_cycles p + cycles, pf_mem_acc := pf_mem_acc p + accesses,
             pf_dma_bytes := pf_dma_bytes p + bytes, pf_irq_count := pf_irq_count p + irqs,
             pf_stalls := pf_stalls p + stalls\<rparr>
      else p)"

lemma perf_add_zero [simp]: "perf_add p 0 0 0 0 0 = p"
  by (simp add: perf_add_def)

lemma perf_add_add [simp]:
  "perf_add (perf_add p c m b i s) c' m' b' i' s' = perf_add p (c + c') (m + m') (b + b') (i + i') (s + s')"
  by (simp add: perf_add_def add.assoc)

lemma perf_count_add:
  "soc_perf_tick p = perf_add p 1 0 0 0 0" "soc_perf_count_mem p = perf_add p 0 1 0 0 0"
  "soc_perf_count_dma p n = perf_add p 0 0 n 0 0" "soc_perf_count_irq p = perf_add p 0 0 0 1 0"
  "soc_perf_count_stall p n = perf_add p 0 0 0 0 n"
  by (simp_all add: perf_add_def perf_count_defs)

text \<open>The share of one operation, read off the operation, its answer and the state before it.\<close>

fun op_cycles :: "soc_op \<Rightarrow> u32" where
  "op_cycles (Op_Step n) = n"
| "op_cycles _ = 0"

fun op_accesses :: "soc_op \<Rightarrow> u32" where
  "op_accesses (Op_Read a) = (if a mod 4 = 0 then 1 else 0)"
| "op_accesses (Op_Write a v) = (if a mod 4 = 0 then 1 else 0)"
| "op_accesses _ = 0"

fun op_bytes :: "(nat \<Rightarrow> u8 list option) \<Rightarrow> soc_op \<Rightarrow> soc_t \<Rightarrow> u32" where
  "op_bytes malloc (Op_Step n) s =
     (if d_busy (s_dma s) \<and> d_done (s_dma (soc_step malloc s n)) then d_length (s_dma s) else 0)"
| "op_bytes malloc _ s = 0"

fun op_irqs :: "soc_op \<Rightarrow> soc_t \<Rightarrow> u32" where
  "op_irqs (Op_Read a) s =
     (case fst (soc_read s a) of Inr v \<Rightarrow> if a = VLAB_INTC_ACK \<and> v \<noteq> VLAB_IRQ_NONE then 1 else 0 | Inl _ \<Rightarrow> 0)"
| "op_irqs _ s = 0"

fun op_stalls :: "soc_op \<Rightarrow> soc_t \<Rightarrow> u32" where
  "op_stalls (Op_Read a) s = (case fst (soc_read s a) of Inl _ \<Rightarrow> 1 | Inr _ \<Rightarrow> 0)"
| "op_stalls (Op_Write a v) s =
     (case fst (soc_write s a v) of Inl _ \<Rightarrow> 1
      | Inr _ \<Rightarrow> if a = VLAB_DMA_CTRL \<and> bit v 0 \<and> d_busy (s_dma s) then 1 else 0)"
| "op_stalls _ s = 0"

lemma fault_perf_add: "fault_perf p a = perf_add p 0 (if a mod 4 = 0 then 1 else 0) 0 0 1"
  by (simp add: fault_perf_def perf_count_add)

section \<open>One access\<close>

lemma intc_read_perf:
  assumes "ic_perf ic = SocRef" and "soc_intc_read ic p off = (Inr v, ic', p')"
  shows "p' = (if off = SOC_INTC_ACK_OFF \<and> v \<noteq> SOC_IRQ_NONE then soc_perf_count_irq p else p)"
proof (cases "off = SOC_INTC_ACK_OFF")
  case True
  show ?thesis
  proof (cases "irq_order ic")
    case Nil
    with ack_none [OF this, of p] assms(2) True show ?thesis by simp
  next
    case (Cons l ls)
    note a = ack_some [OF Cons assms(1)]
    have "(of_nat l :: u32) \<noteq> SOC_IRQ_NONE"
      using a(3) by (auto simp: irq_lines_def)
    with a(1) [of p] assms(2) True show ?thesis by auto
  qed
next
  case False
  with assms(2) show ?thesis
    by (auto simp: soc_intc_read_def split: if_splits)
qed

lemma read_device_perf:
  assumes "ic_perf (s_intc s) = SocRef" and "fst (soc_read_device s kind a) = Inr v"
  shows "s_perf (snd (soc_read_device s kind a)) =
    (if kind = 5 \<and> a - SOC_INTC_BASE = SOC_INTC_ACK_OFF \<and> v \<noteq> SOC_IRQ_NONE
     then soc_perf_count_irq (s_perf s) else s_perf s)"
proof (cases "kind = 5")
  case True
  obtain rc ic' p' where r: "soc_intc_read (s_intc s) (s_perf s) (a - SOC_INTC_BASE) = (rc, ic', p')"
    by (cases "soc_intc_read (s_intc s) (s_perf s) (a - SOC_INTC_BASE)")
  with assms(2) True have "rc = Inr v"
    by (simp add: soc_read_device_def)
  with r intc_read_perf [OF assms(1), of "s_perf s" "a - SOC_INTC_BASE" v ic' p'] show ?thesis
    using True by (simp add: soc_read_device_def)
next
  case False
  then show ?thesis
    by (cases kind rule: device_kinds) (auto simp: soc_read_device_def split_def soc_perf_read_def)
qed

lemma soc_read_perf:
  assumes "soc_wf s"
  shows "s_perf (snd (soc_read s a)) =
    perf_add (s_perf s) 0 (op_accesses (Op_Read a)) 0 (op_irqs (Op_Read a) s) (op_stalls (Op_Read a) s)"
proof (cases "fst (soc_read s a)")
  case (Inl e)
  with soc_read_fault [OF assms Inl] show ?thesis
    by (simp add: fault_perf_add)
next
  case (Inr v)
  let ?s = "s\<lparr>s_perf := soc_perf_count_mem (s_perf s)\<rparr>"
  note rt = soc_route_counted [OF assms]
  have al: "a mod 4 = 0"
    using Inr by (auto simp: soc_read_def split: if_splits)
  then have d: "fst (soc_read_device ?s (vlab_route (unat a)) a) = Inr v"
      "snd (soc_read s a) = snd (soc_read_device ?s (vlab_route (unat a)) a)"
    using Inr by (auto simp: soc_read_def Let_def split_def rt split: sum.splits)
  have "vlab_route (unat a) = 5 \<and> a - 0x20003000 = 8 \<longleftrightarrow> a = 0x20003008"
    by (auto simp: offset_eq vlab_route_def)
  moreover have "ic_perf (s_intc ?s) = SocRef"
    using assms by (simp add: soc_wf_def intc_wf_def)
  ultimately show ?thesis
    using read_device_perf [OF _ d(1)] d(2) Inr al by (auto simp: perf_count_add)
qed

lemma dma_write_perf:
  assumes "d_perf d = SocRef" and "soc_dma_write d ic p off v = (rc, d', ic', p')"
  shows "p' = (if off = SOC_DMA_CTRL_OFF \<and> bit v 0 \<and> d_busy d then soc_perf_count_stall p 1 else p)"
proof (cases "off = SOC_DMA_CTRL_OFF \<and> bit v 0")
  case True
  then show ?thesis
    using assms dma_write_ctrl [of d ic p v] dma_start_busy [of d ic p "bit v 1"]
      dma_start_idle [of d ic p "bit v 1"]
    by (cases "d_busy d"; cases "dma_req_check d = 0") (simp_all add: Let_def split_def)
next
  case False
  with assms(2) show ?thesis
    by (auto simp: soc_dma_write_def Let_def split: if_splits)
qed

lemma write_device_perf:
  assumes "d_perf (s_dma s) = SocRef" and "fst (soc_write_device s kind a v) = Inr ()" and "kind \<noteq> 6"
  shows "s_perf (snd (soc_write_device s kind a v)) =
    (if kind = 4 \<and> a - SOC_DMA_BASE = SOC_DMA_CTRL_OFF \<and> bit v 0 \<and> d_busy (s_dma s)
     then soc_perf_count_stall (s_perf s) 1 else s_perf s)"
proof (cases "kind = 4")
  case True
  obtain rc d' ic' p' where w: "soc_dma_write (s_dma s) (s_intc s) (s_perf s) (a - SOC_DMA_BASE) v = (rc, d', ic', p')"
    by (cases "soc_dma_write (s_dma s) (s_intc s) (s_perf s) (a - SOC_DMA_BASE) v")
  with dma_write_perf [OF assms(1) this] show ?thesis
    using True by (simp add: soc_write_device_def)
next
  case False
  then show ?thesis
    using assms(2,3)
    by (cases kind rule: device_kinds) (auto simp: soc_write_device_def split_def soc_uart_write_def split: if_splits)
qed

lemma soc_write_perf:
  assumes "soc_wf s" and "unat a \<notin> {0x20004000..<0x20005000}"
  shows "s_perf (snd (soc_write s a v)) =
    perf_add (s_perf s) 0 (op_accesses (Op_Write a v)) 0 0 (op_stalls (Op_Write a v) s)"
proof (cases "fst (soc_write s a v)")
  case (Inl e)
  with soc_write_fault [OF assms(1) Inl] show ?thesis
    by (simp add: fault_perf_add)
next
  case (Inr u)
  let ?s = "s\<lparr>s_perf := soc_perf_count_mem (s_perf s)\<rparr>"
  note rt = soc_route_counted [OF assms(1)]
  have al: "a mod 4 = 0"
    using Inr by (auto simp: soc_write_def split: if_splits)
  then have d: "fst (soc_write_device ?s (vlab_route (unat a)) a v) = Inr ()"
      "snd (soc_write s a v) = snd (soc_write_device ?s (vlab_route (unat a)) a v)"
    using Inr by (auto simp: soc_write_def Let_def split_def rt split: sum.splits)
  have "vlab_route (unat a) \<noteq> 6"
    using assms(2) by (auto simp: vlab_route_def split: if_splits)
  moreover have "vlab_route (unat a) = 4 \<and> a - 0x20002000 = 12 \<longleftrightarrow> a = 0x2000200C"
    by (auto simp: offset_eq vlab_route_def)
  moreover have "d_perf (s_dma ?s) = SocRef"
    using assms(1) by (simp add: soc_wf_def dma_wf_def)
  ultimately show ?thesis
    using write_device_perf [OF _ d(1)] d(2) Inr al by (auto simp: perf_count_add)
qed

section \<open>Ticks\<close>

text \<open>A tick counts a cycle, and the bytes of a transfer that it completes.\<close>

lemma soc_tick_counts:
  assumes "soc_wf s"
  shows "s_perf (soc_tick malloc s) = perf_add (s_perf s) 1 0
      (if d_busy (s_dma s) \<and> d_done (s_dma (soc_tick malloc s)) then d_length (s_dma s) else 0) 0 0"
    and "d_busy (s_dma (soc_tick malloc s)) \<Longrightarrow>
      d_busy (s_dma s) \<and> d_length (s_dma (soc_tick malloc s)) = d_length (s_dma s)"
    and "\<not> d_busy (s_dma s) \<Longrightarrow> d_done (s_dma (soc_tick malloc s)) = d_done (s_dma s)"
proof -
  obtain u ic1 t ic2 d ic3 p u' sram where
    h: "soc_dma_step malloc (s_dma s) ic2 (soc_perf_tick (s_perf s)) (u, s_sram s) = (d, ic3, p, (u', sram))"
      "soc_tick malloc s = s\<lparr>s_ticks := s_ticks s + 1, s_perf := p, s_uart := u', s_timer := t,
       s_dma := d, s_intc := ic3, s_sram := sram\<rparr>"
    by (rule soc_tick_cases [of s malloc])
  have d: "d_perf (s_dma s) = SocRef" "d_busy (s_dma s) \<Longrightarrow> \<not> d_done (s_dma s)"
    using assms by (auto simp: soc_wf_def dma_wf_def)
  show "s_perf (soc_tick malloc s) = perf_add (s_perf s) 1 0
      (if d_busy (s_dma s) \<and> d_done (s_dma (soc_tick malloc s)) then d_length (s_dma s) else 0) 0 0"
    and "d_busy (s_dma (soc_tick malloc s)) \<Longrightarrow>
      d_busy (s_dma s) \<and> d_length (s_dma (soc_tick malloc s)) = d_length (s_dma s)"
    and "\<not> d_busy (s_dma s) \<Longrightarrow> d_done (s_dma (soc_tick malloc s)) = d_done (s_dma s)"
    using dma_step_outcomes(1) [OF h(1)] d by (auto simp: h(2) dma_finished_def perf_count_add)
qed

lemma soc_ticks_counts:
  assumes "soc_wf s" and "malloc_sound malloc"
  shows "s_perf ((soc_tick malloc ^^ n) s) = perf_add (s_perf s) (of_nat n) 0
      (if d_busy (s_dma s) \<and> d_done (s_dma ((soc_tick malloc ^^ n) s)) then d_length (s_dma s) else 0) 0 0 \<and>
    (d_busy (s_dma ((soc_tick malloc ^^ n) s)) \<longrightarrow>
      d_busy (s_dma s) \<and> d_length (s_dma ((soc_tick malloc ^^ n) s)) = d_length (s_dma s))"
proof (induction n)
  case 0
  show ?case
    using assms(1) by (auto simp: soc_wf_def dma_wf_def)
next
  case (Suc n)
  let ?t = "(soc_tick malloc ^^ n) s"
  have wf: "soc_wf ?t"
    by (rule soc_ticks_wf [OF assms])
  then have "d_busy (s_dma ?t) \<Longrightarrow> \<not> d_done (s_dma ?t)"
    by (auto simp: soc_wf_def dma_wf_def)
  then show ?case
    using soc_tick_counts [OF wf, of malloc] Suc.IH by (auto simp: add.commute)
qed

lemma soc_exec_perf:
  assumes "soc_wf s" and "malloc_sound malloc" and "\<forall>ws. op \<noteq> Op_Boot ws"
    and "\<forall>a v. op = Op_Write a v \<longrightarrow> unat a \<notin> {0x20004000..<0x20005000}"
  shows "s_perf (soc_exec malloc op s) = perf_add (s_perf s) (op_cycles op) (op_accesses op)
    (op_bytes malloc op s) (op_irqs op s) (op_stalls op s)"
proof (cases op)
  case (Op_Read a)
  with soc_read_perf [OF assms(1)] show ?thesis by simp
next
  case (Op_Write a v)
  with soc_write_perf [OF assms(1)] assms(4) show ?thesis by simp
next
  case (Op_Step n)
  with soc_ticks_counts [OF assms(1,2), of "unat n"] show ?thesis by (simp add: soc_step_def)
qed (use assms(3) in blast)

text \<open>A sum over the operations of a sequence, each in the state it finds.\<close>

fun account :: "(soc_op \<Rightarrow> soc_t \<Rightarrow> u32) \<Rightarrow> (nat \<Rightarrow> u8 list option) \<Rightarrow> soc_op list \<Rightarrow> soc_t \<Rightarrow> u32" where
  "account f malloc [] s = 0"
| "account f malloc (op # ops) s = f op s + account f malloc ops (soc_exec malloc op s)"

text \<open>
  C12. What the performance counters count. Over any sequence of bus accesses and steps without
  a boot and without a write into the window of the counters (0x20004000 to 0x20004FFF), and with
  counting enabled: CYCLES advances by the ticks,
  MEM_ACC by the aligned accesses (an unaligned one is refused before it is counted), DMA_BYTES
  by the lengths of the transfers that completed, IRQ_COUNT by the ACK reads that delivered a
  line, and STALLS by the refused accesses and the STARTs that a busy engine ignored, and by
  nothing else. With counting disabled no counter and no control bit moves. Sums wrap at 32 bits.
  This is what the code counts; \<open>docs/soc-spec.md\<close> also counts unaligned accesses in MEM_ACC and
  busy polling in STALLS.
\<close>

theorem perf_accounting:
  assumes "soc_wf s" and "malloc_sound malloc" and "\<forall>ws. Op_Boot ws \<notin> set ops"
    and "\<forall>a v. Op_Write a v \<in> set ops \<longrightarrow> unat a \<notin> {0x20004000..<0x20005000}"
  shows "s_perf (fold (soc_exec malloc) ops s) =
    (if pf_enabled (s_perf s)
     then (s_perf s)\<lparr>
       pf_cycles := pf_cycles (s_perf s) + account (\<lambda>op s. op_cycles op) malloc ops s,
       pf_mem_acc := pf_mem_acc (s_perf s) + account (\<lambda>op s. op_accesses op) malloc ops s,
       pf_dma_bytes := pf_dma_bytes (s_perf s) + account (op_bytes malloc) malloc ops s,
       pf_irq_count := pf_irq_count (s_perf s) + account op_irqs malloc ops s,
       pf_stalls := pf_stalls (s_perf s) + account op_stalls malloc ops s\<rparr>
     else s_perf s)"
proof -
  have "s_perf (fold (soc_exec malloc) ops s) = perf_add (s_perf s) (account (\<lambda>op s. op_cycles op) malloc ops s)
      (account (\<lambda>op s. op_accesses op) malloc ops s) (account (op_bytes malloc) malloc ops s)
      (account op_irqs malloc ops s) (account op_stalls malloc ops s)"
    using assms(1,3,4)
  proof (induction ops arbitrary: s)
    case (Cons op ops)
    have "s_perf (soc_exec malloc op s) = perf_add (s_perf s) (op_cycles op) (op_accesses op)
        (op_bytes malloc op s) (op_irqs op s) (op_stalls op s)"
      by (rule soc_exec_perf [OF Cons.prems(1) assms(2)]) (use Cons.prems in auto)
    moreover have "\<forall>ws. Op_Boot ws \<notin> set ops"
        "\<forall>a v. Op_Write a v \<in> set ops \<longrightarrow> unat a \<notin> {0x20004000..<0x20005000}"
      using Cons.prems by auto
    note Cons.IH [OF soc_exec_wf [OF Cons.prems(1) assms(2)] this]
    ultimately show ?case
      by simp
  qed simp
  then show ?thesis
    by (simp add: perf_add_def)
qed

text \<open>An unaligned read, a read of SRAM and seven ticks.\<close>

theorem perf_accounting_witness:
  "(let p = s_perf (fold (soc_exec (\<lambda>n. None)) [Op_Read 0x10000002, Op_Read 0x10000000, Op_Step 7]
      ((soc_init soc_static None)\<lparr>s_perf := perf_static\<lparr>pf_enabled := True, pf_ctrl := 1\<rparr>\<rparr>))
    in pf_cycles p = 7 \<and> pf_mem_acc p = 1)"
proof -
  let ?s = "(soc_init soc_static None)\<lparr>s_perf := perf_static\<lparr>pf_enabled := True, pf_ctrl := 1\<rparr>\<rparr>"
  let ?ops = "[Op_Read 0x10000002, Op_Read 0x10000000, Op_Step 7]"
  have wf: "soc_wf ?s"
    using soc_init_wf [OF soc_static_storage, of None] by (simp add: soc_wf_def perf_wf_def)
  have m: "malloc_sound (\<lambda>n. None)"
    by (simp add: malloc_sound_def)
  show ?thesis
    using perf_accounting [OF wf m, of ?ops] by (simp add: Let_def perf_static_def del: fold.simps fold_Cons)
qed

end
