(* ===== verification/Spec2Isabelle.thy ===== *)
theory Spec2Isabelle
  imports Bench Recovery Soc_Trace
begin

text \<open>
  A verification library for the virtual SoC of this repository (\<open>src/soc_c\<close>) and for the
  firmware that runs on it (\<open>src/firmware\<close>).

  \<^bold>\<open>The program.\<close> The SoC is one C structure, \<open>soc_t\<close>: a ROM and an SRAM image, a UART with
  loopback, a timer, a single-channel DMA engine, an interrupt controller with three lines,
  performance counters and a CPU marker. The bus (\<open>soc_read\<close>, \<open>soc_write\<close>) routes word accesses to
  them; time passes only in \<open>soc_step\<close>, which ticks counters, UART, timer and DMA in that order.
  The firmware reaches the registers through a host bridge and a HAL; drivers for UART, timer,
  interrupt controller and DMA sit on it, a dispatcher calls interrupt handlers, and a small
  application and two benchmarks use all of it.

  \<^bold>\<open>Conventions.\<close> A 32-bit register is a word, so sums wrap as in C; an \<open>int\<close> of the C code
  is an integer, read from a word where the code casts. A status code is a sum, \<open>Inr\<close> for success.
  A pointer with a count is an optional list. Device code is explicit state passing; firmware
  code is the state monad over a record that holds its static variables. \<open>malloc\<close> is a parameter
  of the tick, from the size to the bytes it returns or to failure; \<open>malloc_sound\<close> asks of it only
  that a buffer is as long as requested and says nothing about its bytes. A run of several
  ticks has one such function, or one for each tick (\<open>soc_ticks_with\<close>). So is the
  code of handlers that an application registers. Fuel is used nowhere: every loop is a total
  function, by structural recursion or by a measure.

  \<^bold>\<open>The theories.\<close>
  \<^item> \<open>Prelude\<close>: words, byte copies, the interfaces \<open>mmio_device\<close> (a register file that keeps its
    invariant and has no effect when it refuses an access) and \<open>countdown\<close> (a component that counts
    ticks), each interpreted for every device.
  \<^item> \<open>Regions\<close>, \<open>Platform\<close>: \<open>mem_regions.h\<close>, \<open>dma_caps.h\<close>, \<open>soc_regs.h\<close>, \<open>platform_vlab.c\<close>.
  \<^item> \<open>Memory\<close>, \<open>Perf\<close>, \<open>Intc\<close>, \<open>Uart\<close>, \<open>Timer\<close>, \<open>Dma\<close>: \<open>soc_memory.c\<close>, \<open>soc_perf.c\<close>, \<open>soc_intc.c\<close>,
    \<open>soc_uart.c\<close>, \<open>soc_timer.c\<close>, \<open>soc_dma.c\<close>, one definition per C function, with the
    invariant of the device and the behaviour of each operation. \<open>Dma\<close> has the interface \<open>dma_port\<close> to
    its memory callbacks. \<open>Dma_Rules\<close> has the documented rules of a request as a linearly ordered
    type, and shows that the engine reports the first rule violated.
  \<^item> \<open>Bus\<close>, \<open>Soc\<close>: \<open>bus.c\<close>, \<open>soc.c\<close>, \<open>soc_cpu.c\<close>. \<open>Soc_Inv\<close> has the invariant \<open>soc_wf\<close> and its
    preservation, and interprets \<open>dma_port\<close> on the bridges of \<open>soc.c\<close>. \<open>Soc_Run\<close> treats the bounded wait
    and boot, \<open>Soc_Bus\<close> the access map and faults, \<open>Soc_Dma\<close> transfers end to end, \<open>Soc_Faults\<close> transfers
    that meet a failing allocator, changed registers, the stuck-busy latch or a reset. \<open>Soc_Trace\<close> has
    sequences of operations, the sizes of the arrays throughout them and what the performance
    counters make of them.
  \<^item> \<open>Host\<close>, \<open>Drivers\<close>: \<open>host_bridge.c\<close>, \<open>hal.c\<close>, \<open>host.c\<close>, and the UART, timer and interrupt
    drivers; the interface \<open>rw_register\<close> is what read-modify-write relies on.
  \<^item> \<open>Dma_Driver\<close>: \<open>drivers/dma.c\<close>. The driver's validation is proved equal to the engine's.
  \<^item> \<open>Job\<close>, \<open>Lifecycle\<close>: the interrupt-driven half of \<open>drivers/dma.c\<close>. \<open>Job\<close> has the specification,
    an abstract timed machine whose labels carry what a caller sees, and the locale \<open>simulation\<close>;
    \<open>Lifecycle\<close> has the driver on the SoC as a transition system over calls, interrupts, time, foreign
    register traffic and engine breakdowns, its invariant, and the interpretation that shows the
    refinement.
  \<^item> \<open>Isr\<close>: \<open>isr.c\<close>; the interface \<open>isr_table\<close> is what the dispatcher relies on in handlers.
  \<^item> \<open>Recovery\<close>: the test hooks of \<open>host_bridge.c\<close> and the way of the driver back from a failed job.
  \<^item> \<open>App\<close>, \<open>Bench\<close>: \<open>platform_init.c\<close>, \<open>main.c\<close>, \<open>boot_time.c\<close>, \<open>cpu_vs_dma.c\<close>.
  \<^item> This theory: what holds in every state the SoC can reach.

  \<^bold>\<open>What is shown.\<close> Every operation of the SoC keeps \<open>soc_wf\<close>. The bus accepts exactly the
  documented accesses and a refused one changes nothing but the counters. A transfer takes
  exactly the documented ticks, copies with \<open>memmove\<close> semantics and changes no other byte; an
  invalid request has no effect but the code of the first rule it violates. Failed allocations
  and the stuck latch only delay a transfer, a reset aborts it as a whole, and a request changed
  after the START is noticed only if it leaves SRAM. No store leaves its array and no admitted
  read does. Performance counters advance by exactly the events the code counts, which are not
  quite those of \<open>docs/soc-spec.md\<close>. Driver and engine agree on validity; the driver implements
  the job machine, with its return codes, its durations and the answers of its query functions,
  and a job fails only if the engine broke down; dispatch serves lines by priority, once each,
  and calls exactly the registered handlers, if these respect \<open>handler_frame\<close>, and it is bounded
  for all handlers that keep the vector table well formed; submission, transfer, interrupt and
  completion compose, and so do failure, recovery and resubmission. The application and the
  benchmarks end with the results they print.

  \<^bold>\<open>Bounds.\<close> Theorems that give the documented duration of a transfer ask that
  \<open>words * latency + (bursts - 1)\<close> is below 2^31, the range of the \<open>int\<close> the engine counts with, and
  that \<open>words + burst\<close> is at most 2^32, so that the count of bursts does not wrap;
  \<open>dma_duration_bounds\<close> gives the duration of every accepted request without these two conditions.
  The UART latency is asked to be below 2^31 where a byte in flight is followed to its end. The
  count \<open>d_remaining\<close> is an unbounded integer: it goes below zero while allocations fail, and where
  the C code would overflow its \<open>int32_t\<close>, after some 2^31 failed allocations of one transfer, the
  model goes on counting; \<open>dma_alloc_retry\<close> excludes that case by a hypothesis. \<open>soc_run_until\<close> is
  treated for every 32-bit budget, with the cast of its result. An image given to boot is a list
  of any length, not only one that a 32-bit count can express.

  \<^bold>\<open>Not modelled.\<close> The test programs; \<open>printf\<close> beyond the values printed; \<open>volatile\<close>, which
  has no effect in a sequential semantics; truly asynchronous interrupts, which the host build
  does not have (handlers run inside \<open>isr_dispatch\<close>); function prototypes and include guards.
\<close>

section \<open>Every reachable state of the SoC\<close>

text \<open>
  C15. The invariant of the SoC. After initialisation from any storage and any sequence of bus
  accesses, steps and boots: at most one of BUSY, DONE and ERROR is reported, an error code is
  latched exactly with ERROR, interrupt masks name the three lines only, and the counters are
  gated by their control bit. The arrays behind ROM, SRAM and the two stream FIFOs have the sizes
  of their declarations (no store ever left its array, it would have made the list longer), the
  FIFOs never hold more than their capacity, and every word or block access that a memory admits
  in such a state lies inside its array, a word read being the four bytes at that index.
\<close>

theorem soc_reachable_invariant:
  assumes "soc_storage s" and "malloc_sound malloc" and "t = fold (soc_exec malloc) ops (soc_init s cfg)"
  shows "soc_wf t \<and> soc_dma_status (s_dma t) \<in> {0, SOC_DMA_STATUS_BUSY, SOC_DMA_STATUS_DONE, SOC_DMA_STATUS_ERROR} \<and>
    (soc_dma_status (s_dma t) = SOC_DMA_STATUS_ERROR \<longleftrightarrow> d_err_code (s_dma t) \<noteq> 0) \<and>
    lines_of (ic_enable (s_intc t)) \<union> lines_of (ic_pending (s_intc t)) \<union> lines_of (ic_active (s_intc t)) \<subseteq> {0, 1, 2} \<and>
    length (u_dma_tx_fifo (s_uart t)) = 16384 \<and> unat (u_dma_tx_len (s_uart t)) \<le> 16384 \<and>
    length (u_dma_rx_fifo (s_uart t)) = 16384 \<and> unat (u_dma_rx_len (s_uart t)) \<le> 16384 \<and>
    length (m_bytes (s_rom t)) = 65536 \<and> length (m_bytes (s_sram t)) = 262144 \<and>
    unat (m_size (s_sram t)) \<le> length (m_bytes (s_sram t)) \<and> unat (m_size (s_rom t)) \<le> length (m_bytes (s_rom t)) \<and>
    (\<forall>m \<in> {s_rom t, s_sram t}. \<forall>a.
       (\<forall>w. soc_mem_read_word m a = Inr w \<longrightarrow> in_store m a 4 \<and>
         (let d = m_bytes m; i = unat a - unat (m_base m)
          in w = word_of_bytes (d ! i) (d ! (i + 1)) (d ! (i + 2)) (d ! (i + 3)))) \<and>
       (\<forall>v. fst (soc_mem_write_word m a v) = Inr () \<longrightarrow> in_store m a 4) \<and>
       (\<forall>n out. fst (soc_mem_read_bytes m a n out) = Inr () \<longrightarrow> in_store m a (unat n)) \<and>
       (\<forall>n xs. fst (soc_mem_write_bytes m a xs n) = Inr () \<longrightarrow> in_store m a (unat n))) \<and>
    pf_enabled (s_perf t) = bit (pf_ctrl (s_perf t)) 0 \<and> s_regions t = vlab_memory_map"
proof -
  have wf: "soc_wf t"
    unfolding assms(3) by (rule soc_execs_wf [OF soc_init_wf [OF assms(1)] assms(2)])
  have parts: "intc_wf (s_intc t)" "uart_wf (s_uart t)" "mem_wf (s_sram t)" "mem_wf (s_rom t)" "perf_wf (s_perf t)"
      "s_regions t = vlab_memory_map"
    using wf by (simp_all add: soc_wf_def rom_ok_def sram_ok_def)
  have "array_sizes t = array_sizes (soc_init s cfg)"
    unfolding assms(3) by (rule soc_execs_sizes [OF soc_init_wf [OF assms(1)] assms(2)])
  then have "length (m_bytes (s_rom t)) = 65536" "length (m_bytes (s_sram t)) = 262144"
    using soc_init_sizes [OF assms(1), of cfg] by (simp_all add: array_sizes_def)
  moreover have "\<forall>m \<in> {s_rom t, s_sram t}. mem_wf m"
    using parts by simp
  note accesses_in_store [OF bspec [OF this]]
  ultimately show ?thesis
    using wf soc_wf_status [OF wf] parts
    by (simp add: intc_wf_def uart_wf_def mem_wf_def perf_wf_def irq_lines_def)
qed

theorem soc_reachable_invariant_witness:
  "soc_dma_status (s_dma (fold (soc_exec (\<lambda>n. None))
     [Op_Boot None, Op_Write VLAB_DMA_LEN 3, Op_Write VLAB_DMA_CTRL 1, Op_Step 7] (soc_init soc_static None)))
     \<in> {0, 1, 2, 4} \<and>
   length (m_bytes (s_sram (fold (soc_exec (\<lambda>n. None))
     [Op_Boot None, Op_Write VLAB_DMA_LEN 3, Op_Write VLAB_DMA_CTRL 1, Op_Step 7] (soc_init soc_static None)))) = 262144"
proof -
  have "malloc_sound (\<lambda>n. None)"
    by (simp add: malloc_sound_def)
  note soc_reachable_invariant [OF soc_static_storage this refl, of
      "[Op_Boot None, Op_Write VLAB_DMA_LEN 3, Op_Write VLAB_DMA_CTRL 1, Op_Step 7]" None]
  then show ?thesis
    by (simp only: SOC_DMA_STATUS_BUSY_def SOC_DMA_STATUS_DONE_def SOC_DMA_STATUS_ERROR_def simp_thms)
qed

text \<open>
  C20. ROM is immutable. No sequence of bus reads, bus writes and steps, whatever transfers it
  programs, changes a byte of ROM; only boot loads it.
\<close>

theorem soc_rom_immutable:
  assumes "soc_wf s" and "malloc_sound malloc" and "\<forall>ws. Op_Boot ws \<notin> set ops"
  shows "s_rom (fold (soc_exec malloc) ops s) = s_rom s"
  using soc_execs_rom [OF assms(2,1,3)] .

theorem soc_rom_immutable_witness:
  "s_rom (fold (soc_exec (\<lambda>n. None)) [Op_Write 0 0xFFFFFFFF, Op_Step 3] (soc_init soc_static None)) =
     s_rom (soc_init soc_static None)"
proof -
  have "malloc_sound (\<lambda>n. None)"
    by (simp add: malloc_sound_def)
  from soc_rom_immutable [OF soc_init_wf [OF soc_static_storage] this, of "[Op_Write 0 0xFFFFFFFF, Op_Step 3]" None]
  show ?thesis
    by simp
qed

end
